(* ===== verification/Prelude.thy ===== *)
theory Prelude
  imports Complex_Main "HOL-Library.AList" "HOL-Library.Char_ord" "HOL-Library.List_Lexorder"
begin

text \<open>
  Shared ground of the development: the named fact collections, the string operations of
  Python that the sources call (over characters read as ASCII), whitespace and separator
  splitting, word-boundary search, decimal printing, and the locale of a deterministic
  machine with an invariant, which every stateful component instantiates.
\<close>

named_theorems enum_defs
  \<open>definitions of the closed enumerations and tables of constants\<close>
named_theorems py_simps
  \<open>evaluation of dictionary and value operations\<close>
named_theorems inv_intros
  \<open>preservation of component invariants\<close>

lemma map_of_rev_distinct: "distinct (map fst fs) \<Longrightarrow> map_of (rev fs) = map_of fs"
proof
  fix k
  assume d: "distinct (map fst fs)"
  then have "distinct (map fst (rev fs))" by (simp only: rev_map [symmetric] distinct_rev)
  with d have "map_of (rev fs) k = Some x \<longleftrightarrow> map_of fs k = Some x" for x
    by (simp only: map_of_eq_Some_iff set_rev)
  then show "map_of (rev fs) k = map_of fs k" by (metis option.exhaust)
qed

subsection \<open>Characters and case\<close>

definition py_isspace :: "char \<Rightarrow> bool" where
  "py_isspace c = (let n = (of_char c :: nat) in (9 \<le> n \<and> n \<le> 13) \<or> (28 \<le> n \<and> n \<le> 32))"

definition lower_char :: "char \<Rightarrow> char" where
  "lower_char c = (let n = (of_char c :: nat) in if 65 \<le> n \<and> n \<le> 90 then char_of (n + 32) else c)"

definition is_digit :: "char \<Rightarrow> bool" where
  "is_digit c = (let n = (of_char c :: nat) in 48 \<le> n \<and> n \<le> 57)"

definition is_lower_letter :: "char \<Rightarrow> bool" where
  "is_lower_letter c = (let n = (of_char c :: nat) in 97 \<le> n \<and> n \<le> 122)"

definition is_word_char :: "char \<Rightarrow> bool" where
  "is_word_char c = (is_digit c \<or> is_lower_letter (lower_char c) \<or> c = CHR ''_'')"

text \<open>On ASCII text \<open>str.lower\<close> and \<open>str.casefold\<close> agree.\<close>

definition lower :: "string \<Rightarrow> string" where
  "lower s = map lower_char s"

abbreviation casefold :: "string \<Rightarrow> string" where
  "casefold \<equiv> lower"

definition lstrip :: "string \<Rightarrow> string" where
  "lstrip s = dropWhile py_isspace s"

definition strip :: "string \<Rightarrow> string" where
  "strip s = rev (dropWhile py_isspace (rev (dropWhile py_isspace s)))"

lemma lower_char_idem [simp]: "lower_char (lower_char c) = lower_char c"
proof -
  have "(of_char c :: nat) < 256" by simp
  then show ?thesis by (auto simp: lower_char_def Let_def)
qed

lemma lower_lower [simp]: "lower (lower s) = lower s"
  by (simp add: lower_def)

lemma lower_Nil [simp]: "lower [] = []" and lower_Cons: "lower (c # s) = lower_char c # lower s"
  and lower_append: "lower (s @ t) = lower s @ lower t" and length_lower [simp]: "length (lower s) = length s"
  by (simp_all add: lower_def)

lemma strip_Nil [simp]: "strip [] = []"
  by (simp add: strip_def)

lemma dropWhile_rev_end: "dropWhile P (rev xs) = rev (rev (dropWhile P (rev xs)))"
  by simp

lemma strip_hd: "strip s \<noteq> [] \<Longrightarrow> \<not> py_isspace (hd (strip s))"
proof -
  assume ne: "strip s \<noteq> []"
  define t where "t = dropWhile py_isspace s"
  obtain u where u: "rev t = u @ dropWhile py_isspace (rev t)"
    by (metis takeWhile_dropWhile_id)
  then have t: "t = strip s @ rev u"
    by (metis rev_append rev_rev_ident strip_def t_def)
  with ne have "t \<noteq> []" "hd t = hd (strip s)" by auto
  then show ?thesis by (metis hd_dropWhile t_def)
qed

lemma strip_last: "strip s \<noteq> [] \<Longrightarrow> \<not> py_isspace (last (strip s))"
  by (metis strip_def Nil_is_rev_conv hd_dropWhile last_rev)

lemma dropWhile_hd_id: "xs = [] \<or> \<not> P (hd xs) \<Longrightarrow> dropWhile P xs = xs"
  by (cases xs) auto

lemma strip_strip [simp]: "strip (strip s) = strip s"
proof (cases "strip s = []")
  case False
  let ?t = "strip s"
  have "dropWhile py_isspace ?t = ?t" using strip_hd [OF False] by (simp add: dropWhile_hd_id)
  moreover have "dropWhile py_isspace (rev ?t) = rev ?t"
    using strip_last [OF False] False by (simp add: dropWhile_hd_id hd_rev)
  ultimately show ?thesis by (simp add: strip_def [of ?t])
qed simp

lemma py_isspace_lower [simp]: "py_isspace (lower_char c) = py_isspace c"
proof -
  have "(of_char c :: nat) < 256" by simp
  then show ?thesis by (auto simp: lower_char_def py_isspace_def Let_def)
qed

lemma strip_lower: "strip (lower s) = lower (strip s)"
  by (simp add: strip_def lower_def dropWhile_map rev_map comp_def)

subsection \<open>Prefixes, substrings, separators\<close>

definition starts_with :: "string \<Rightarrow> string \<Rightarrow> bool" where
  "starts_with p s = (take (length p) s = p)"

definition ends_with :: "string \<Rightarrow> string \<Rightarrow> bool" where
  "ends_with p s = (length p \<le> length s \<and> drop (length s - length p) s = p)"

fun contains :: "string \<Rightarrow> string \<Rightarrow> bool" where
  "contains p [] = (p = [])"
| "contains p (c # cs) = (starts_with p (c # cs) \<or> contains p cs)"

lemma starts_with_iff: "starts_with p s \<longleftrightarrow> (\<exists>t. s = p @ t)"
  unfolding starts_with_def by (metis append_eq_conv_conj append_take_drop_id)

lemma contains_iff: "contains p s \<longleftrightarrow> (\<exists>u v. s = u @ p @ v)"
proof (induction s)
  case Nil
  then show ?case by auto
next
  case (Cons c cs)
  have "(\<exists>u v. c # cs = u @ p @ v) \<longleftrightarrow> (\<exists>v. c # cs = p @ v) \<or> (\<exists>u v. cs = u @ p @ v)"
  proof
    assume "\<exists>u v. c # cs = u @ p @ v"
    then obtain u v where uv: "c # cs = u @ p @ v" by blast
    then show "(\<exists>v. c # cs = p @ v) \<or> (\<exists>u v. cs = u @ p @ v)"
      by (cases u) auto
  next
    assume "(\<exists>v. c # cs = p @ v) \<or> (\<exists>u v. cs = u @ p @ v)"
    then show "\<exists>u v. c # cs = u @ p @ v"
    proof
      assume "\<exists>v. c # cs = p @ v"
      then show ?thesis by (metis append_Nil)
    next
      assume "\<exists>u v. cs = u @ p @ v"
      then obtain u v where "cs = u @ p @ v" by blast
      then have "c # cs = (c # u) @ p @ v" by simp
      then show ?thesis by blast
    qed
  qed
  with Cons show ?case by (simp add: starts_with_iff)
qed

text \<open>\<open>s.find(sep)\<close> with the text before and after the first occurrence (\<open>sep\<close> not empty).\<close>

fun find_sep :: "string \<Rightarrow> string \<Rightarrow> (string \<times> string) option" where
  "find_sep sep [] = None"
| "find_sep sep (c # cs) =
     (if starts_with sep (c # cs) then Some ([], drop (length sep) (c # cs))
      else map_option (\<lambda>(a, b). (c # a, b)) (find_sep sep cs))"

lemma find_sep_Some: "find_sep sep s = Some (a, b) \<Longrightarrow> s = a @ sep @ b"
proof (induction s arbitrary: a b)
  case (Cons c cs)
  then show ?case
    by (auto simp: starts_with_def split: if_splits) (metis append_take_drop_id)
qed simp

fun split_str :: "string \<Rightarrow> string \<Rightarrow> string list" where
  "split_str sep s =
     (case find_sep sep s of
        None \<Rightarrow> [s]
      | Some (a, b) \<Rightarrow> a # (if length b < length s then split_str sep b else [b]))"

declare split_str.simps [simp del]

fun split_on :: "char \<Rightarrow> string \<Rightarrow> string list" where
  "split_on d [] = [[]]"
| "split_on d (c # cs) =
     (if c = d then [] # split_on d cs
      else (case split_on d cs of [] \<Rightarrow> [[c]] | p # ps \<Rightarrow> (c # p) # ps))"

text \<open>\<open>str.split()\<close>: maximal runs of characters that are not whitespace.\<close>

fun runs :: "(char \<Rightarrow> bool) \<Rightarrow> string \<Rightarrow> string \<Rightarrow> string list" where
  "runs P cur [] = (if cur = [] then [] else [rev cur])"
| "runs P cur (c # cs) =
     (if P c then runs P (c # cur) cs
      else if cur = [] then runs P [] cs else rev cur # runs P [] cs)"

definition split_ws :: "string \<Rightarrow> string list" where
  "split_ws s = runs (\<lambda>c. \<not> py_isspace c) [] s"

fun py_join :: "string \<Rightarrow> string list \<Rightarrow> string" where
  "py_join sep [] = []"
| "py_join sep [s] = s"
| "py_join sep (s # t # ts) = s @ sep @ py_join sep (t # ts)"

definition is_linebreak :: "char \<Rightarrow> bool" where
  "is_linebreak c = (let n = (of_char c :: nat) in (10 \<le> n \<and> n \<le> 13) \<or> (28 \<le> n \<and> n \<le> 30))"

fun splitlines_aux :: "string \<Rightarrow> string \<Rightarrow> string list" where
  "splitlines_aux cur [] = (if cur = [] then [] else [rev cur])"
| "splitlines_aux cur (c # cs) =
     (if is_linebreak c
      then rev cur # splitlines_aux []
             (if c = CHR 0x0D \<and> cs \<noteq> [] \<and> hd cs = CHR 0x0A then tl cs else cs)
      else splitlines_aux (c # cur) cs)"

definition splitlines :: "string \<Rightarrow> string list" where
  "splitlines s = splitlines_aux [] s"

definition nonblank_parts :: "string list \<Rightarrow> string list" where
  \<comment> \<open>\<open>[part.strip() for part in parts if part.strip()]\<close>\<close>
  "nonblank_parts ps = filter (\<lambda>p. p \<noteq> []) (map strip ps)"

lemma nonblank_parts_ne: "p \<in> set (nonblank_parts ps) \<Longrightarrow> p \<noteq> [] \<and> strip p = p"
  by (auto simp: nonblank_parts_def)

subsection \<open>Regular-expression fragments\<close>

definition opt_word :: "char option \<Rightarrow> bool" where
  "opt_word p = (case p of None \<Rightarrow> False | Some c \<Rightarrow> is_word_char c)"

definition boundary :: "char option \<Rightarrow> char option \<Rightarrow> bool" where
  \<comment> \<open>the assertion \<open>\\b\<close> between two neighbours, \<open>None\<close> at the ends of the text\<close>
  "boundary a b = (opt_word a \<noteq> opt_word b)"

definition char_at :: "nat \<Rightarrow> string \<Rightarrow> char option" where
  "char_at n s = (case drop n s of [] \<Rightarrow> None | c # _ \<Rightarrow> Some c)"

fun word_search :: "char option \<Rightarrow> string \<Rightarrow> string \<Rightarrow> bool" where
  \<comment> \<open>\<open>re.search(r"\\b" + m + r"\\b", s)\<close> for a literal, non-empty \<open>m\<close>\<close>
  "word_search p m [] = False"
| "word_search p m (c # cs) =
     ((starts_with m (c # cs) \<and> boundary p (Some c)
       \<and> boundary (Some (last m)) (char_at (length m) (c # cs)))
      \<or> word_search (Some c) m cs)"

lemma word_search_contains: "word_search p m s \<Longrightarrow> contains m s"
  by (induction s arbitrary: p) auto

fun first_some :: "('a \<Rightarrow> 'b option) \<Rightarrow> 'a list \<Rightarrow> 'b option" where
  "first_some f [] = None"
| "first_some f (x # xs) = (case f x of None \<Rightarrow> first_some f xs | Some y \<Rightarrow> Some y)"

definition rest_of_line :: "string \<Rightarrow> (string \<times> string) option" where
  \<comment> \<open>\<open>\\s*(.+)\<close> at the start of a text: the group and what follows it, the space run
     backtracking from its longest\<close>
  "rest_of_line r =
     first_some (\<lambda>k. let g = takeWhile (\<lambda>x. x \<noteq> CHR 0x0A) (drop k r)
                     in if g = [] then None else Some (g, drop (k + length g) r))
       (rev [0..<length (takeWhile py_isspace r) + 1])"

subsection \<open>Decimal printing and ordering\<close>

fun show_nat :: "nat \<Rightarrow> string" where
  "show_nat n = (if n < 10 then [char_of (48 + n)] else show_nat (n div 10) @ [char_of (48 + n mod 10)])"

declare show_nat.simps [simp del]

definition show_int :: "int \<Rightarrow> string" where
  "show_int i = (if i < 0 then CHR ''-'' # show_nat (nat (- i)) else show_nat (nat i))"

definition sorted_set :: "string list \<Rightarrow> string list" where
  \<comment> \<open>\<open>sorted(set(xs))\<close>\<close>
  "sorted_set xs = sort (remdups xs)"

lemma set_sorted_set [simp]: "set (sorted_set xs) = set xs"
  and sorted_sorted_set [simp]: "sorted (sorted_set xs)"
  and distinct_sorted_set [simp]: "distinct (sorted_set xs)"
  by (simp_all add: sorted_set_def)

lemma sorted_set_empty [simp]: "sorted_set xs = [] \<longleftrightarrow> xs = []"
  by (metis set_empty set_sorted_set)

lemma find_SomeD: "find P xs = Some x \<Longrightarrow> x \<in> set xs \<and> P x"
  by (auto simp: find_Some_iff)

subsection \<open>Machines with an invariant\<close>

text \<open>
  The contract every stateful component offers: a step function over operations and an
  invariant that the initial state has and each step keeps. Runs then keep it too.
\<close>

locale machine =
  fixes step :: "'op \<Rightarrow> 's \<Rightarrow> 's"
    and init :: "'s \<Rightarrow> bool"
    and inv :: "'s \<Rightarrow> bool"
  assumes init_inv: "init s \<Longrightarrow> inv s"
    and step_inv: "inv s \<Longrightarrow> inv (step a s)"
begin

lemma fold_inv: "inv s \<Longrightarrow> inv (fold step ops s)"
  by (induction ops arbitrary: s) (auto intro: step_inv)

lemma run_inv: "init s \<Longrightarrow> inv (fold step ops s)"
  by (rule fold_inv [OF init_inv])

end

end
