(* ===== verification/PyVal.thy ===== *)
theory PyVal
  imports Prelude
begin

text \<open>
  Python's dynamically typed values, as far as the sources pass them around in plain
  dictionaries: truth values, \<open>str()\<close>, the \<open>a or b\<close> operator, \<open>dict.get\<close> and
  insertion-ordered dictionaries as association lists. Floats are exact rationals.
\<close>

datatype pyval =
    PNone
  | PBool bool
  | PInt int
  | PFloat rat
  | PStr string
  | PList "pyval list"
  | PDict "(string \<times> pyval) list"

type_synonym pdict = "(string \<times> pyval) list"

subsection \<open>Truth, identity tests\<close>

fun truthy :: "pyval \<Rightarrow> bool" where
  "truthy PNone = False"
| "truthy (PBool b) = b"
| "truthy (PInt i) = (i \<noteq> 0)"
| "truthy (PFloat r) = (r \<noteq> 0)"
| "truthy (PStr s) = (s \<noteq> [])"
| "truthy (PList xs) = (xs \<noteq> [])"
| "truthy (PDict d) = (d \<noteq> [])"

definition py_or :: "pyval \<Rightarrow> pyval \<Rightarrow> pyval" where
  "py_or a b = (if truthy a then a else b)"

fun is_str :: "pyval \<Rightarrow> bool" where
  "is_str (PStr s) = True"
| "is_str _ = False"

fun str_of :: "pyval \<Rightarrow> string" where
  "str_of (PStr s) = s"
| "str_of _ = []"

definition str_in :: "pyval \<Rightarrow> string list \<Rightarrow> bool" where
  \<comment> \<open>membership of any value in a tuple or set of string constants\<close>
  "str_in v xs = (case v of PStr s \<Rightarrow> s \<in> set xs | _ \<Rightarrow> False)"

fun as_list :: "pyval \<Rightarrow> pyval list option" where
  "as_list (PList xs) = Some xs"
| "as_list _ = None"

fun as_dict :: "pyval \<Rightarrow> pdict option" where
  "as_dict (PDict d) = Some d"
| "as_dict _ = None"

subsection \<open>Printing: repr and str\<close>

lemma pdict_size: "(k, v) \<in> set d \<Longrightarrow> size v < Suc (size_list (size_prod (\<lambda>_. 0) size) d)"
  by (induction d) auto

lemma plist_size: "v \<in> set xs \<Longrightarrow> size v < Suc (size_list size xs)"
  by (induction xs) auto

fun show_frac :: "nat \<Rightarrow> rat \<Rightarrow> string" where
  \<comment> \<open>the decimal digits of a fraction in [0, 1), at most as many as the first argument\<close>
  "show_frac 0 r = []"
| "show_frac (Suc k) r =
     (let d = \<lfloor>10 * r\<rfloor>; r' = 10 * r - of_int d
      in show_nat (nat d) @ (if r' = 0 then [] else show_frac k r'))"

definition show_float :: "rat \<Rightarrow> string" where
  \<comment> \<open>positional notation; 17 digits are enough for the decimal a double prints as\<close>
  "show_float r =
     (let a = \<bar>r\<bar>; n = \<lfloor>a\<rfloor>
      in (if r < 0 then ''-'' else []) @ show_nat (nat n) @ ''.'' @ show_frac 17 (a - of_int n))"

definition repr_char :: "char \<Rightarrow> char \<Rightarrow> string" where
  "repr_char q c =
     (if c = q \<or> c = CHR 0x5C then [CHR 0x5C, c]
      else if c = CHR 0x0A then [CHR 0x5C, CHR ''n'']
      else if c = CHR 0x0D then [CHR 0x5C, CHR ''r'']
      else if c = CHR 0x09 then [CHR 0x5C, CHR ''t'']
      else [c])"

definition repr_str :: "string \<Rightarrow> string" where
  "repr_str s =
     (let q = (if CHR 0x27 \<in> set s \<and> CHR 0x22 \<notin> set s then CHR 0x22 else CHR 0x27)
      in q # concat (map (repr_char q) s) @ [q])"

function py_repr :: "pyval \<Rightarrow> string" where
  "py_repr PNone = ''None''"
| "py_repr (PBool b) = (if b then ''True'' else ''False'')"
| "py_repr (PInt i) = show_int i"
| "py_repr (PFloat r) = show_float r"
| "py_repr (PStr s) = repr_str s"
| "py_repr (PList xs) = ''['' @ py_join '', '' (map py_repr xs) @ '']''"
| "py_repr (PDict d) =
     ''{'' @ py_join '', '' (map (\<lambda>kv. repr_str (fst kv) @ '': '' @ py_repr (snd kv)) d) @ ''}''"
  by pat_completeness auto
termination
  by (relation "measure size") (auto dest: plist_size pdict_size)

definition py_str :: "pyval \<Rightarrow> string" where
  "py_str v = (case v of PStr s \<Rightarrow> s | _ \<Rightarrow> py_repr v)"

lemma py_str_PStr [simp, py_simps]: "py_str (PStr s) = s"
  by (simp add: py_str_def)

subsection \<open>Dictionaries\<close>

definition has_key :: "pdict \<Rightarrow> string \<Rightarrow> bool" where
  "has_key d k = (map_of d k \<noteq> None)"

definition dget :: "pdict \<Rightarrow> string \<Rightarrow> pyval" where
  \<comment> \<open>\<open>d.get(k)\<close>\<close>
  "dget d k = (case map_of d k of None \<Rightarrow> PNone | Some v \<Rightarrow> v)"

definition dget_or :: "pdict \<Rightarrow> string \<Rightarrow> pyval \<Rightarrow> pyval" where
  \<comment> \<open>\<open>d.get(k, default)\<close>\<close>
  "dget_or d k v = (case map_of d k of None \<Rightarrow> v | Some w \<Rightarrow> w)"

definition dset :: "pdict \<Rightarrow> string \<Rightarrow> pyval \<Rightarrow> pdict" where
  \<comment> \<open>\<open>d[k] = v\<close>: in place when the key exists, appended otherwise\<close>
  "dset d k v = AList.update k v d"

definition dpop :: "pdict \<Rightarrow> string \<Rightarrow> pdict" where
  "dpop d k = AList.delete k d"

definition dmerge :: "pdict \<Rightarrow> pdict \<Rightarrow> pdict" where
  \<comment> \<open>\<open>{**d, **e}\<close>\<close>
  "dmerge d e = fold (\<lambda>(k, v) acc. dset acc k v) e d"

definition gets :: "pdict \<Rightarrow> string \<Rightarrow> string" where
  \<comment> \<open>the idiom \<open>str(d.get(k) or "")\<close>\<close>
  "gets d k = (let v = dget d k in if truthy v then py_str v else [])"

definition gets_or :: "pdict \<Rightarrow> string \<Rightarrow> string \<Rightarrow> string" where
  \<comment> \<open>\<open>str(d.get(k) or default)\<close>\<close>
  "gets_or d k s = (let v = dget d k in if truthy v then py_str v else s)"

definition gets2 :: "pdict \<Rightarrow> string \<Rightarrow> string \<Rightarrow> string" where
  \<comment> \<open>\<open>str(d.get(k) or d.get(k') or "")\<close>\<close>
  "gets2 d k k' = (let v = py_or (dget d k) (dget d k') in if truthy v then py_str v else [])"

lemma has_key_dset [simp]: "has_key (dset d k v) k' = (k' = k \<or> has_key d k')"
  by (simp add: has_key_def dset_def update_conv)

lemma dget_dset: "dget (dset d k v) k' = (if k' = k then v else dget d k')"
  by (simp add: dget_def dset_def update_conv)

lemma dget_dset_same [simp]: "dget (dset d k v) k = v"
  and dget_dset_other [simp]: "k' \<noteq> k \<Longrightarrow> dget (dset d k v) k' = dget d k'"
  by (simp_all add: dget_dset)

lemma dget_or_dset: "dget_or (dset d k v) k' w = (if k' = k then v else dget_or d k' w)"
  by (simp add: dget_or_def dset_def update_conv)

lemma dget_dpop: "dget (dpop d k) k' = (if k' = k then PNone else dget d k')"
  by (simp add: dget_def dpop_def delete_conv)

lemma dget_Nil [simp]: "dget [] k = PNone"
  by (simp add: dget_def)

lemma dget_Cons: "dget ((k, v) # d) k' = (if k = k' then v else dget d k')"
  by (simp add: dget_def)

lemma gets_dset: "gets (dset d k v) k' = (if k' = k then (if truthy v then py_str v else []) else gets d k')"
  by (simp add: gets_def Let_def dget_dset)

lemma gets_Nil [simp]: "gets [] k = []"
  by (simp add: gets_def)

lemma gets_Cons: "gets ((k, v) # d) k' = (if k = k' then (if truthy v then py_str v else []) else gets d k')"
  by (simp add: gets_def dget_Cons Let_def)

lemma py_str_empty_truthy: "(if s \<noteq> [] then s else []) = s"
  by simp

lemma gets_PStr: "dget d k = PStr s \<Longrightarrow> gets d k = s"
  by (simp add: gets_def)

lemma py_or_PNone [simp]: "py_or PNone b = b"
  by (simp add: py_or_def)

lemma truthy_py_or [simp]: "truthy (py_or a b) = (truthy a \<or> truthy b)"
  by (simp add: py_or_def)

lemmas dict_simps = dget_dset dget_Cons gets_dset gets_Cons has_key_dset dget_dpop

declare dget_dset [py_simps] dget_Cons [py_simps] gets_dset [py_simps] gets_Cons [py_simps]

definition map_str :: "pyval list \<Rightarrow> string list" where
  "map_str xs = map py_str xs"

lemma show_nat_ne: "show_nat n \<noteq> []"
  by (subst show_nat.simps) simp

lemma py_str_empty: "py_str v = [] \<longleftrightarrow> v = PStr []"
  by (cases v) (auto simp: py_str_def show_int_def show_float_def repr_str_def show_nat_ne Let_def)

lemma py_str_truthy: "truthy v \<Longrightarrow> py_str v \<noteq> []"
  by (auto simp: py_str_empty)

end
