(* ===== verification/Json.thy ===== *)
theory Json
  imports PyVal
begin

text \<open>
  The two functions of Python's \<open>json\<close> module that the sources call. \<open>json_dumps\<close> prints
  with the default separators and \<open>ensure_ascii\<close>; \<open>json_loads\<close> is the recursive-descent
  reader, \<open>None\<close> where it raises ValueError. Values read back as they were written
  (\<open>json_roundtrip\<close>) when they hold no float and no dictionary has a key twice.
\<close>

subsection \<open>Printing\<close>

definition hex_digit :: "nat \<Rightarrow> char" where
  "hex_digit n = (if n < 10 then char_of (48 + n) else char_of (87 + n))"

definition esc_char :: "char \<Rightarrow> string" where
  "esc_char c =
     (if c = CHR 0x22 then [CHR 0x5C, CHR 0x22]
      else if c = CHR 0x5C then [CHR 0x5C, CHR 0x5C]
      else if c = CHR 0x0A then [CHR 0x5C, CHR ''n'']
      else if c = CHR 0x0D then [CHR 0x5C, CHR ''r'']
      else if c = CHR 0x09 then [CHR 0x5C, CHR ''t'']
      else if c = CHR 0x08 then [CHR 0x5C, CHR ''b'']
      else if c = CHR 0x0C then [CHR 0x5C, CHR ''f'']
      else (let n = (of_char c :: nat) in
        if 32 \<le> n \<and> n \<le> 126 then [c]
        else [CHR 0x5C, CHR ''u'', CHR ''0'', CHR ''0'', hex_digit (n div 16), hex_digit (n mod 16)]))"

definition json_str :: "string \<Rightarrow> string" where
  "json_str s = CHR 0x22 # concat (map esc_char s) @ [CHR 0x22]"

function json_dumps :: "pyval \<Rightarrow> string" where
  "json_dumps PNone = ''null''"
| "json_dumps (PBool b) = (if b then ''true'' else ''false'')"
| "json_dumps (PInt i) = show_int i"
| "json_dumps (PFloat r) = show_float r"
| "json_dumps (PStr s) = json_str s"
| "json_dumps (PList xs) = ''['' @ py_join '', '' (map json_dumps xs) @ '']''"
| "json_dumps (PDict d) =
     ''{'' @ py_join '', '' (map (\<lambda>kv. json_str (fst kv) @ '': '' @ json_dumps (snd kv)) d) @ ''}''"
  by pat_completeness auto
termination
  by (relation "measure size") (auto dest: plist_size pdict_size)

subsection \<open>Reading\<close>

definition json_ws :: "char \<Rightarrow> bool" where
  "json_ws c = (c = CHR '' '' \<or> c = CHR 0x09 \<or> c = CHR 0x0A \<or> c = CHR 0x0D)"

abbreviation skip_ws :: "string \<Rightarrow> string" where
  "skip_ws \<equiv> dropWhile json_ws"

definition hex_val :: "char \<Rightarrow> nat option" where
  "hex_val c = (let n = (of_char c :: nat) in
     if 48 \<le> n \<and> n \<le> 57 then Some (n - 48)
     else if 97 \<le> n \<and> n \<le> 102 then Some (n - 87)
     else if 65 \<le> n \<and> n \<le> 70 then Some (n - 55) else None)"

definition simple_escape :: "char \<Rightarrow> char option" where
  "simple_escape c =
     (if c = CHR 0x22 \<or> c = CHR 0x5C \<or> c = CHR ''/'' then Some c
      else if c = CHR ''n'' then Some (CHR 0x0A)
      else if c = CHR ''r'' then Some (CHR 0x0D)
      else if c = CHR ''t'' then Some (CHR 0x09)
      else if c = CHR ''b'' then Some (CHR 0x08)
      else if c = CHR ''f'' then Some (CHR 0x0C)
      else None)"

definition hex_quad :: "char \<Rightarrow> char \<Rightarrow> char \<Rightarrow> char \<Rightarrow> char option" where
  \<comment> \<open>a code point beyond the character type is outside the model\<close>
  "hex_quad a b c d =
     (case (hex_val a, hex_val b, hex_val c, hex_val d) of
        (Some w, Some x, Some y, Some z) \<Rightarrow>
          (let n = ((w * 16 + x) * 16 + y) * 16 + z in if n < 256 then Some (char_of n) else None)
      | _ \<Rightarrow> None)"

fun read_str :: "string \<Rightarrow> (string \<times> string) option" where
  \<comment> \<open>the text after the opening quote\<close>
  "read_str [] = None"
| "read_str (c # cs) =
     (if c = CHR 0x22 then Some ([], cs)
      else if c = CHR 0x5C then
        (case cs of
           [] \<Rightarrow> None
         | e # es \<Rightarrow>
             if e = CHR ''u'' then
               (case es of
                  h1 # h2 # h3 # h4 # r \<Rightarrow>
                    (case (hex_quad h1 h2 h3 h4, read_str r) of
                       (Some u, Some (t, r')) \<Rightarrow> Some (u # t, r')
                     | _ \<Rightarrow> None)
                | _ \<Rightarrow> None)
             else
               (case (simple_escape e, read_str es) of
                  (Some u, Some (t, r')) \<Rightarrow> Some (u # t, r')
                | _ \<Rightarrow> None))
      else if (of_char c :: nat) < 32 then None
      else (case read_str cs of Some (t, r') \<Rightarrow> Some (c # t, r') | None \<Rightarrow> None))"

definition digit_val :: "char \<Rightarrow> nat" where
  "digit_val c = of_char c - 48"

definition digits_val :: "string \<Rightarrow> nat" where
  "digits_val ds = foldl (\<lambda>n c. 10 * n + digit_val c) 0 ds"

definition read_exp :: "string \<Rightarrow> (int \<times> string) option" where
  \<comment> \<open>the optional part \<open>[eE][-+]?\\d+\<close>\<close>
  "read_exp s =
     (case s of
        [] \<Rightarrow> None
      | e # r \<Rightarrow>
          if e = CHR ''e'' \<or> e = CHR ''E'' then
            (let neg = (r \<noteq> [] \<and> hd r = CHR ''-'');
                 r' = (if r \<noteq> [] \<and> (hd r = CHR ''-'' \<or> hd r = CHR ''+'') then tl r else r);
                 ds = takeWhile is_digit r'
             in if ds = [] then None
                else Some ((if neg then - int (digits_val ds) else int (digits_val ds)),
                           dropWhile is_digit r'))
          else None)"

definition read_frac :: "string \<Rightarrow> (rat \<times> string) option" where
  \<comment> \<open>the optional part \<open>\\.\\d+\<close>\<close>
  "read_frac s =
     (case s of
        [] \<Rightarrow> None
      | p # r \<Rightarrow>
          if p = CHR ''.'' then
            (let ds = takeWhile is_digit r
             in if ds = [] then None
                else Some (of_nat (digits_val ds) / 10 ^ length ds, dropWhile is_digit r))
          else None)"

definition pow10 :: "int \<Rightarrow> rat" where
  "pow10 e = (if 0 \<le> e then 10 ^ nat e else 1 / 10 ^ nat (- e))"

definition int_part :: "string \<Rightarrow> string" where
  \<comment> \<open>the part \<open>0|[1-9]\\d*\<close> of a run of digits\<close>
  "int_part ds = (if ds \<noteq> [] \<and> hd ds = CHR ''0'' then [hd ds] else ds)"

definition read_num :: "string \<Rightarrow> (pyval \<times> string) option" where
  "read_num s =
     (let neg = (s \<noteq> [] \<and> hd s = CHR ''-''); t = (if neg then tl s else s);
          ip = int_part (takeWhile is_digit t);
          r = drop (length ip) t; n = int (digits_val ip); sg = (if neg then - n else n)
      in if ip = [] then None
         else
           (case (read_frac r, read_exp r) of
              (None, None) \<Rightarrow> Some (PInt sg, r)
            | (None, Some (e, r')) \<Rightarrow> Some (PFloat (of_int sg * pow10 e), r')
            | (Some (f, r'), _) \<Rightarrow>
                (let m = (of_int n + f) * (if neg then - 1 else 1)
                 in (case read_exp r' of
                       None \<Rightarrow> Some (PFloat m, r')
                     | Some (e, r'') \<Rightarrow> Some (PFloat (m * pow10 e), r'')))))"

fun read_value :: "nat \<Rightarrow> string \<Rightarrow> (pyval \<times> string) option"
  and read_elems :: "nat \<Rightarrow> pyval list \<Rightarrow> string \<Rightarrow> (pyval \<times> string) option"
  and read_members :: "nat \<Rightarrow> pdict \<Rightarrow> string \<Rightarrow> (pyval \<times> string) option" where
  "read_value 0 s = None"
| "read_value (Suc n) s =
     (case s of
        [] \<Rightarrow> None
      | c # cs \<Rightarrow>
          if c = CHR 0x22 then map_option (\<lambda>(t, r). (PStr t, r)) (read_str cs)
          else if c = CHR ''['' then
            (case skip_ws cs of
               [] \<Rightarrow> None
             | d # ds \<Rightarrow> if d = CHR '']'' then Some (PList [], ds) else read_elems n [] (d # ds))
          else if c = CHR ''{'' then
            (case skip_ws cs of
               [] \<Rightarrow> None
             | d # ds \<Rightarrow> if d = CHR ''}'' then Some (PDict [], ds) else read_members n [] (d # ds))
          else if starts_with ''null'' s then Some (PNone, drop 4 s)
          else if starts_with ''true'' s then Some (PBool True, drop 4 s)
          else if starts_with ''false'' s then Some (PBool False, drop 5 s)
          else read_num s)"
| "read_elems 0 acc s = None"
| "read_elems (Suc n) acc s =
     (case read_value n s of
        None \<Rightarrow> None
      | Some (v, r) \<Rightarrow>
          (case skip_ws r of
             [] \<Rightarrow> None
           | c # cs \<Rightarrow>
               if c = CHR '']'' then Some (PList (acc @ [v]), cs)
               else if c = CHR '','' then read_elems n (acc @ [v]) (skip_ws cs)
               else None))"
| "read_members 0 acc s = None"
| "read_members (Suc n) acc s =
     (case s of
        [] \<Rightarrow> None
      | q # qs \<Rightarrow>
          if q \<noteq> CHR 0x22 then None
          else (case read_str qs of
             None \<Rightarrow> None
           | Some (k, r) \<Rightarrow>
               (case skip_ws r of
                  [] \<Rightarrow> None
                | p # ps \<Rightarrow>
                    if p \<noteq> CHR '':'' then None
                    else (case read_value n (skip_ws ps) of
                       None \<Rightarrow> None
                     | Some (v, r') \<Rightarrow>
                         (case skip_ws r' of
                            [] \<Rightarrow> None
                          | c # cs \<Rightarrow>
                              if c = CHR ''}'' then Some (PDict (dset acc k v), cs)
                              else if c = CHR '','' then read_members n (dset acc k v) (skip_ws cs)
                              else None)))))"

definition json_loads :: "string \<Rightarrow> pyval option" where
  "json_loads s =
     (case read_value (Suc (length s)) (skip_ws s) of
        None \<Rightarrow> None
      | Some (v, r) \<Rightarrow> if skip_ws r = [] then Some v else None)"

subsection \<open>Round trip\<close>

lemma hex_val_hex_digit: "n < 16 \<Longrightarrow> hex_val (hex_digit n) = Some n"
  by (auto simp: hex_val_def hex_digit_def)

lemma hex_quad_byte: "hex_quad (CHR ''0'') (CHR ''0'') (hex_digit (of_char c div 16)) (hex_digit (of_char c mod 16)) = Some c"
proof -
  have b: "(of_char c :: nat) < 256" by simp
  then have "(of_char c :: nat) div 16 < 16" by arith
  moreover have "hex_val (CHR ''0'') = Some 0" by (simp add: hex_val_def)
  ultimately show ?thesis using b by (simp add: hex_quad_def hex_val_hex_digit Let_def)
qed

lemma read_str_esc:
  "read_str (esc_char c @ t) = (case read_str t of Some (x, r) \<Rightarrow> Some (c # x, r) | None \<Rightarrow> None)"
proof -
  consider "c \<in> {CHR 0x22, CHR 0x5C, CHR 0x0A, CHR 0x0D, CHR 0x09, CHR 0x08, CHR 0x0C}"
    | (plain) "c \<notin> {CHR 0x22, CHR 0x5C, CHR 0x0A, CHR 0x0D, CHR 0x09, CHR 0x08, CHR 0x0C}" "32 \<le> (of_char c :: nat)" "(of_char c :: nat) \<le> 126"
    | (hex) "c \<notin> {CHR 0x22, CHR 0x5C, CHR 0x0A, CHR 0x0D, CHR 0x09, CHR 0x08, CHR 0x0C}" "\<not> (32 \<le> (of_char c :: nat) \<and> (of_char c :: nat) \<le> 126)"
    by blast
  then show ?thesis
  proof cases
    case 1
    then show ?thesis by (auto simp: esc_char_def simple_escape_def split: option.splits)
  next
    case plain
    then show ?thesis by (auto simp: esc_char_def Let_def split: option.splits)
  next
    case hex
    have "esc_char c = [CHR 0x5C, CHR ''u'', CHR ''0'', CHR ''0'', hex_digit (of_char c div 16), hex_digit (of_char c mod 16)]"
      using hex by (simp only: esc_char_def Let_def) simp
    then show ?thesis by (simp add: hex_quad_byte split: option.splits)
  qed
qed

lemma read_str_json: "read_str (concat (map esc_char s) @ CHR 0x22 # r) = Some (s, r)"
  by (induction s) (simp_all add: read_str_esc)

lemma show_nat_small: "n < 10 \<Longrightarrow> show_nat n = [char_of (48 + n)]"
  and show_nat_big: "\<not> n < 10 \<Longrightarrow> show_nat n = show_nat (n div 10) @ [char_of (48 + n mod 10)]"
  by (simp_all add: show_nat.simps [of n])

lemma is_digit_char: "(n::nat) < 10 \<Longrightarrow> is_digit (char_of (48 + n))"
  by (simp add: is_digit_def Let_def)

lemma show_nat_digits: "\<forall>c \<in> set (show_nat n). is_digit c"
proof (induction n rule: show_nat.induct)
  case (1 n)
  then show ?case
    by (cases "n < 10") (auto simp: show_nat_small show_nat_big is_digit_char)
qed

lemma digit_val_char: "(n::nat) < 10 \<Longrightarrow> digit_val (char_of (48 + n)) = n"
  by (simp add: digit_val_def)

lemma digits_val_show: "digits_val (show_nat n) = n"
proof (induction n rule: show_nat.induct)
  case (1 n)
  then show ?case
    by (cases "n < 10") (auto simp: show_nat_small show_nat_big digits_val_def digit_val_char)
qed

lemma show_nat_hd: "hd (show_nat n) = CHR ''0'' \<longleftrightarrow> n = 0"
proof (induction n rule: show_nat.induct)
  case (1 n)
  show ?case
  proof (cases "n < 10")
    case True
    have "char_of (48 + n) = CHR ''0'' \<longleftrightarrow> n = 0"
    proof
      assume "char_of (48 + n) = CHR ''0''"
      then have "(of_char (char_of (48 + n) :: char) :: nat) = of_char (CHR ''0'')" by simp
      with True show "n = 0" by simp
    next
      assume "n = 0"
      moreover have "(char_of (48::nat) :: char) = CHR ''0''" by code_simp
      ultimately show "char_of (48 + n) = CHR ''0''" by simp
    qed
    with True show ?thesis by (simp add: show_nat_small)
  next
    case False
    then show ?thesis using 1 by (auto simp: show_nat_big hd_append show_nat_ne)
  qed
qed

definition num_end :: "string \<Rightarrow> bool" where
  "num_end r = (r = [] \<or> \<not> is_digit (hd r) \<and> hd r \<noteq> CHR ''.'' \<and> hd r \<noteq> CHR ''e'' \<and> hd r \<noteq> CHR ''E'')"

lemma takeWhile_digits: "num_end r \<Longrightarrow> takeWhile is_digit (show_nat n @ r) = show_nat n"
  using show_nat_digits [of n] by (cases r) (auto simp: num_end_def takeWhile_append2)

lemma read_frac_end: "num_end r \<Longrightarrow> read_frac r = None"
  and read_exp_end: "num_end r \<Longrightarrow> read_exp r = None"
  by (auto simp: num_end_def read_frac_def read_exp_def split: list.splits)

lemma show_nat_hd_digit: "is_digit (hd (show_nat n))"
  using show_nat_digits show_nat_ne by (metis hd_in_set)

lemma read_num_nat:
  assumes "num_end r"
  shows "read_num (show_nat n @ r) = Some (PInt (int n), r)"
    and "read_num (CHR ''-'' # show_nat n @ r) = Some (PInt (- int n), r)"
proof -
  let ?ds = "show_nat n"
  have ip: "int_part ?ds = ?ds"
    by (auto simp: int_part_def show_nat_hd show_nat_small)
  have "hd (?ds @ r) \<noteq> CHR ''-''"
    using show_nat_hd_digit [of n] show_nat_ne [of n] by (auto simp: is_digit_def)
  then show "read_num (show_nat n @ r) = Some (PInt (int n), r)"
    using assms ip by (simp add: read_num_def Let_def takeWhile_digits digits_val_show
        read_frac_end read_exp_end show_nat_ne)
  show "read_num (CHR ''-'' # show_nat n @ r) = Some (PInt (- int n), r)"
    using assms ip by (simp add: read_num_def Let_def takeWhile_digits digits_val_show
        read_frac_end read_exp_end show_nat_ne)
qed

lemma read_num_int: "num_end r \<Longrightarrow> read_num (show_int i @ r) = Some (PInt i, r)"
  by (simp add: show_int_def read_num_nat)

function json_ok :: "pyval \<Rightarrow> bool" where
  "json_ok PNone = True"
| "json_ok (PBool b) = True"
| "json_ok (PInt i) = True"
| "json_ok (PFloat r) = False"
| "json_ok (PStr s) = True"
| "json_ok (PList xs) = list_all json_ok xs"
| "json_ok (PDict d) = (distinct (map fst d) \<and> list_all (\<lambda>kv. json_ok (snd kv)) d)"
  by pat_completeness auto
termination
  by (relation "measure size") (auto dest: plist_size pdict_size)

lemma py_join_Cons: "py_join sep (x # xs) = x @ (if xs = [] then [] else sep @ py_join sep xs)"
  by (cases xs) simp_all

lemma json_dumps_hd: "json_ok v \<Longrightarrow> \<exists>c cs. json_dumps v = c # cs \<and> \<not> json_ws c \<and> c \<noteq> CHR '']''"
proof (cases v)
  case (PInt i)
  have "is_digit (hd (show_nat n))" "show_nat n \<noteq> []" for n
    by (rule show_nat_hd_digit, rule show_nat_ne)
  moreover have "is_digit c \<Longrightarrow> \<not> json_ws c \<and> c \<noteq> CHR '']''" for c
    by (auto simp: is_digit_def json_ws_def Let_def)
  ultimately have "\<exists>c cs. show_nat n = c # cs \<and> \<not> json_ws c \<and> c \<noteq> CHR '']''" for n
    by (metis list.exhaust_sel)
  then show ?thesis using PInt by (auto simp: show_int_def json_ws_def)
qed (auto simp: json_ws_def json_str_def)

lemma skip_ws_dumps: "json_ok v \<Longrightarrow> skip_ws (json_dumps v @ r) = json_dumps v @ r"
  using json_dumps_hd [of v] by auto

lemma length_dumps_pos: "json_ok v \<Longrightarrow> 0 < length (json_dumps v)"
  using json_dumps_hd [of v] by auto

definition reads :: "pyval \<Rightarrow> bool" where
  "reads v \<longleftrightarrow> (\<forall>n r. length (json_dumps v) < n \<longrightarrow> num_end r \<longrightarrow>
      read_value n (json_dumps v @ r) = Some (v, r))"

lemma readsD: "reads v \<Longrightarrow> length (json_dumps v) < n \<Longrightarrow> num_end r \<Longrightarrow>
    read_value n (json_dumps v @ r) = Some (v, r)"
  by (simp add: reads_def)

lemma num_end_simps [simp]: "num_end []" "num_end (CHR '','' # r)" "num_end (CHR '']'' # r)" "num_end (CHR ''}'' # r)"
  by (simp_all add: num_end_def is_digit_def)

lemma json_ws_simps [simp]: "\<not> json_ws (CHR '','')" "\<not> json_ws (CHR '']'')" "\<not> json_ws (CHR ''}'')"
  "json_ws (CHR '' '')" "\<not> json_ws (CHR '':'')" "\<not> json_ws (CHR 0x22)"
  by (simp_all add: json_ws_def)

lemma read_elems_join:
  assumes "vs \<noteq> []" "\<forall>v \<in> set vs. json_ok v \<and> reads v"
    "length (py_join '', '' (map json_dumps vs)) + 1 < n"
  shows "read_elems n acc (py_join '', '' (map json_dumps vs) @ CHR '']'' # r) = Some (PList (acc @ vs), r)"
  using assms
proof (induction vs arbitrary: n acc)
  case (Cons v vs)
  obtain m where n: "n = Suc m" using Cons.prems(3) by (cases n) auto
  show ?case
  proof (cases "vs = []")
    case True
    with Cons.prems n show ?thesis by (simp add: readsD)
  next
    case False
    let ?rest = "py_join '', '' (map json_dumps vs) @ CHR '']'' # r"
    have v: "read_value m (json_dumps v @ '', '' @ ?rest) = Some (v, '', '' @ ?rest)"
      using Cons.prems n False by (intro readsD) (auto simp: py_join_Cons)
    obtain w ws where vs: "vs = w # ws" using False by (cases vs) auto
    have "skip_ws ?rest = ?rest"
      using Cons.prems(2) vs skip_ws_dumps [of w] by (simp add: py_join_Cons)
    moreover have "read_elems m (acc @ [v]) ?rest = Some (PList ((acc @ [v]) @ vs), r)"
      using Cons.prems n False by (intro Cons.IH) (auto simp: py_join_Cons)
    ultimately show ?thesis using v n False by (simp add: py_join_Cons)
  qed
qed simp

abbreviation member_text :: "string \<times> pyval \<Rightarrow> string" where
  "member_text kv \<equiv> json_str (fst kv) @ '': '' @ json_dumps (snd kv)"

lemma dset_fresh: "k \<notin> fst ` set d \<Longrightarrow> dset d k v = d @ [(k, v)]"
  unfolding dset_def by (induction d) auto

lemma read_members_join:
  assumes "d \<noteq> []" "\<forall>kv \<in> set d. json_ok (snd kv) \<and> reads (snd kv)"
    "distinct (map fst (acc @ d))"
    "length (py_join '', '' (map member_text d)) + 1 < n"
  shows "read_members n acc (py_join '', '' (map member_text d) @ CHR ''}'' # r) = Some (PDict (acc @ d), r)"
  using assms
proof (induction d arbitrary: n acc)
  case (Cons kv d)
  obtain k v where kv: "kv = (k, v)" by (cases kv)
  obtain m where n: "n = Suc m" using Cons.prems(4) by (cases n) auto
  have upd: "dset acc k v = acc @ [kv]"
    using Cons.prems(3) kv by (auto intro: dset_fresh)
  have key: "read_str (concat (map esc_char k) @ CHR 0x22 # t) = Some (k, t)" for t
    by (rule read_str_json)
  have sk: "skip_ws (json_dumps v @ t) = json_dumps v @ t" for t
    using Cons.prems(2) kv by (simp add: skip_ws_dumps)
  show ?case
  proof (cases "d = []")
    case True
    have "read_value m (json_dumps v @ CHR ''}'' # r) = Some (v, CHR ''}'' # r)"
      using Cons.prems n kv True by (intro readsD) auto
    with True n kv upd key sk show ?thesis by (simp add: json_str_def)
  next
    case False
    let ?rest = "py_join '', '' (map member_text d) @ CHR ''}'' # r"
    have v: "read_value m (json_dumps v @ '', '' @ ?rest) = Some (v, '', '' @ ?rest)"
      using Cons.prems n False kv by (intro readsD) (auto simp: py_join_Cons)
    obtain w ws where d: "d = w # ws" using False by (cases d) auto
    have "skip_ws ?rest = ?rest" using d by (simp add: py_join_Cons json_str_def)
    moreover have "read_members m (acc @ [kv]) ?rest = Some (PDict ((acc @ [kv]) @ d), r)"
      using Cons.prems n False by (intro Cons.IH) (auto simp: py_join_Cons)
    ultimately show ?thesis using v n False kv upd key sk
      by (simp add: py_join_Cons json_str_def)
  qed
qed simp

lemma reads_atom: "reads PNone" "reads (PBool b)" "reads (PStr s)"
proof -
  show "reads PNone" "reads (PBool b)" "reads (PStr s)"
    by (auto simp: reads_def starts_with_def json_str_def read_str_json gr0_conv_Suc dest!: Suc_lessD less_imp_Suc_add)
qed

lemma reads_int: "reads (PInt i)"
proof -
  have "\<exists>c cs. show_int i @ r = c # cs \<and> (is_digit c \<or> c = CHR ''-'')" for r
    using show_nat_ne show_nat_hd_digit by (auto simp: show_int_def) (metis append_Cons list.exhaust_sel)
  then have "read_value (Suc m) (show_int i @ r) = read_num (show_int i @ r)" for m r
  proof -
    obtain c cs where c: "show_int i @ r = c # cs" "is_digit c \<or> c = CHR ''-''"
      using \<open>\<And>r. \<exists>c cs. show_int i @ r = c # cs \<and> (is_digit c \<or> c = CHR ''-'')\<close> by blast
    have "c \<notin> {CHR 0x22, CHR ''['', CHR ''{'', CHR ''n'', CHR ''t'', CHR ''f''}"
      using c(2) by (auto simp: is_digit_def)
    then show ?thesis using c(1) by (simp add: starts_with_def)
  qed
  then show ?thesis
    by (auto simp: reads_def read_num_int dest!: less_imp_Suc_add)
qed

lemma reads_list:
  assumes "\<forall>v \<in> set xs. json_ok v \<and> reads v"
  shows "reads (PList xs)"
proof (cases "xs = []")
  case True
  then show ?thesis by (auto simp: reads_def dest!: less_imp_Suc_add)
next
  case False
  then obtain w ws where xs: "xs = w # ws" by (cases xs) auto
  from assms xs obtain c cs where c: "json_dumps w = c # cs" "\<not> json_ws c" "c \<noteq> CHR '']''"
    using json_dumps_hd [of w] by auto
  have hd: "\<exists>t'. py_join '', '' (map json_dumps xs) @ t = c # t'" for t
    using xs c by (simp add: py_join_Cons)
  show ?thesis unfolding reads_def
  proof (intro allI impI)
    fix n r assume n: "length (json_dumps (PList xs)) < n"
    then obtain m where m: "n = Suc m" by (cases n) auto
    from n m have "read_elems m [] (py_join '', '' (map json_dumps xs) @ CHR '']'' # r) = Some (PList ([] @ xs), r)"
      by (intro read_elems_join [OF False assms]) auto
    then show "read_value n (json_dumps (PList xs) @ r) = Some (PList xs, r)"
      using m c(2,3) hd [of "CHR '']'' # r"] by auto
  qed
qed

lemma reads_dict:
  assumes "\<forall>kv \<in> set d. json_ok (snd kv) \<and> reads (snd kv)" "distinct (map fst d)"
  shows "reads (PDict d)"
proof (cases "d = []")
  case True
  then show ?thesis by (auto simp: reads_def dest!: less_imp_Suc_add)
next
  case False
  then obtain w ws where d: "d = w # ws" by (cases d) auto
  have hd: "\<exists>t'. py_join '', '' (map member_text d) @ t = CHR 0x22 # t'" for t
    using d by (simp add: py_join_Cons json_str_def)
  show ?thesis unfolding reads_def
  proof (intro allI impI)
    fix n r assume n: "length (json_dumps (PDict d)) < n"
    then obtain m where m: "n = Suc m" by (cases n) auto
    from n m have "read_members m [] (py_join '', '' (map member_text d) @ CHR ''}'' # r) = Some (PDict ([] @ d), r)"
      using assms by (intro read_members_join [OF False]) auto
    then show "read_value n (json_dumps (PDict d) @ r) = Some (PDict d, r)"
      using m hd [of "CHR ''}'' # r"] by auto
  qed
qed

lemma json_ok_reads: "json_ok v \<Longrightarrow> reads v"
  by (induction v rule: json_ok.induct)
    (auto simp: reads_atom reads_int list_all_iff intro!: reads_list reads_dict)

lemma json_roundtrip: "json_ok v \<Longrightarrow> json_loads (json_dumps v) = Some v"
  using json_ok_reads [of v, THEN readsD, of "Suc (length (json_dumps v))" "[]"]
    skip_ws_dumps [of v "[]"] by (simp add: json_loads_def)

declare json_dumps.simps [simp del]

end
