(* ===== verification/InboxActions.thy ===== *)
theory InboxActions
  imports Json
begin

text \<open>
  The pure inbox decision core, \<^verbatim>\<open>core/agents/inbox_actions.py\<close>: the closed enumerations,
  keyword markers, the difficulty router with its classification ladder, the draft checklist,
  and the comparison of a mailbox observation with a filed decision.
\<close>

subsection \<open>Enumerations and tables\<close>

definition CATEGORIES :: "string list" where [enum_defs]:
  "CATEGORIES = [''urgent'', ''actionable'', ''personal'', ''newsletter'', ''promo'', ''spam'']"

definition ACTIONS :: "string list" where [enum_defs]:
  "ACTIONS = [''keep'', ''archive'', ''mark_read'', ''draft'', ''undo'']"

definition MODEL_ACTIONS :: "string list" where [enum_defs]:
  "MODEL_ACTIONS = [''keep'', ''archive'', ''mark_read'', ''draft'']"

definition UTILITIES :: "string list" where [enum_defs]:
  "UTILITIES = [''none'', ''correspondence'', ''financial'']"

definition PROFILES :: "string list" where [enum_defs]:
  "PROFILES = [''local-only'', ''hybrid'', ''cloud-first'']"

definition PIN_CONFIDENCE :: rat where "PIN_CONFIDENCE = 9 / 10"
definition PIN_HITS :: int where "PIN_HITS = 3"
definition TIER_CONFIDENCE :: rat where "TIER_CONFIDENCE = 8 / 10"
definition LOCAL_FLOOR :: rat where "LOCAL_FLOOR = 6 / 10"
definition DRAFT_TOKEN_CAP :: nat where "DRAFT_TOKEN_CAP = 180"

definition CATEGORY_ACTION :: "(string \<times> string) list" where [enum_defs]:
  "CATEGORY_ACTION =
     [(''urgent'', ''keep''), (''actionable'', ''keep''), (''personal'', ''keep''),
      (''newsletter'', ''archive''), (''promo'', ''archive''), (''spam'', ''archive'')]"

definition FLAG_COLOR :: "(string \<times> string) list" where [enum_defs]:
  "FLAG_COLOR =
     [(''urgent'', ''red''), (''actionable'', ''orange''), (''personal'', ''blue''),
      (''newsletter'', ''green''), (''promo'', ''purple''), (''spam'', ''gray'')]"

definition LABEL_NAME :: "(string \<times> string) list" where [enum_defs]:
  "LABEL_NAME =
     [(''urgent'', ''Cerid/Urgent''), (''actionable'', ''Cerid/Action''),
      (''personal'', ''Cerid/Personal''), (''newsletter'', ''Cerid/Newsletter''),
      (''promo'', ''Cerid/Promo''), (''spam'', ''Cerid/Spam'')]"

definition GMAIL_TOOLS :: "string list" where [enum_defs]:
  "GMAIL_TOOLS =
     [''list_gmail_labels'', ''manage_gmail_label'', ''modify_gmail_message_labels'',
      ''batch_modify_gmail_message_labels'', ''draft_gmail_message'']"

definition OUTLOOK_TOOLS :: "string list" where [enum_defs]:
  "OUTLOOK_TOOLS =
     [''move-mail-message'', ''create-reply-draft'', ''create-draft-email'',
      ''update-mail-message'', ''list-mail-folders'', ''list-mail-child-folders'',
      ''create-mail-folder'', ''create-mail-child-folder'']"

definition APPLE_COMMANDS :: "string list" where [enum_defs]:
  "APPLE_COMMANDS = [''flag'', ''read'', ''move'', ''draft'', ''find'']"

definition OUTLOOK_WELL_KNOWN :: "string list" where [enum_defs]:
  "OUTLOOK_WELL_KNOWN = [''inbox'', ''archive'', ''drafts'', ''sentitems'']"

definition PROVIDER_TOOLS :: "(string \<times> string list) list" where [enum_defs]:
  "PROVIDER_TOOLS =
     [(''gmail'', GMAIL_TOOLS), (''outlook'', OUTLOOK_TOOLS), (''apple_mail'', APPLE_COMMANDS)]"

definition FORBIDDEN_TOOLS :: "string list" where [enum_defs]:
  "FORBIDDEN_TOOLS = [''send_gmail_message'', ''send-mail'', ''delete-mail-message'']"

definition tab :: "(string \<times> 'a) list \<Rightarrow> string \<Rightarrow> 'a \<Rightarrow> 'a" where
  \<comment> \<open>\<open>TABLE.get(k, default)\<close>\<close>
  "tab t k d = (case map_of t k of None \<Rightarrow> d | Some v \<Rightarrow> v)"

definition provider_tools :: "string \<Rightarrow> string list" where
  "provider_tools p = tab PROVIDER_TOOLS p []"

subsection \<open>Keyword markers\<close>

definition INJECTION_MARKERS :: "string list" where
  "INJECTION_MARKERS =
     [''ignore previous'', ''ignore all previous'', ''forward to'', ''delete all'',
      ''you are now'', ''system prompt'']"

definition FINANCIAL_MARKERS :: "string list" where
  "FINANCIAL_MARKERS =
     [''invoice'', ''amount due'', ''payment received'', ''payment confirmation'',
      ''your bill'', ''receipt'', ''account statement'', ''statement is ready'']"

definition URGENT_MARKERS :: "string list" where
  "URGENT_MARKERS =
     [''urgent'', ''asap'', ''emergency'', ''right away'', ''deadline today'', ''critical'']"

definition PROMO_MARKERS :: "string list" where
  "PROMO_MARKERS = [''unsubscribe'', ''% off'', ''%off'', ''promo code'']"

definition SUBJECT_PROMO_MARKERS :: "string list" where
  "SUBJECT_PROMO_MARKERS = [''sale'']"

definition SPAM_MARKERS :: "string list" where
  "SPAM_MARKERS =
     [''you have won'', ''you've won'', ''claim your prize'', ''lottery winner'',
      ''dear beneficiary'', ''wire transfer'', ''crypto giveaway'',
      ''verify your account immediately'', ''account has been suspended'',
      ''suspended your account'', ''password expires today'', ''social security number'']"

definition NEWSLETTER_MARKERS :: "string list" where
  "NEWSLETTER_MARKERS = [''newsletter'', ''weekly digest'', ''monthly update'']"

definition DRAFT_STOPWORDS :: "string list" where
  "DRAFT_STOPWORDS =
     [''a'', ''an'', ''the'', ''to'', ''you'', ''your'', ''can'', ''please'', ''me'', ''i'', ''we'',
      ''our'', ''this'', ''that'', ''it'', ''is'', ''are'', ''of'', ''for'', ''on'', ''in'', ''at'',
      ''and'', ''or'', ''do'', ''did'', ''will'', ''would'', ''could'', ''should'', ''from'',
      ''with'', ''about'']"

definition marker_search :: "string \<Rightarrow> string \<Rightarrow> bool" where
  \<comment> \<open>\<open>_marker_pattern(marker).search(lowered)\<close>\<close>
  "marker_search marker lowered =
     (if marker \<in> {''% off'', ''%off''} then contains marker lowered
      else if marker = ''invoice'' then
        word_search None ''invoices'' lowered \<or> word_search None ''invoice'' lowered
      else if marker = ''receipt'' then
        word_search None ''receipts'' lowered \<or> word_search None ''receipt'' lowered
      else word_search None marker lowered)"

definition first_marker :: "string \<Rightarrow> string list \<Rightarrow> string" where
  "first_marker text markers =
     (case find (\<lambda>m. marker_search m (lower text)) markers of None \<Rightarrow> [] | Some m \<Rightarrow> m)"

definition heuristic_category :: "string \<Rightarrow> bool \<Rightarrow> string \<times> rat" where
  "heuristic_category text include_urgent =
     (if first_marker text SPAM_MARKERS \<noteq> [] then (''spam'', 9 / 10)
      else if include_urgent \<and> first_marker text URGENT_MARKERS \<noteq> [] then (''urgent'', 9 / 10)
      else if first_marker text PROMO_MARKERS \<noteq> [] then (''promo'', 9 / 10)
      else if first_marker text NEWSLETTER_MARKERS \<noteq> [] then (''newsletter'', 86 / 100)
      else (''actionable'', 4 / 10))"

definition promo_marker :: "string \<Rightarrow> string \<Rightarrow> string" where
  "promo_marker text subject =
     (let m = first_marker text PROMO_MARKERS
      in if m \<noteq> [] then m else first_marker subject SUBJECT_PROMO_MARKERS)"

definition financial_marker :: "string \<Rightarrow> string" where
  "financial_marker text = first_marker text FINANCIAL_MARKERS"

definition utility_for :: "string \<Rightarrow> string \<Rightarrow> string" where
  "utility_for text category =
     (if financial_marker text \<noteq> [] then ''financial''
      else if category \<in> set [''newsletter'', ''promo'', ''spam''] then ''none''
      else ''correspondence'')"

definition clamp_action :: "pyval \<Rightarrow> string \<Rightarrow> string" where
  "clamp_action proposed category =
     (if str_in proposed MODEL_ACTIONS then str_of proposed
      else tab CATEGORY_ACTION category ''keep'')"

subsection \<open>The router\<close>

record thread_signals =
  sig_excerpt :: string
  sig_message_count :: nat
  sig_heuristic_category :: string
  sig_heuristic_confidence :: rat
  sig_memory_action :: pyval
  sig_memory_category :: pyval
  sig_memory_confidence :: rat
  sig_rule_action :: pyval
  sig_rule_category :: pyval
  sig_rule_confidence :: rat
  sig_proposed_action :: pyval
  sig_sticks :: bool

record route =
  rt_band :: string
  rt_action :: string
  rt_category :: string
  rt_utility :: string
  rt_confidence :: rat
  rt_rationale :: string

definition route_thread :: "thread_signals \<Rightarrow> route" where
  "route_thread s =
     (let category = (if sig_heuristic_category s \<in> set CATEGORIES
                      then sig_heuristic_category s else ''actionable'');
          utility = utility_for (sig_excerpt s) category
      in if str_in (sig_memory_action s) MODEL_ACTIONS \<and> sig_memory_confidence s \<ge> PIN_CONFIDENCE
         then let remembered = (if str_in (sig_memory_category s) CATEGORIES
                                then str_of (sig_memory_category s) else category)
              in \<lparr>rt_band = ''skip'', rt_action = str_of (sig_memory_action s), rt_category = remembered,
                  rt_utility = utility_for (sig_excerpt s) remembered,
                  rt_confidence = sig_memory_confidence s, rt_rationale = ''sender memory''\<rparr>
         else if str_in (sig_rule_action s) MODEL_ACTIONS \<and> sig_rule_confidence s \<ge> PIN_CONFIDENCE
         then let ruled = (if str_in (sig_rule_category s) CATEGORIES
                           then str_of (sig_rule_category s) else category)
              in \<lparr>rt_band = ''skip'', rt_action = str_of (sig_rule_action s), rt_category = ruled,
                  rt_utility = utility_for (sig_excerpt s) ruled,
                  rt_confidence = sig_rule_confidence s, rt_rationale = ''rule''\<rparr>
         else let action = clamp_action (sig_proposed_action s) category
              in if sig_sticks s \<and> sig_heuristic_confidence s \<ge> TIER_CONFIDENCE
                 then \<lparr>rt_band = ''skip'', rt_action = action, rt_category = category,
                       rt_utility = utility, rt_confidence = sig_heuristic_confidence s,
                       rt_rationale = ''deterministic''\<rparr>
                 else \<lparr>rt_band = ''local-small'', rt_action = action, rt_category = category,
                       rt_utility = utility, rt_confidence = sig_heuristic_confidence s,
                       rt_rationale = ''classify''\<rparr>)"

definition CLASSIFICATION_LADDER :: "(string \<times> string) list" where [enum_defs]:
  "CLASSIFICATION_LADDER =
     [(''local-small'', ''inbox_triage''), (''local-chat'', ''inbox_triage_review''),
      (''cloud'', ''inbox_triage_escalate'')]"

fun index_of :: "'a list \<Rightarrow> 'a \<Rightarrow> nat option" where
  "index_of [] x = None"
| "index_of (y # ys) x = (if y = x then Some 0 else map_option Suc (index_of ys x))"

definition climb :: "string \<Rightarrow> string \<Rightarrow> bool \<Rightarrow> rat \<Rightarrow> string" where
  "climb band profile0 failed confidence =
     (let profile = (if profile0 \<in> set PROFILES then profile0 else ''hybrid'')
      in if \<not> failed \<and> confidence \<ge> TIER_CONFIDENCE then band
         else let bands = map fst CLASSIFICATION_LADDER
              in (case index_of bands band of
                    None \<Rightarrow> ''needs_review''
                  | Some i \<Rightarrow>
                      if i + 1 \<ge> length bands then ''needs_review''
                      else let nxt = bands ! (i + 1)
                           in if nxt = ''cloud'' \<and> profile = ''local-only'' then ''needs_review'' else nxt))"

definition escalate :: "string \<Rightarrow> string \<Rightarrow> bool \<Rightarrow> rat \<Rightarrow> bool \<Rightarrow> string" where
  "escalate band profile0 local_failed confidence draft_failed =
     (let needs_cloud = (local_failed \<or> confidence < LOCAL_FLOOR \<or> draft_failed)
      in if \<not> needs_cloud then band
         else let profile = (if profile0 \<in> set PROFILES then profile0 else ''hybrid'')
              in if profile = ''local-only'' then ''needs_review'' else ''cloud'')"

subsection \<open>The draft checklist\<close>

definition nl_sep :: string where
  "nl_sep = [CHR 0x0A, CHR 0x0A, CHR ''-'', CHR ''-'', CHR ''-'', CHR 0x0A, CHR 0x0A]"

definition latest_ask :: "string \<Rightarrow> string" where
  "latest_ask excerpt =
     (let lastb = last (split_str nl_sep excerpt)
      in if CHR ''?'' \<in> set lastb
         then let upto = rev (dropWhile (\<lambda>c. c \<noteq> CHR ''?'') (rev lastb));
                  lead = butlast upto;
                  sentence = rev (takeWhile (\<lambda>c. c \<notin> {CHR ''.'', CHR ''!'', CHR 0x0A}) (rev lead)) @ ''?''
              in py_join '' '' (split_ws sentence)
         else (case find (\<lambda>t. t \<noteq> [] \<and> \<not> starts_with ''from:'' (casefold t)
                                \<and> \<not> starts_with ''subject:'' (casefold t))
                         (map strip (rev (splitlines lastb))) of
                 None \<Rightarrow> [] | Some t \<Rightarrow> t))"

definition content_words :: "string \<Rightarrow> string list" where
  "content_words text =
     filter (\<lambda>w. length w \<ge> 4 \<and> w \<notin> set DRAFT_STOPWORDS)
       (runs (\<lambda>c. is_lower_letter c \<or> is_digit c \<or> c = CHR 0x27) [] (casefold text))"

definition draft_problems :: "string \<Rightarrow> string \<Rightarrow> string list" where
  "draft_problems draft excerpt =
     (let text = strip draft
      in if text = [] then [''empty'']
         else let over = (if length (split_ws text) > DRAFT_TOKEN_CAP then [''over_cap''] else []);
                  folded_draft = casefold text;
                  folded_excerpt = casefold excerpt;
                  copied = (if list_ex (\<lambda>m. contains m folded_excerpt \<and> contains m folded_draft) INJECTION_MARKERS
                            then [''copied_instruction''] else []);
                  ask = latest_ask excerpt;
                  reasons = over @ copied
              in if ask \<noteq> [] \<and> folded_draft = casefold ask then reasons @ [''misses_ask'']
                 else let ask_words = (if ask \<noteq> [] then content_words ask else [])
                      in if ask \<noteq> [] \<and> ask_words \<noteq> [] \<and> \<not> list_ex (\<lambda>w. w \<in> set (content_words text)) ask_words
                         then reasons @ [''misses_ask'']
                         else if ask \<noteq> [] \<and> ask_words = [] \<and> length (split_ws text) < 2
                         then reasons @ [''misses_ask'']
                         else reasons)"

definition rstrip :: "string \<Rightarrow> string" where
  "rstrip s = rev (dropWhile py_isspace (rev s))"

definition fence_sub :: "string \<Rightarrow> string" where
  \<comment> \<open>\<open>_DRAFT_FENCE.sub("", s)\<close> for a stripped text\<close>
  "fence_sub s =
     (let t = (if starts_with ''```'' s
               then let r = drop 3 s in lstrip (if starts_with ''json'' r then drop 4 r else r)
               else s)
      in if ends_with ''```'' t then rstrip (take (length t - 3) t) else t)"

definition parse_draft_text :: "pyval \<Rightarrow> string" where
  "parse_draft_text raw =
     (case raw of
        PDict d \<Rightarrow> strip (gets d ''draft'')
      | PStr s \<Rightarrow>
          (let cleaned = strip (fence_sub (strip s))
           in (case json_loads cleaned of
                 None \<Rightarrow> cleaned
               | Some (PDict d) \<Rightarrow> if \<not> has_key d ''draft'' then [] else strip (gets d ''draft'')
               | Some _ \<Rightarrow> cleaned))
      | _ \<Rightarrow> [])"

definition moves :: "string \<Rightarrow> bool \<Rightarrow> bool" where
  "moves action folder_sort =
     (if action = ''undo'' then True else if action = ''archive'' then True
      else action = ''keep'' \<and> folder_sort)"

subsection \<open>What the mailbox shows: learning from corrections\<close>

definition LABEL_CATEGORY :: "(string \<times> string) list" where
  "LABEL_CATEGORY = map (\<lambda>(category, name). (casefold name, category)) LABEL_NAME"

definition FLAG_CATEGORY :: "(string \<times> string) list" where
  "FLAG_CATEGORY = map (\<lambda>(category, color). (casefold color, category)) FLAG_COLOR"

definition names_of :: "pdict \<Rightarrow> string \<Rightarrow> string list option" where
  \<comment> \<open>\<open>_names\<close>\<close>
  "names_of observation key =
     (case map_of observation key of
        None \<Rightarrow> None
      | Some raw \<Rightarrow>
          (case raw of
             PStr s \<Rightarrow> Some (nonblank_parts (split_on (CHR '','') s))
           | PList xs \<Rightarrow> Some (nonblank_parts (map py_str xs))
           | _ \<Rightarrow> None))"

fun cerid_aux :: "string list \<Rightarrow> string list \<Rightarrow> string list" where
  "cerid_aux found [] = found"
| "cerid_aux found (name # names) =
     (case map_of LABEL_CATEGORY (casefold name) of
        None \<Rightarrow> cerid_aux found names
      | Some category \<Rightarrow>
          cerid_aux (if category \<in> set found then found else found @ [category]) names)"

definition cerid_categories :: "string list \<Rightarrow> string list" where
  "cerid_categories names = cerid_aux [] names"

definition receipt_calls :: "pdict \<Rightarrow> pdict list" where
  "receipt_calls decision =
     (case dget decision ''receipt'' of
        PDict receipt \<Rightarrow>
          (case dget receipt ''calls'' of
             PList calls \<Rightarrow> List.map_filter as_dict calls
           | _ \<Rightarrow> [])
      | _ \<Rightarrow> [])"

definition call_arguments :: "pdict \<Rightarrow> pdict" where
  "call_arguments call = (case dget call ''arguments'' of PDict a \<Rightarrow> a | _ \<Rightarrow> [])"

definition removed_inbox :: "pdict \<Rightarrow> bool" where
  "removed_inbox decision =
     list_ex (\<lambda>call. case dget (call_arguments call) ''remove_label_ids'' of
                      PList xs \<Rightarrow> list_ex (\<lambda>i. py_str i = ''INBOX'') xs
                    | _ \<Rightarrow> False) (receipt_calls decision)"

definition outlook_left_inbox :: "pdict \<Rightarrow> bool" where
  "outlook_left_inbox decision =
     list_ex (\<lambda>call. case dget (call_arguments call) ''body'' of
                      PDict body \<Rightarrow>
                        (let destination = gets body ''destinationId''
                         in destination \<noteq> [] \<and> casefold destination \<notin> {''inbox'', []})
                    | _ \<Rightarrow> False) (receipt_calls decision)"

definition apple_move_differs :: "pdict \<Rightarrow> string \<Rightarrow> bool" where
  "apple_move_differs decision mailbox =
     list_ex (\<lambda>call. case dget (call_arguments call) ''argv'' of
                      PList argv \<Rightarrow>
                        argv \<noteq> [] \<and> hd argv = PStr ''move''
                        \<and> casefold (py_str (last argv)) \<noteq> casefold mailbox
                    | _ \<Rightarrow> False) (receipt_calls decision)"

definition reversed_by :: "string \<Rightarrow> pdict \<Rightarrow> pdict \<Rightarrow> bool" where
  \<comment> \<open>\<open>_reversed\<close>\<close>
  "reversed_by provider decision observation =
     (let action = gets decision ''action'';
          applied = tab LABEL_NAME (gets decision ''category'') []
      in if provider = ''gmail''
         then (case names_of observation ''labels'' of
                 None \<Rightarrow> False
               | Some labels \<Rightarrow>
                   (let folded = map casefold labels
                    in if applied \<noteq> [] \<and> casefold applied \<notin> set folded then True
                       else ''inbox'' \<in> set folded \<and> (action = ''archive'' \<or> removed_inbox decision)))
         else if provider = ''outlook''
         then (let categories = names_of observation ''categories''
               in if categories \<noteq> None \<and> applied \<noteq> []
                     \<and> casefold applied \<notin> set (map casefold (the categories)) then True
                  else (case dget observation ''folder'' of
                          PStr folder \<Rightarrow>
                            if casefold folder = ''inbox''
                            then action = ''archive'' \<or> outlook_left_inbox decision else False
                        | _ \<Rightarrow> False))
         else if provider = ''apple_mail''
         then (let flag = casefold (strip (gets observation ''flag''));
                   expected = casefold (tab FLAG_COLOR (gets decision ''category'') []);
                   mailbox = gets observation ''mailbox''
               in if has_key observation ''flag'' \<and> action \<in> {''keep'', ''archive''}
                     \<and> (flag = [] \<or> flag \<noteq> expected) then True
                  else if \<not> has_key observation ''mailbox'' then False
                  else if apple_move_differs decision mailbox then True
                  else action = ''archive'' \<and> casefold mailbox \<noteq> ''archive'')
         else False)"

definition in_inbox :: "string \<Rightarrow> pdict \<Rightarrow> string list option \<Rightarrow> bool option" where
  "in_inbox provider observation names =
     (if provider = ''gmail''
      then map_option (\<lambda>ns. list_ex (\<lambda>n. casefold n = ''inbox'') ns) names
      else if provider = ''outlook''
      then (if \<not> has_key observation ''folder'' then None
            else Some (casefold (gets observation ''folder'') = ''inbox''))
      else if provider = ''apple_mail''
      then (if \<not> has_key observation ''mailbox'' then None
            else Some (casefold (gets observation ''mailbox'') \<noteq> ''archive''))
      else None)"

definition visible_marks :: "string \<Rightarrow> pdict \<Rightarrow> string list option" where
  "visible_marks provider observation =
     (if provider = ''gmail'' then map_option cerid_categories (names_of observation ''labels'')
      else if provider = ''outlook'' then map_option cerid_categories (names_of observation ''categories'')
      else if provider = ''apple_mail''
      then (if \<not> has_key observation ''flag'' then None
            else (let flag = strip (gets observation ''flag'')
                  in if flag = [] then Some []
                     else (case map_of FLAG_CATEGORY (casefold flag) of
                             None \<Rightarrow> Some [] | Some category \<Rightarrow> Some [category])))
      else None)"

definition visible_outcome :: "string \<Rightarrow> pdict \<Rightarrow> pdict \<Rightarrow> (string \<times> string) option" where
  "visible_outcome provider decision observation =
     (if provider \<notin> {''gmail'', ''outlook'', ''apple_mail''} then None
      else
        let applied = gets decision ''category'';
            found = visible_marks provider observation;
            located = in_inbox provider observation
                        (if provider = ''gmail'' then names_of observation ''labels'' else None);
            category = (case found of
                          Some [] \<Rightarrow> if located = Some True then Some ''actionable'' else None
                        | Some [c] \<Rightarrow> Some c
                        | Some _ \<Rightarrow> None
                        | None \<Rightarrow> if applied \<in> set CATEGORIES then Some applied else None);
            action = (case located of
                        Some True \<Rightarrow> ''keep'' | Some False \<Rightarrow> ''archive''
                      | None \<Rightarrow> gets decision ''action'')
        in (case category of
              None \<Rightarrow> None
            | Some c \<Rightarrow> if action \<notin> {''keep'', ''archive''} then None else Some (action, c)))"

definition operator_outcome :: "pyval \<Rightarrow> pyval \<Rightarrow> (string \<times> string) option" where
  "operator_outcome dec obs =
     (case (dec, obs) of
        (PDict decision, PDict observation) \<Rightarrow>
          (let provider = gets2 decision ''provider'' ''source''
           in if \<not> reversed_by provider decision observation then None
              else (case visible_outcome provider decision observation of
                      None \<Rightarrow> None
                    | Some (action, category) \<Rightarrow>
                        if action \<notin> set MODEL_ACTIONS \<or> category \<notin> set CATEGORIES then None
                        else if action = gets decision ''action'' \<and> category = gets decision ''category''
                        then None
                        else Some (action, category)))
      | _ \<Rightarrow> None)"

definition proposed_outcome :: "pyval \<Rightarrow> pyval \<Rightarrow> (string \<times> string) option" where
  "proposed_outcome dec obs =
     (case (dec, obs) of
        (PDict decision, PDict observation) \<Rightarrow>
          (let provider = gets2 decision ''provider'' ''source'';
               marks = visible_marks provider observation;
               located = in_inbox provider observation
                           (if provider = ''gmail'' then names_of observation ''labels'' else None)
           in if marks \<noteq> None \<and> length (the marks) > 1 then None
              else (case located of
                      None \<Rightarrow> None
                    | Some loc \<Rightarrow>
                        (let category =
                               (if marks \<noteq> None \<and> the marks \<noteq> [] then Some (hd (the marks))
                                else if \<not> loc then Some (gets decision ''category'') else None);
                             action = (if loc then ''keep'' else ''archive'')
                         in (case category of
                               None \<Rightarrow> None
                             | Some c \<Rightarrow>
                                 if c \<notin> set CATEGORIES then None
                                 else if action = gets decision ''action'' \<and> c = gets decision ''category''
                                 then None
                                 else Some (action, c)))))
      | _ \<Rightarrow> None)"

subsection \<open>Closed enumerations\<close>

lemma first_marker_in: "first_marker t ms \<noteq> [] \<Longrightarrow> first_marker t ms \<in> set ms"
proof -
  assume "first_marker t ms \<noteq> []"
  then obtain m where m: "find (\<lambda>m. marker_search m (lower t)) ms = Some m"
    by (cases "find (\<lambda>m. marker_search m (lower t)) ms") (auto simp: first_marker_def)
  then have "m \<in> set ms" by (auto simp: find_Some_iff)
  then show ?thesis by (simp add: first_marker_def m)
qed


lemma utility_for_typed: "utility_for t c \<in> set UTILITIES"
  by (simp add: utility_for_def UTILITIES_def)

lemma tab_in: "tab t k d \<in> insert d (snd ` set t)"
  by (auto simp: tab_def split: option.splits dest!: map_of_SomeD) force

lemma category_action_typed: "tab CATEGORY_ACTION c ''keep'' \<in> {''keep'', ''archive''}"
  using tab_in [of CATEGORY_ACTION c "''keep''"] by (auto simp: CATEGORY_ACTION_def)

lemma clamp_action_typed: "clamp_action p c \<in> set MODEL_ACTIONS"
  using category_action_typed [of c] by (auto simp: clamp_action_def str_in_def MODEL_ACTIONS_def split: pyval.splits)

lemma str_in_str_of: "str_in v xs \<Longrightarrow> v = PStr (str_of v) \<and> str_of v \<in> set xs"
  by (cases v) (auto simp: str_in_def)

end
