(* ===== verification/InboxFilter.thy ===== *)
theory InboxFilter
  imports InboxActions
begin

text \<open>
  Structural spam and folder signals, \<^verbatim>\<open>core/agents/inbox_filter.py\<close>, with the symbol
  trace of \<^verbatim>\<open>core/agents/inbox_rspamd.py\<close>. A header bag is an association list of strings;
  a scan reply is a value, \<open>PNone\<close> when there was none.
\<close>

definition STRUCTURAL_CONFIDENCE :: rat where "STRUCTURAL_CONFIDENCE = 9 / 10"
definition PHRASE_CONFIDENCE :: rat where "PHRASE_CONFIDENCE = 9 / 10"
definition LIST_CONFIDENCE :: rat where "LIST_CONFIDENCE = 86 / 100"
definition REVIEW_CONFIDENCE :: rat where "REVIEW_CONFIDENCE = 55 / 100"
definition SOCIAL_CONFIDENCE :: rat where "SOCIAL_CONFIDENCE = 75 / 100"

lemmas confidence_defs = STRUCTURAL_CONFIDENCE_def PHRASE_CONFIDENCE_def LIST_CONFIDENCE_def
  REVIEW_CONFIDENCE_def SOCIAL_CONFIDENCE_def TIER_CONFIDENCE_def PIN_CONFIDENCE_def LOCAL_FLOOR_def

type_synonym headers = "(string \<times> string) list"

definition hget :: "headers \<Rightarrow> string \<Rightarrow> string" where
  "hget h k = tab h k []"

record filter_verdict_t =
  fv_category :: string
  fv_confidence :: rat
  fv_sticks :: bool
  fv_reason :: string

abbreviation FilterVerdict :: "string \<Rightarrow> rat \<Rightarrow> bool \<Rightarrow> string \<Rightarrow> filter_verdict_t" where
  "FilterVerdict c n s r \<equiv> \<lparr>fv_category = c, fv_confidence = n, fv_sticks = s, fv_reason = r\<rparr>"

definition label_set :: "string \<Rightarrow> string list" where
  \<comment> \<open>\<open>_labels\<close>\<close>
  "label_set value =
     map casefold (nonblank_parts
       (split_on (CHR '','') (map (\<lambda>c. if c = CHR '';'' then CHR '','' else c) value)))"

definition subject_urgent :: "string \<Rightarrow> bool" where
  "subject_urgent subject = (fst (heuristic_category subject True) = ''urgent'')"

definition bill :: "string \<Rightarrow> bool" where
  "bill text = (utility_for text ''spam'' = ''financial'')"

definition spam_flag :: "headers \<Rightarrow> bool" where
  "spam_flag h =
     (casefold (strip (hget h ''spam_flag'')) = ''yes''
      \<or> starts_with ''yes'' (casefold (strip (hget h ''spam_status''))))"

definition list_mail :: "headers \<Rightarrow> bool" where
  "list_mail h = (strip (hget h ''list_id'') \<noteq> [] \<or> strip (hget h ''list_unsubscribe'') \<noteq> [])"

definition dmarc_failed :: "headers \<Rightarrow> bool" where
  "dmarc_failed h = contains ''dmarc=fail'' (casefold (hget h ''authentication_results''))"

fun num_of :: "pyval \<Rightarrow> rat option" where
  \<comment> \<open>\<open>isinstance(v, (int, float))\<close> with booleans excluded\<close>
  "num_of (PInt i) = Some (of_int i)"
| "num_of (PFloat r) = Some r"
| "num_of _ = None"

definition rspamd_is_spam :: "pyval \<Rightarrow> bool" where
  "rspamd_is_spam payload =
     (case payload of
        PDict p \<Rightarrow>
          if p = [] \<or> dget p ''is_skipped'' = PBool True then False
          else if casefold (strip (gets p ''action'')) = ''reject'' then True
          else (case (num_of (dget p ''score''), num_of (dget p ''required_score'')) of
                  (Some score, Some required) \<Rightarrow> score \<ge> required
                | _ \<Rightarrow> False)
      | _ \<Rightarrow> False)"

definition rspamd_needs_review :: "pyval \<Rightarrow> bool" where
  "rspamd_needs_review payload =
     (case payload of
        PDict p \<Rightarrow>
          if p = [] \<or> rspamd_is_spam payload \<or> dget p ''is_skipped'' = PBool True then False
          else casefold (strip (gets p ''action'')) \<in> {''add header'', ''rewrite subject'', ''soft reject''}
      | _ \<Rightarrow> False)"

definition is_reply :: "headers \<Rightarrow> bool" where
  "is_reply h = (strip (hget h ''in_reply_to'') \<noteq> [] \<or> strip (hget h ''references'') \<noteq> [])"

text \<open>
  \<open>filter_verdict\<close> in three steps: the phrase category with the promo lift, the spam signals,
  and the folder signals that follow them.
\<close>

definition phrase_category :: "string \<Rightarrow> string \<Rightarrow> string \<times> rat" where
  "phrase_category text promo =
     (let (category, confidence) = heuristic_category text False
      in if promo \<noteq> [] \<and> category \<in> {''actionable'', ''newsletter''}
         then (''promo'', PHRASE_CONFIDENCE) else (category, confidence))"

definition spam_verdict :: "string \<Rightarrow> headers \<Rightarrow> pyval \<Rightarrow> string list \<Rightarrow> string \<times> rat \<Rightarrow> filter_verdict_t option" where
  "spam_verdict text bag rspamd labels cc =
     (if fst cc = ''spam''
      then Some (FilterVerdict ''spam'' (snd cc) True (''phrase:'' @ first_marker text SPAM_MARKERS))
      else if spam_flag bag \<or> ''spam'' \<in> set labels
      then Some (FilterVerdict ''spam'' STRUCTURAL_CONFIDENCE True ''header:spam'')
      else if rspamd_is_spam rspamd \<and> \<not> bill text
      then Some (FilterVerdict ''spam'' STRUCTURAL_CONFIDENCE True ''rspamd:reject'')
      else None)"

definition folder_verdict ::
    "string \<Rightarrow> string \<Rightarrow> headers \<Rightarrow> pyval \<Rightarrow> string list \<Rightarrow> string \<Rightarrow> bool \<Rightarrow> string \<times> rat \<Rightarrow> filter_verdict_t" where
  "folder_verdict text subject bag rspamd labels promo urgent_subject cc =
     (let category = (if urgent_subject then ''urgent'' else fst cc);
          confidence = (if urgent_subject then 9 / 10 else snd cc)
      in if ''category_promotions'' \<in> set labels \<and> \<not> urgent_subject
         then FilterVerdict ''promo'' STRUCTURAL_CONFIDENCE True ''gmail:promotions''
         else if list_mail bag \<and> \<not> urgent_subject
         then (if category = ''promo'' then FilterVerdict ''promo'' confidence True (''phrase:'' @ promo)
               else FilterVerdict ''newsletter'' LIST_CONFIDENCE True
                      (if strip (hget bag ''list_id'') \<noteq> [] then ''list-id'' else ''list-unsubscribe''))
         else if (''category_updates'' \<in> set labels \<or> ''category_forums'' \<in> set labels)
                 \<and> \<not> urgent_subject \<and> category \<noteq> ''promo''
         then FilterVerdict ''newsletter'' LIST_CONFIDENCE True ''gmail:updates''
         else if category = ''promo''
         then FilterVerdict ''promo'' confidence True (''phrase:'' @ promo)
         else if category = ''newsletter''
         then FilterVerdict ''newsletter'' confidence True (''phrase:'' @ first_marker text NEWSLETTER_MARKERS)
         else if rspamd_needs_review rspamd \<and> category = ''actionable''
         then FilterVerdict ''actionable'' REVIEW_CONFIDENCE False ''rspamd:review''
         else if dmarc_failed bag \<and> category = ''urgent''
         then FilterVerdict ''urgent'' REVIEW_CONFIDENCE False ''dmarc:fail''
         else if (''category_social'' \<in> set labels \<or> ''category_personal'' \<in> set labels) \<and> category = ''actionable''
         then FilterVerdict ''personal'' SOCIAL_CONFIDENCE False ''gmail:social''
         else if category = ''actionable'' \<and> is_reply bag \<and> \<not> list_mail bag
         then FilterVerdict ''personal'' SOCIAL_CONFIDENCE False ''header:in-reply-to''
         else if category = ''urgent''
         then FilterVerdict ''urgent'' confidence False (''subject:'' @ first_marker subject URGENT_MARKERS)
         else FilterVerdict category confidence False [])"

definition filter_verdict :: "string \<Rightarrow> string \<Rightarrow> headers \<Rightarrow> pyval \<Rightarrow> filter_verdict_t" where
  "filter_verdict text subject bag rspamd =
     (let promo = promo_marker text subject;
          cc = phrase_category text promo;
          labels = label_set (hget bag ''labels'')
      in case spam_verdict text bag rspamd labels cc of
           Some v \<Rightarrow> v
         | None \<Rightarrow> folder_verdict text subject bag rspamd labels promo (subject_urgent subject) cc)"

definition value_confidence :: "pyval \<Rightarrow> rat" where
  \<comment> \<open>\<open>_confidence\<close>, \<open>_as_float\<close>\<close>
  "value_confidence v = (case num_of v of None \<Rightarrow> 0 | Some r \<Rightarrow> r)"

definition apply_verdict :: "pdict \<Rightarrow> filter_verdict_t \<Rightarrow> string \<Rightarrow> pdict" where
  "apply_verdict parsed verdict text =
     (if \<not> fv_sticks verdict then parsed
      else
        let category = fv_category verdict;
            action = tab CATEGORY_ACTION category ''keep''
        in if dget parsed ''category'' = PStr category \<and> dget parsed ''action'' = PStr action then parsed
           else
             let o1 = dset parsed ''category'' (PStr category);
                 o2 = dset o1 ''action'' (PStr action);
                 o3 = dset o2 ''utility'' (PStr (utility_for text category));
                 o4 = dset o3 ''confidence''
                        (PFloat (max (fv_confidence verdict) (value_confidence (dget parsed ''confidence''))))
             in dset o4 ''suggested_action'' (PStr (if action = ''archive'' then ''archive'' else ''review'')))"

definition header_value :: "string \<Rightarrow> string" where
  "header_value v =
     take 200 (strip (map (\<lambda>c. if c = CHR 0x0D \<or> c = CHR 0x0A then CHR '' '' else c) v))"

definition strip_angle :: "string \<Rightarrow> string" where
  \<comment> \<open>\<open>token.strip("<>")\<close>\<close>
  "strip_angle s =
     (let P = (\<lambda>c. c = CHR ''<'' \<or> c = CHR ''>'') in rev (dropWhile P (rev (dropWhile P s))))"

definition reconstructed_message ::
    "string \<Rightarrow> string \<Rightarrow> string \<Rightarrow> string \<Rightarrow> string \<Rightarrow> string \<Rightarrow> string \<Rightarrow> string" where
  \<comment> \<open>\<open>now\<close> is \<open>email.utils.formatdate()\<close>\<close>
  "reconstructed_message now sender subject body message_id to date =
     (let tok0 = (let t = header_value message_id in if t = [] then ''cerid-local@localhost'' else t);
          token = (if starts_with ''<'' tok0 \<and> ends_with ''>'' tok0 then tok0
                   else ''<'' @ strip_angle tok0 @ ''>'');
          orelse = (\<lambda>a b. if a = [] then b else a);
          recipient = header_value to
      in py_join [CHR 0x0A]
           ([''From: '' @ orelse (header_value sender) ''unknown@localhost'']
            @ (if recipient \<noteq> [] then [''To: '' @ recipient] else [])
            @ [''Subject: '' @ orelse (header_value subject) ''(no subject)'',
               ''Date: '' @ orelse (header_value date) now,
               ''Message-ID: '' @ token,
               ''MIME-Version: 1.0'',
               ''Content-Type: text/plain; charset=utf-8'',
               [],
               take 24000 body]))"

definition symbol_score :: "pyval \<Rightarrow> rat option" where
  "symbol_score detail =
     (case detail of PDict d \<Rightarrow> num_of (dget d ''score'') | _ \<Rightarrow> num_of detail)"

definition symbol_trace :: "pyval \<Rightarrow> (string \<times> rat) list" where
  "symbol_trace payload =
     (case payload of
        PDict p \<Rightarrow>
          (case dget p ''symbols'' of
             PDict raw \<Rightarrow>
               take 8 (sort_key (\<lambda>ns. - \<bar>snd ns\<bar>)
                 (List.map_filter (\<lambda>(n, d). map_option (\<lambda>s. (n, s)) (symbol_score d)) raw))
           | _ \<Rightarrow> [])
      | _ \<Rightarrow> [])"

definition STRUCTURAL_SYMBOLS :: "string list" where
  "STRUCTURAL_SYMBOLS =
     [''R_UNDISC_RCPT'', ''MID_RHS_NOT_FQDN'', ''ONCE_RECEIVED'', ''MISSING_MID'', ''MIME_GOOD'']"

definition structural_only :: "pyval \<Rightarrow> bool" where
  "structural_only rspamd =
     (let traced = symbol_trace rspamd
      in traced \<noteq> [] \<and> list_all (\<lambda>ns. fst ns \<in> set STRUCTURAL_SYMBOLS) traced)"

definition signal_note :: "headers \<Rightarrow> pyval \<Rightarrow> string" where
  "signal_note h rspamd =
     (let list_id = strip (hget h ''list_id'');
          labels = strip (hget h ''labels'');
          lines =
            (if list_id \<noteq> [] then [''List-Id: '' @ header_value list_id] else [])
            @ (if strip (hget h ''list_unsubscribe'') \<noteq> [] then [''List-Unsubscribe: present''] else [])
            @ (if labels \<noteq> [] then [''Labels: '' @ header_value labels] else [])
            @ (if spam_flag h then [''Spam-Flag: yes''] else [])
            @ (if dmarc_failed h then [''DMARC: fail''] else [])
            @ (if rspamd_is_spam rspamd then [''Rspamd: reject'']
               else if rspamd_needs_review rspamd \<and> \<not> structural_only rspamd then [''Rspamd: review'']
               else [])
      in if lines = [] then []
         else [CHR 0x0A, CHR 0x0A] @ ''Provider signals:'' @ [CHR 0x0A] @ py_join [CHR 0x0A] lines)"

subsection \<open>Typing and confidence of a verdict\<close>

lemma phrase_typed: "fst (phrase_category t p) \<in> set CATEGORIES"
  by (simp add: phrase_category_def heuristic_category_def CATEGORIES_def)

lemma phrase_sure: "fst (phrase_category t p) \<noteq> ''actionable'' \<Longrightarrow> snd (phrase_category t p) \<ge> TIER_CONFIDENCE"
  by (simp add: phrase_category_def heuristic_category_def confidence_defs split: if_splits)

lemma folder_typed: "fst cc \<in> set CATEGORIES \<Longrightarrow> fv_category (folder_verdict t s h r ls p u cc) \<in> set CATEGORIES"
  by (simp add: folder_verdict_def Let_def) (simp add: CATEGORIES_def)

lemma spam_verdict_spam: "spam_verdict t h r ls cc = Some v \<Longrightarrow> fv_category v = ''spam'' \<and> fv_sticks v"
  by (auto simp: spam_verdict_def split: if_splits)

lemma filter_cat: "fv_category (filter_verdict t s h r) \<in> set CATEGORIES"
proof -
  have "spam_verdict t h r ls cc = Some v \<Longrightarrow> fv_category v \<in> set CATEGORIES" for ls cc v
    by (auto simp: CATEGORIES_def dest: spam_verdict_spam)
  then show ?thesis
    using phrase_typed folder_typed by (auto simp: filter_verdict_def Let_def split: option.splits)
qed

end
