(* ===== verification/InboxMessages.thy ===== *)
theory InboxMessages
  imports InboxFilter
begin

text \<open>
  The reading side of \<^verbatim>\<open>core/agents/inbox_triage.py\<close>: excerpts, the source query, account
  gating, thread grouping, the sender of a message, the header bag, the mailbox observation, and
  the artifacts a thread may store. The RFC 5322 parser of the standard library is the parameter
  \<open>parseaddr\<close>.
\<close>

record mail_result =
  mr_source_name :: string
  mr_title :: string
  mr_content :: string
  mr_confidence :: rat
  mr_metadata :: pdict

record triaged_thread =
  tt_thread_id :: string
  tt_source :: string
  tt_participants :: "string list"
  tt_subject :: string
  tt_message_count :: nat
  tt_latest_at :: string
  tt_category :: string
  tt_summary :: string
  tt_suggested_action :: string
  tt_artifact_id :: "string option"
  tt_finance_artifact_id :: "string option"
  tt_utility :: string
  tt_action :: string
  tt_confidence :: rat
  tt_writable :: bool
  tt_message_ids :: "string list"
  tt_account :: string
  tt_mailbox :: string
  tt_draft_body :: string
  tt_band :: string
  tt_model :: string
  tt_classification_reason :: string
  tt_sender :: string
  tt_observation :: pdict

definition TRIAGE_SOURCES :: "string list" where
  "TRIAGE_SOURCES = [''gmail'', ''outlook'', ''apple_mail'']"

definition ACTION_PHRASE :: "(string \<times> string) list" where
  "ACTION_PHRASE =
     [(''keep'', ''review''), (''archive'', ''archive''), (''mark_read'', ''mark read''), (''draft'', ''draft'')]"

definition or_else :: "string \<Rightarrow> string \<Rightarrow> string" where
  "or_else a b = (if a = [] then b else a)"

subsection \<open>Excerpt and query\<close>

definition MAX_EXCERPT_CHARS :: nat where "MAX_EXCERPT_CHARS = 2000"

definition build_thread_excerpt :: "mail_result list \<Rightarrow> string" where
  \<comment> \<open>\<open>_build_thread_excerpt(_message_dicts(messages))\<close>\<close>
  "build_thread_excerpt messages =
     take MAX_EXCERPT_CHARS (py_join nl_sep
       (map (\<lambda>m. ''From: '' @ or_else (mr_source_name m) ''unknown'' @ [CHR 0x0A] @ ''Subject: '' @ mr_title m
                  @ [CHR 0x0A, CHR 0x0A] @ take 400 (mr_content m)) (take 5 messages)))"

definition GMAIL_EXCLUDED :: "string list" where
  "GMAIL_EXCLUDED = [''-in:spam'', ''-in:trash'']"

definition source_query :: "string \<Rightarrow> string \<Rightarrow> string" where
  "source_query source_name query =
     (if source_name \<noteq> ''gmail'' then query
      else (let ws = split_ws query; missing = filter (\<lambda>t. t \<notin> set ws) GMAIL_EXCLUDED
            in py_join '' '' (ws @ missing)))"

subsection \<open>Accounts\<close>

definition included_accounts :: "(string \<Rightarrow> string list option) option \<Rightarrow> string \<Rightarrow> string list option" where
  \<comment> \<open>the lookup is unwired (\<open>None\<close>), or answers with a list or raises (\<open>None\<close> inside)\<close>
  "included_accounts lookup source_name =
     (case lookup of
        None \<Rightarrow> None
      | Some f \<Rightarrow> Some (case f source_name of None \<Rightarrow> [] | Some xs \<Rightarrow> map (\<lambda>x. strip (casefold x)) xs))"

definition thread_account :: "mail_result list \<Rightarrow> string" where
  "thread_account messages =
     (case find (\<lambda>a. a \<noteq> []) (map (\<lambda>m. strip (gets (mr_metadata m) ''account'')) messages) of
        None \<Rightarrow> [] | Some a \<Rightarrow> a)"

definition account_included :: "mail_result list \<Rightarrow> string list option \<Rightarrow> bool" where
  "account_included messages included =
     (case included of
        None \<Rightarrow> True
      | Some inc \<Rightarrow> (let account = thread_account messages in account = [] \<or> casefold account \<in> set inc))"

subsection \<open>Thread grouping\<close>

definition provider_key :: "mail_result \<Rightarrow> string option" where
  "provider_key r =
     (let thread_id = strip (gets (mr_metadata r) ''provider_thread_id'');
          message_id = strip (gets (mr_metadata r) ''provider_message_id'')
      in if thread_id \<noteq> [] then Some thread_id else if message_id \<noteq> [] then Some message_id else None)"

definition reply_prefix :: "string \<Rightarrow> string" where
  \<comment> \<open>the title without one leading reply or forward mark\<close>
  "reply_prefix title =
     (let t = lstrip title
      in case first_some (\<lambda>p. if starts_with p (lower t)
                              then (let r = lstrip (drop (length p) t)
                                    in if r \<noteq> [] \<and> hd r = CHR '':'' then Some (lstrip (tl r)) else None)
                              else None) [''re'', ''fwd'', ''fw'', ''aw'', ''tr''] of
           Some r \<Rightarrow> r | None \<Rightarrow> title)"

definition subject_key :: "mail_result \<Rightarrow> string" where
  "subject_key r =
     or_else (lower (py_join '' '' (split_ws (strip (reply_prefix (mr_title r)))))) ''(no subject)''"

definition extract_thread_id :: "mail_result \<Rightarrow> string" where
  "extract_thread_id r = (case provider_key r of Some k \<Rightarrow> k | None \<Rightarrow> subject_key r)"

definition thread_writable :: "mail_result list \<Rightarrow> bool" where
  "thread_writable messages = (messages \<noteq> [] \<and> list_all (\<lambda>m. provider_key m \<noteq> None) messages)"

definition group_add :: "mail_result \<Rightarrow> (string \<times> mail_result list) list \<Rightarrow> (string \<times> mail_result list) list" where
  "group_add r groups =
     (let k = extract_thread_id r
      in AList.update k ((case map_of groups k of None \<Rightarrow> [] | Some ms \<Rightarrow> ms) @ [r]) groups)"

definition group_by_thread :: "mail_result list \<Rightarrow> (string \<times> mail_result list) list" where
  "group_by_thread results = fold group_add results []"

subsection \<open>The sender\<close>

definition is_alpha :: "char \<Rightarrow> bool" where
  "is_alpha c = is_lower_letter (lower_char c)"

definition is_local_char :: "char \<Rightarrow> bool" where
  "is_local_char c = (is_word_char c \<or> c \<in> {CHR ''.'', CHR ''+'', CHR ''-''})"

definition is_domain_char :: "char \<Rightarrow> bool" where
  "is_domain_char c = (is_word_char c \<or> c \<in> {CHR ''.'', CHR ''-''})"

definition domain_match :: "string \<Rightarrow> string option" where
  \<comment> \<open>\<open>[\\w.-]+\\.[A-Za-z]{2,}\<close> at the start of a text, the label run backtracking from its longest\<close>
  "domain_match s =
     (let d = takeWhile is_domain_char s
      in first_some (\<lambda>k. let letters = takeWhile is_alpha (drop (k + 1) d)
                         in if char_at k d = Some (CHR ''.'') \<and> 2 \<le> length letters
                            then Some (take (k + 1) d @ letters) else None)
           (rev [1..<length d]))"

function address_search :: "string \<Rightarrow> string option" where
  \<comment> \<open>\<open>_ADDR_RE.search(text)\<close>; a run of local characters that fails at its start fails throughout\<close>
  "address_search s =
     (case s of
        [] \<Rightarrow> None
      | c # cs \<Rightarrow>
          (let run = takeWhile is_local_char s; rest = dropWhile is_local_char s
           in if run = [] then address_search cs
              else if rest \<noteq> [] \<and> hd rest = CHR ''@''
              then (case domain_match (tl rest) of
                      Some d \<Rightarrow> Some (run @ ''@'' @ d)
                    | None \<Rightarrow> address_search rest)
              else address_search rest))"
  by pat_completeness auto
termination
  by (relation "measure length") (auto simp: le_imp_less_Suc length_dropWhile_le split: if_splits)

declare address_search.simps [simp del]

definition address_in :: "string \<Rightarrow> string" where
  "address_in text = (case address_search text of None \<Rightarrow> [] | Some a \<Rightarrow> casefold a)"

definition from_address :: "(string \<Rightarrow> string) \<Rightarrow> string \<Rightarrow> string" where
  "from_address parseaddr v =
     (let found = address_in (parseaddr v)
      in if found \<noteq> [] then found else if CHR ''<'' \<in> set v then [] else address_in v)"

definition from_line :: "string \<Rightarrow> (string \<times> string) option" where
  \<comment> \<open>\<open>_FROM_RE\<close> at the start of a line\<close>
  "from_line s = (if starts_with ''From:'' s then rest_of_line (drop 5 s) else None)"

definition sender_address :: "(string \<Rightarrow> string) \<Rightarrow> mail_result \<Rightarrow> string" where
  "sender_address parseaddr m =
     (let found = from_address parseaddr (mr_source_name m)
      in if found \<noteq> [] then found
         else (case from_line (mr_content m) of
                 Some (g, _) \<Rightarrow> from_address parseaddr g
               | None \<Rightarrow> []))"

subsection \<open>Provider fields\<close>

definition OBSERVATION_KEYS :: "string list" where
  "OBSERVATION_KEYS = [''mailbox'', ''labels'', ''categories'', ''flag'', ''folder'']"

definition observe_key :: "pdict \<Rightarrow> string \<Rightarrow> pdict \<Rightarrow> pdict" where
  "observe_key meta key observation =
     (case map_of meta key of
        None \<Rightarrow> observation
      | Some (PList xs) \<Rightarrow> dset observation key (PStr (py_join '','' (nonblank_parts (map py_str xs))))
      | Some PNone \<Rightarrow> observation
      | Some v \<Rightarrow> dset observation key (PStr (strip (py_str v))))"

definition field_step :: "(string \<Rightarrow> string) \<Rightarrow> mail_result \<Rightarrow> triaged_thread \<Rightarrow> triaged_thread" where
  \<comment> \<open>the body of the loop of \<open>_apply_fields\<close>\<close>
  "field_step parseaddr m t =
     (let meta = mr_metadata m;
          message_id = strip (gets meta ''provider_message_id'');
          found = sender_address parseaddr m
      in t\<lparr>tt_message_ids := (if message_id \<noteq> [] \<and> message_id \<notin> set (tt_message_ids t)
                               then tt_message_ids t @ [message_id] else tt_message_ids t),
           tt_account := (if tt_account t = [] then strip (gets meta ''account'') else tt_account t),
           tt_mailbox := (if tt_mailbox t = [] then strip (gets2 meta ''mailbox'' ''folder'') else tt_mailbox t),
           tt_observation := fold (observe_key meta) OBSERVATION_KEYS (tt_observation t),
           tt_sender := (if found \<noteq> [] then found else tt_sender t)\<rparr>)"

definition apply_fields :: "(string \<Rightarrow> string) \<Rightarrow> mail_result list \<Rightarrow> triaged_thread \<Rightarrow> triaged_thread" where
  "apply_fields parseaddr messages t =
     fold (field_step parseaddr) messages
       (t\<lparr>tt_message_ids := [], tt_account := [], tt_mailbox := [], tt_observation := [], tt_sender := []\<rparr>)"

definition HEADER_KEYS :: "string list" where
  "HEADER_KEYS =
     [''list_id'', ''list_unsubscribe'', ''authentication_results'', ''spam_flag'', ''spam_status'',
      ''labels'', ''in_reply_to'', ''references'', ''rfc_message_id'', ''to'', ''date'']"

definition header_add :: "pdict \<Rightarrow> string \<Rightarrow> headers \<Rightarrow> headers" where
  "header_add meta key bag =
     (if map_of bag key \<noteq> None then bag
      else (let v = strip (gets meta key) in if v \<noteq> [] then bag @ [(key, v)] else bag))"

definition header_bag :: "mail_result list \<Rightarrow> headers" where
  "header_bag messages = fold (\<lambda>m. fold (header_add (mr_metadata m)) HEADER_KEYS) messages []"

definition first_meta :: "string \<Rightarrow> mail_result list \<Rightarrow> string" where
  \<comment> \<open>the first message that has the key with text\<close>
  "first_meta key messages =
     (case find (\<lambda>v. v \<noteq> []) (map (\<lambda>m. strip (gets (mr_metadata m) key)) messages) of
        None \<Rightarrow> [] | Some v \<Rightarrow> v)"

definition first_sender :: "(string \<Rightarrow> string) \<Rightarrow> mail_result list \<Rightarrow> string \<times> string" where
  \<comment> \<open>the sender and the authentication results of the message that names it\<close>
  "first_sender parseaddr messages =
     (case find (\<lambda>m. sender_address parseaddr m \<noteq> []) messages of
        None \<Rightarrow> ([], [])
      | Some m \<Rightarrow> (sender_address parseaddr m, gets (mr_metadata m) ''authentication_results''))"

subsection \<open>Artifacts\<close>

fun from_lines :: "nat \<Rightarrow> bool \<Rightarrow> string \<Rightarrow> string list" where
  \<comment> \<open>\<open>_FROM_RE.findall\<close>; the flag says that a line starts here, the number bounds the text length\<close>
  "from_lines 0 b s = []"
| "from_lines (Suc n) b [] = []"
| "from_lines (Suc n) b (c # cs) =
     (case (if b then from_line (c # cs) else None) of
        Some (g, rest) \<Rightarrow> g # from_lines n False rest
      | None \<Rightarrow> from_lines n (c = CHR 0x0A) cs)"

definition CURRENCY_MARKS :: "(string \<times> string) list" where
  \<comment> \<open>codes and signs with the code they print as; the euro and pound signs in UTF-8\<close>
  "CURRENCY_MARKS =
     [(''usd'', ''USD''), (''eur'', ''EUR''), (''gbp'', ''GBP''), (''$'', ''USD''),
      ([CHR 0xE2, CHR 0x82, CHR 0xAC], ''EUR''), ([CHR 0xC2, CHR 0xA3], ''GBP'')]"

definition cents :: "string \<Rightarrow> string option" where
  \<comment> \<open>\<open>\\.\\d{2}\<close> at the start\<close>
  "cents s = (let t = take 3 s in if length t = 3 \<and> hd t = CHR ''.'' \<and> list_all is_digit (tl t) then Some t else None)"

fun thousands :: "nat \<Rightarrow> string \<Rightarrow> string" where
  \<comment> \<open>\<open>(?:,\\d{3})*\<close> at the start\<close>
  "thousands 0 s = []"
| "thousands (Suc n) s =
     (let t = take 4 s in if length t = 4 \<and> hd t = CHR '','' \<and> list_all is_digit (tl t) then t @ thousands n (drop 4 s) else [])"

definition amount_at :: "string \<Rightarrow> string option" where
  \<comment> \<open>the amount group at the start of a text\<close>
  "amount_at s =
     (let ds = takeWhile is_digit s; rest = drop (length ds) s; th = thousands (length rest) rest
      in if ds = [] then None
         else (case (if length ds \<le> 3 then cents (drop (length th) rest) else None) of
                 Some c \<Rightarrow> Some (ds @ th @ c)
               | None \<Rightarrow> (case cents rest of Some c \<Rightarrow> Some (ds @ c) | None \<Rightarrow> None)))"

fun amount_search :: "string \<Rightarrow> (string \<times> string) option" where
  \<comment> \<open>\<open>_AMOUNT_RE.search(text)\<close>: the currency code and the amount\<close>
  "amount_search [] = None"
| "amount_search (c # cs) =
     (case first_some (\<lambda>(mark, code). if starts_with mark (lower (c # cs))
                                      then map_option (\<lambda>a. (code, a)) (amount_at (lstrip (drop (length mark) (c # cs))))
                                      else None) CURRENCY_MARKS of
        Some r \<Rightarrow> Some r
      | None \<Rightarrow> amount_search cs)"

definition date_at :: "string \<Rightarrow> string option" where
  "date_at s =
     (let t = take 10 s
      in if length t = 10 \<and> starts_with ''20'' t \<and> list_all is_digit (take 4 t) \<and> t ! 4 = CHR ''-''
            \<and> list_all is_digit (take 2 (drop 5 t)) \<and> t ! 7 = CHR ''-'' \<and> list_all is_digit (drop 8 t)
            \<and> boundary (Some (last t)) (char_at 10 s)
         then Some t else None)"

fun date_search :: "char option \<Rightarrow> string \<Rightarrow> string option" where
  "date_search p [] = None"
| "date_search p (c # cs) =
     (case (if boundary p (Some c) then date_at (c # cs) else None) of
        Some d \<Rightarrow> Some d
      | None \<Rightarrow> date_search (Some c) cs)"

definition financial_payee :: "triaged_thread \<Rightarrow> string \<Rightarrow> string" where
  "financial_payee t excerpt =
     (let senders = map strip (from_lines (Suc (length excerpt)) True excerpt);
          addressed = filter (\<lambda>l. CHR ''@'' \<in> set l) senders;
          payee = (if addressed \<noteq> [] then hd addressed else if senders \<noteq> [] then last senders else [])
      in if payee = [] \<and> tt_participants t \<noteq> [] then hd (tt_participants t) else payee)"

definition financial_card :: "triaged_thread \<Rightarrow> string \<Rightarrow> string" where
  "financial_card t excerpt =
     (let payee = financial_payee t excerpt; marker = financial_marker excerpt
      in py_join [CHR 0x0A]
           ((if payee \<noteq> [] then [''Payee: '' @ take 120 payee] else [])
            @ (case amount_search excerpt of
                 None \<Rightarrow> []
               | Some (code, amt) \<Rightarrow> [''Amount: '' @ filter (\<lambda>c. c \<noteq> CHR '','') amt, ''Currency: '' @ code])
            @ (case date_search None excerpt of None \<Rightarrow> [] | Some d \<Rightarrow> [''Date: '' @ d])
            @ (if marker \<noteq> [] then [''Marker: '' @ marker] else [])
            @ [''Subject: '' @ take 200 (tt_subject t), ''Provider thread: '' @ tt_thread_id t]))"

definition FINANCIAL_CARD_RECORD_TYPE :: string where
  "FINANCIAL_CARD_RECORD_TYPE = ''mail_financial_card''"

definition string_meta :: "triaged_thread \<Rightarrow> string \<Rightarrow> pdict" where
  "string_meta t record_type =
     [(''source'', PStr ''inbox_triage''), (''origin_source'', PStr (tt_source t)),
      (''category'', PStr (tt_category t)), (''utility'', PStr (tt_utility t)),
      (''action'', PStr (tt_action t)), (''summary'', PStr (tt_summary t)),
      (''suggested_action'', PStr (tt_suggested_action t)), (''thread_id'', PStr (tt_thread_id t)),
      (''subject'', PStr (tt_subject t)), (''latest_at'', PStr (tt_latest_at t)),
      (''message_count'', PStr (show_nat (tt_message_count t))), (''record_type'', PStr record_type)]"

record post_item =
  po_domain :: string
  po_decision :: pdict
  po_content :: string
  po_source_id :: string
  po_metadata :: pdict

definition posts_for :: "triaged_thread \<Rightarrow> string \<Rightarrow> post_item list" where
  "posts_for t excerpt =
     (let base = ''inbox_triage:'' @ tt_source t @ '':'' @ tt_thread_id t
      in if tt_utility t = ''none'' then []
         else if tt_utility t = ''financial''
         then [\<lparr>po_domain = ''inbox'',
                po_decision = [(''utility'', PStr ''financial''), (''payload_kind'', PStr ''card'')],
                po_content = financial_card t excerpt, po_source_id = base @ '':card'',
                po_metadata = string_meta t FINANCIAL_CARD_RECORD_TYPE\<rparr>]
         else [\<lparr>po_domain = ''inbox'',
                po_decision = [(''utility'', PStr ''correspondence''), (''payload_kind'', PStr ''excerpt'')],
                po_content = ''# '' @ tt_subject t @ [CHR 0x0A, CHR 0x0A] @ ''**Category:** '' @ tt_category t
                  @ [CHR 0x0A] @ ''**Summary:** '' @ tt_summary t @ [CHR 0x0A] @ ''**Participants:** ''
                  @ or_else (py_join '', '' (tt_participants t)) ''(none)'' @ [CHR 0x0A, CHR 0x0A]
                  @ take 800 (strip excerpt),
                po_source_id = base, po_metadata = string_meta t ''mail_thread''\<rparr>])"

end
