(* ===== verification/InboxLedger.thy ===== *)
theory InboxLedger
  imports InboxActions
begin

text \<open>
  The SQLite ledger of \<^verbatim>\<open>app/inbox/ledger.py\<close>. A table is the list of its rows in rowid
  order; a JSON column holds the text that \<open>json.dumps\<close> wrote. One method is one
  transaction, so an error leaves the ledger as it was. Fresh ids and the clock are arguments.
\<close>

subsection \<open>Tables\<close>

record account_row =
  acc_provider :: string
  acc_address :: string
  acc_display_name :: string
  acc_included :: int
  acc_folder_sort :: int
  acc_auto_apply :: string
  acc_consent :: string
  acc_removed :: int
  acc_last_read :: string
  acc_last_apply :: string
  acc_last_rejection :: string

record sender_row =
  sm_source :: string
  sm_sender :: string
  sm_domain :: string
  sm_category :: string
  sm_action :: string
  sm_hits :: int
  sm_pinned :: int
  sm_updated :: string
  sm_last_decision :: string

record rule_row =
  ru_id :: string
  ru_source :: string
  ru_condition_json :: string
  ru_action :: string
  ru_category :: string
  ru_enabled :: int

record decision_row =
  dr_id :: string
  dr_account_address :: string
  dr_source :: string
  dr_provider_thread_id :: string
  dr_message_ids :: string
  dr_category :: string
  dr_utility :: string
  dr_action :: string
  dr_band :: string
  dr_model :: string
  dr_confidence :: rat
  dr_status :: string
  dr_receipt_json :: string
  dr_mailbox_before :: string
  dr_rag_artifact_ids :: string
  dr_created :: string

record outbox_row =
  ob_id :: string
  ob_decision_id :: string
  ob_command_json :: string
  ob_created :: string

record cursor_row =
  cu_provider :: string
  cu_address :: string
  cu_cursor :: string

record ledger =
  accounts :: "account_row list"
  senders :: "sender_row list"
  rules :: "rule_row list"
  decisions :: "decision_row list"
  outbox :: "outbox_row list"
  cursors :: "cursor_row list"

definition empty_ledger :: ledger where
  "empty_ledger = \<lparr>accounts = [], senders = [], rules = [], decisions = [], outbox = [], cursors = []\<rparr>"

datatype ledger_error = ValueError string | TypeError string | IntegrityError | RuntimeError string

definition of_bool_int :: "bool \<Rightarrow> int" where
  "of_bool_int b = (if b then 1 else 0)"

text \<open>\<open>INSERT ... ON CONFLICT DO UPDATE\<close> on a keyed table.\<close>

fun upsert :: "('r \<Rightarrow> bool) \<Rightarrow> ('r \<Rightarrow> 'r) \<Rightarrow> 'r \<Rightarrow> 'r list \<Rightarrow> 'r list" where
  "upsert hit upd new [] = [new]"
| "upsert hit upd new (r # rs) = (if hit r then upd r # rs else r # upsert hit upd new rs)"

definition update_where :: "('r \<Rightarrow> bool) \<Rightarrow> ('r \<Rightarrow> 'r) \<Rightarrow> 'r list \<Rightarrow> 'r list" where
  "update_where hit upd rs = map (\<lambda>r. if hit r then upd r else r) rs"

subsection \<open>Rows as dictionaries\<close>

definition json_list :: "pyval \<Rightarrow> pyval list" where
  \<comment> \<open>\<open>_json_list\<close>\<close>
  "json_list raw =
     (case raw of
        PList xs \<Rightarrow> xs
      | PStr s \<Rightarrow>
          if strip s = [] then []
          else (case json_loads s of
                  None \<Rightarrow> [PStr s]
                | Some (PList xs) \<Rightarrow> xs
                | Some _ \<Rightarrow> [])
      | _ \<Rightarrow> [])"

definition receipt_dict :: "pyval \<Rightarrow> pdict" where
  \<comment> \<open>\<open>_receipt_dict\<close>, \<open>_loads\<close>, \<open>_receipt\<close>\<close>
  "receipt_dict raw =
     (case raw of
        PDict d \<Rightarrow> d
      | PStr s \<Rightarrow>
          if strip s = [] then []
          else (case json_loads s of Some (PDict d) \<Rightarrow> d | _ \<Rightarrow> [])
      | _ \<Rightarrow> [])"

definition row_dict :: "decision_row \<Rightarrow> pdict" where
  \<comment> \<open>\<open>dict(row)\<close>\<close>
  "row_dict r =
     [(''id'', PStr (dr_id r)), (''account_address'', PStr (dr_account_address r)),
      (''source'', PStr (dr_source r)), (''provider_thread_id'', PStr (dr_provider_thread_id r)),
      (''message_ids'', PStr (dr_message_ids r)), (''category'', PStr (dr_category r)),
      (''utility'', PStr (dr_utility r)), (''action'', PStr (dr_action r)),
      (''band'', PStr (dr_band r)), (''model'', PStr (dr_model r)),
      (''confidence'', PFloat (dr_confidence r)), (''status'', PStr (dr_status r)),
      (''receipt_json'', PStr (dr_receipt_json r)), (''mailbox_before'', PStr (dr_mailbox_before r)),
      (''rag_artifact_ids'', PStr (dr_rag_artifact_ids r)), (''created'', PStr (dr_created r))]"

definition stripped_str :: "pyval \<Rightarrow> string" where
  \<comment> \<open>the stripped text of a string value, empty for anything else\<close>
  "stripped_str v = (case v of PStr s \<Rightarrow> strip s | _ \<Rightarrow> [])"

definition decision_view :: "decision_row \<Rightarrow> pdict" where
  \<comment> \<open>\<open>_decision\<close>\<close>
  "decision_view r =
     (let d0 = row_dict r;
          d1 = dset d0 ''message_ids'' (PList (json_list (dget d0 ''message_ids'')));
          d2 = dset d1 ''rag_artifact_ids'' (PList (json_list (dget d0 ''rag_artifact_ids'')));
          receipt = receipt_dict (dget d0 ''receipt_json'');
          body = stripped_str (dget receipt ''draft_body'');
          why = stripped_str (dget receipt ''classification_reason'');
          d3 = (if body \<noteq> [] then dset d2 ''draft_body'' (PStr body) else d2)
      in if why \<noteq> [] then dset d3 ''classification_reason'' (PStr why) else d3)"

definition account_dict :: "account_row \<Rightarrow> pdict" where
  \<comment> \<open>\<open>_account\<close>; the column always parses, see \<open>ledger_inv\<close> below\<close>
  "account_dict r =
     [(''provider'', PStr (acc_provider r)), (''address'', PStr (acc_address r)),
      (''display_name'', PStr (acc_display_name r)), (''included'', PBool (acc_included r \<noteq> 0)),
      (''folder_sort'', PBool (acc_folder_sort r \<noteq> 0)),
      (''auto_apply'', (case json_loads (acc_auto_apply r) of None \<Rightarrow> PNone | Some v \<Rightarrow> v)),
      (''consent'', PStr (acc_consent r)), (''removed'', PBool (acc_removed r \<noteq> 0)),
      (''last_read'', PStr (acc_last_read r)), (''last_apply'', PStr (acc_last_apply r)),
      (''last_rejection'', PStr (acc_last_rejection r))]"

definition sender_dict :: "sender_row \<Rightarrow> pdict" where
  "sender_dict r =
     [(''source'', PStr (sm_source r)), (''sender'', PStr (sm_sender r)),
      (''domain'', PStr (sm_domain r)), (''category'', PStr (sm_category r)),
      (''action'', PStr (sm_action r)), (''hits'', PInt (sm_hits r)),
      (''pinned'', PInt (sm_pinned r)), (''updated'', PStr (sm_updated r)),
      (''last_decision'', PStr (sm_last_decision r))]"

definition rule_dict :: "rule_row \<Rightarrow> pdict" where
  "rule_dict r =
     [(''id'', PStr (ru_id r)), (''source'', PStr (ru_source r)),
      (''condition_json'', PStr (ru_condition_json r)), (''action'', PStr (ru_action r)),
      (''category'', PStr (ru_category r)), (''enabled'', PBool (ru_enabled r \<noteq> 0)),
      (''condition'', (case json_loads (ru_condition_json r) of Some (PDict d) \<Rightarrow> PDict d | _ \<Rightarrow> PDict []))]"

subsection \<open>Accounts\<close>

definition upsert_account ::
    "string \<Rightarrow> string \<Rightarrow> string \<Rightarrow> bool \<Rightarrow> bool \<Rightarrow> string list \<Rightarrow> string \<Rightarrow> ledger \<Rightarrow> ledger" where
  "upsert_account provider address display_name included folder_sort auto_apply consent l =
     (let aa = json_dumps (PList (map PStr auto_apply))
      in l\<lparr>accounts :=
           upsert (\<lambda>r. acc_provider r = provider \<and> acc_address r = address)
             (\<lambda>r. r\<lparr>acc_display_name := display_name, acc_included := of_bool_int included,
                    acc_folder_sort := of_bool_int folder_sort, acc_auto_apply := aa,
                    acc_consent := consent\<rparr>)
             \<lparr>acc_provider = provider, acc_address = address, acc_display_name = display_name,
              acc_included = of_bool_int included, acc_folder_sort = of_bool_int folder_sort,
              acc_auto_apply = aa, acc_consent = consent, acc_removed = 0,
              acc_last_read = [], acc_last_apply = [], acc_last_rejection = []\<rparr>
             (accounts l)\<rparr>)"

definition find_account :: "string \<Rightarrow> string \<Rightarrow> ledger \<Rightarrow> account_row option" where
  "find_account provider address l =
     find (\<lambda>r. acc_provider r = provider \<and> acc_address r = address) (accounts l)"

definition get_account :: "string \<Rightarrow> string \<Rightarrow> ledger \<Rightarrow> pdict option" where
  "get_account provider address l = map_option account_dict (find_account provider address l)"

definition ACCOUNT_FIELDS :: "string list" where
  "ACCOUNT_FIELDS =
     [''display_name'', ''included'', ''folder_sort'', ''auto_apply'', ''consent'', ''removed'',
      ''last_read'', ''last_apply'', ''last_rejection'']"

definition text_value :: "pyval \<Rightarrow> string" where
  \<comment> \<open>\<open>"" if value is None else str(value)\<close>\<close>
  "text_value v = (if v = PNone then [] else py_str v)"

definition set_field :: "string \<Rightarrow> pyval \<Rightarrow> account_row \<Rightarrow> account_row" where
  "set_field name v r =
     (if name = ''display_name'' then r\<lparr>acc_display_name := text_value v\<rparr>
      else if name = ''included'' then r\<lparr>acc_included := of_bool_int (truthy v)\<rparr>
      else if name = ''folder_sort'' then r\<lparr>acc_folder_sort := of_bool_int (truthy v)\<rparr>
      else if name = ''auto_apply'' then r\<lparr>acc_auto_apply := json_dumps v\<rparr>
      else if name = ''consent'' then r\<lparr>acc_consent := text_value v\<rparr>
      else if name = ''removed'' then r\<lparr>acc_removed := of_bool_int (truthy v)\<rparr>
      else if name = ''last_read'' then r\<lparr>acc_last_read := text_value v\<rparr>
      else if name = ''last_apply'' then r\<lparr>acc_last_apply := text_value v\<rparr>
      else r\<lparr>acc_last_rejection := text_value v\<rparr>)"

definition is_list :: "pyval \<Rightarrow> bool" where
  "is_list v = (case v of PList _ \<Rightarrow> True | _ \<Rightarrow> False)"

definition update_account ::
    "string \<Rightarrow> string \<Rightarrow> pdict \<Rightarrow> ledger \<Rightarrow> ledger_error + (bool \<times> ledger)" where
  "update_account provider address flds l =
     (let chosen = filter (has_key flds) ACCOUNT_FIELDS;
          hit = (\<lambda>r. acc_provider r = provider \<and> acc_address r = address)
      in if chosen = [] then Inr (False, l)
         else if ''auto_apply'' \<in> set chosen \<and> \<not> is_list (dget flds ''auto_apply'')
         then Inl (TypeError ''auto_apply must be a list'')
         else Inr (list_ex hit (accounts l),
                   l\<lparr>accounts := update_where hit
                      (fold (\<lambda>name. set_field name (dget flds name)) chosen) (accounts l)\<rparr>))"

definition remove_account :: "string \<Rightarrow> string \<Rightarrow> ledger \<Rightarrow> ledger_error + (bool \<times> ledger)" where
  "remove_account provider address l =
     update_account provider address [(''removed'', PBool True), (''included'', PBool False)] l"

definition list_accounts :: "bool \<Rightarrow> ledger \<Rightarrow> pdict list" where
  "list_accounts include_removed l =
     map account_dict
       (sort_key acc_provider (sort_key acc_address
         (filter (\<lambda>r. include_removed \<or> acc_removed r = 0) (accounts l))))"

subsection \<open>Decisions\<close>

record proposal =
  pr_source :: string
  pr_thread_id :: string
  pr_account_address :: string
  pr_message_ids :: "pyval list"
  pr_category :: string
  pr_utility :: string
  pr_action :: string
  pr_band :: string
  pr_model :: string
  pr_confidence :: rat
  pr_mailbox_before :: string
  pr_rag_artifact_ids :: "pyval list"
  pr_draft_body :: string
  pr_subject :: string
  pr_classification_reason :: string
  pr_current_labels :: "string list option"

definition proposal_receipt :: "proposal \<Rightarrow> pdict" where
  "proposal_receipt p =
     (case pr_current_labels p of None \<Rightarrow> [] | Some ls \<Rightarrow> [(''current_labels'', PList (map PStr ls))])
     @ (let s = strip (pr_draft_body p) in if s \<noteq> [] then [(''draft_body'', PStr s)] else [])
     @ (let s = strip (pr_subject p) in if s \<noteq> [] then [(''subject'', PStr s)] else [])
     @ (let s = strip (pr_classification_reason p)
        in if s \<noteq> [] then [(''classification_reason'', PStr s)] else [])"

definition proposed_row :: "string \<Rightarrow> string \<Rightarrow> proposal \<Rightarrow> decision_row" where
  "proposed_row now new_id p =
     \<lparr>dr_id = new_id, dr_account_address = pr_account_address p, dr_source = pr_source p,
      dr_provider_thread_id = pr_thread_id p,
      dr_message_ids = json_dumps (PList (pr_message_ids p)),
      dr_category = pr_category p, dr_utility = pr_utility p, dr_action = pr_action p,
      dr_band = pr_band p, dr_model = pr_model p, dr_confidence = pr_confidence p,
      dr_status = ''proposed'', dr_receipt_json = json_dumps (PDict (proposal_receipt p)),
      dr_mailbox_before = pr_mailbox_before p,
      dr_rag_artifact_ids = json_dumps (PList (pr_rag_artifact_ids p)), dr_created = now\<rparr>"

definition open_for :: "string \<Rightarrow> string \<Rightarrow> decision_row \<Rightarrow> bool" where
  "open_for source thread_id r =
     (dr_source r = source \<and> dr_provider_thread_id r = thread_id \<and> dr_status r = ''proposed'')"

definition propose :: "string \<Rightarrow> string \<Rightarrow> proposal \<Rightarrow> ledger \<Rightarrow> ledger_error + (string \<times> ledger)" where
  "propose now new_id p l =
     (let superseded = update_where (open_for (pr_source p) (pr_thread_id p))
                         (\<lambda>r. r\<lparr>dr_status := ''superseded''\<rparr>) (decisions l)
      in if list_ex (\<lambda>r. dr_id r = new_id) (decisions l) then Inl IntegrityError
         else Inr (new_id, l\<lparr>decisions := superseded @ [proposed_row now new_id p]\<rparr>))"

definition find_decision :: "string \<Rightarrow> ledger \<Rightarrow> decision_row option" where
  "find_decision did l = find (\<lambda>r. dr_id r = did) (decisions l)"

definition get_decision :: "string \<Rightarrow> ledger \<Rightarrow> pdict option" where
  "get_decision did l = map_option row_dict (find_decision did l)"

definition open_proposal :: "string \<Rightarrow> string \<Rightarrow> ledger \<Rightarrow> pdict option" where
  "open_proposal source thread_id l =
     map_option row_dict (find (open_for source thread_id) (decisions l))"

definition record_decision :: "string \<Rightarrow> string \<Rightarrow> pdict \<Rightarrow> ledger \<Rightarrow> ledger" where
  \<comment> \<open>\<open>record\<close>\<close>
  "record_decision did status receipt l =
     l\<lparr>decisions := update_where (\<lambda>r. dr_id r = did)
         (\<lambda>r. r\<lparr>dr_status := status, dr_receipt_json := json_dumps (PDict receipt)\<rparr>) (decisions l)\<rparr>"

definition set_mailbox_before :: "string \<Rightarrow> string \<Rightarrow> ledger \<Rightarrow> ledger" where
  "set_mailbox_before did mailbox l =
     l\<lparr>decisions := update_where (\<lambda>r. dr_id r = did) (\<lambda>r. r\<lparr>dr_mailbox_before := mailbox\<rparr>) (decisions l)\<rparr>"

definition list_decisions :: "string \<Rightarrow> int \<Rightarrow> bool \<Rightarrow> ledger \<Rightarrow> pdict list" where
  "list_decisions status limit newest_first l =
     (let rows = filter (\<lambda>r. status = [] \<or> dr_status r = status) (decisions l);
          ordered = (if newest_first then rev rows else rows)
      in map decision_view (if limit < 0 then ordered else take (nat limit) ordered))"

definition latest_applied :: "string \<Rightarrow> string \<Rightarrow> ledger \<Rightarrow> pdict option" where
  "latest_applied source thread_id l =
     map_option row_dict
       (find (\<lambda>r. dr_source r = source \<and> dr_provider_thread_id r = thread_id \<and> dr_status r = ''applied'')
         (rev (decisions l)))"

subsection \<open>Cursors and the outbox\<close>

definition set_sync_cursor :: "string \<Rightarrow> string \<Rightarrow> string \<Rightarrow> ledger \<Rightarrow> ledger" where
  "set_sync_cursor provider address cursor l =
     l\<lparr>cursors := upsert (\<lambda>r. cu_provider r = provider \<and> cu_address r = address)
         (\<lambda>r. r\<lparr>cu_cursor := cursor\<rparr>)
         \<lparr>cu_provider = provider, cu_address = address, cu_cursor = cursor\<rparr> (cursors l)\<rparr>"

definition get_sync_cursor :: "string \<Rightarrow> string \<Rightarrow> ledger \<Rightarrow> string" where
  "get_sync_cursor provider address l =
     (case find (\<lambda>r. cu_provider r = provider \<and> cu_address r = address) (cursors l) of
        None \<Rightarrow> [] | Some r \<Rightarrow> cu_cursor r)"

definition enqueue_outbox ::
    "string \<Rightarrow> string \<Rightarrow> string \<Rightarrow> pdict \<Rightarrow> ledger \<Rightarrow> ledger_error + (string \<times> ledger)" where
  \<comment> \<open>an id another decision's row has breaks the primary key, which rolls the deletion back too\<close>
  "enqueue_outbox now outbox_id did command l =
     (let others = filter (\<lambda>r. ob_decision_id r \<noteq> did) (outbox l)
      in if list_ex (\<lambda>r. ob_id r = outbox_id) others then Inl IntegrityError
         else Inr (outbox_id,
           l\<lparr>outbox := others
               @ [\<lparr>ob_id = outbox_id, ob_decision_id = did, ob_command_json = json_dumps (PDict command),
                   ob_created = now\<rparr>]\<rparr>))"

definition list_outbox :: "ledger \<Rightarrow> outbox_row list" where
  "list_outbox l = sort_key ob_created (sort_key ob_id (outbox l))"

definition outbox_command :: "outbox_row \<Rightarrow> pdict" where
  \<comment> \<open>\<open>row.get("command") or {}\<close> of a listed row\<close>
  "outbox_command r = (case json_loads (ob_command_json r) of Some (PDict d) \<Rightarrow> d | _ \<Rightarrow> [])"

definition delete_outbox :: "string \<Rightarrow> ledger \<Rightarrow> ledger" where
  "delete_outbox oid l = l\<lparr>outbox := filter (\<lambda>r. ob_id r \<noteq> oid) (outbox l)\<rparr>"

subsection \<open>Sender memory\<close>

definition fold_sender :: "string \<Rightarrow> string" where
  "fold_sender s = strip (casefold s)"

definition find_sender :: "string \<Rightarrow> string \<Rightarrow> ledger \<Rightarrow> sender_row option" where
  \<comment> \<open>\<open>get_sender\<close>; the dictionary it returns is \<open>sender_dict\<close> of this row\<close>
  "find_sender source sender l =
     find (\<lambda>r. sm_source r = source \<and> sm_sender r = fold_sender sender) (senders l)"

definition list_sender_pins :: "ledger \<Rightarrow> pdict list" where
  "list_sender_pins l =
     map sender_dict (sort_key sm_source (sort_key sm_sender (filter (\<lambda>r. sm_pinned r = 1) (senders l))))"

definition write_sender :: "sender_row \<Rightarrow> ledger \<Rightarrow> ledger" where
  \<comment> \<open>\<open>_write_sender\<close>, with the clock already in the row\<close>
  "write_sender n l =
     l\<lparr>senders := upsert (\<lambda>r. sm_source r = sm_source n \<and> sm_sender r = sm_sender n)
         (\<lambda>r. r\<lparr>sm_domain := sm_domain n, sm_category := sm_category n, sm_action := sm_action n,
                sm_hits := sm_hits n, sm_pinned := sm_pinned n, sm_updated := sm_updated n,
                sm_last_decision := sm_last_decision n\<rparr>)
         n (senders l)\<rparr>"

definition domain_or :: "string \<Rightarrow> string \<Rightarrow> sender_row option \<Rightarrow> string" where
  \<comment> \<open>the given domain, else what follows the first at sign, else the stored one\<close>
  "domain_or domain sender existing =
     (let d = (if domain = [] then (case find_sep ''@'' sender of None \<Rightarrow> [] | Some (_, b) \<Rightarrow> b) else domain)
      in if d \<noteq> [] then d else (case existing of None \<Rightarrow> [] | Some r \<Rightarrow> sm_domain r))"

definition correction_row ::
    "string \<Rightarrow> string \<Rightarrow> string \<Rightarrow> string \<Rightarrow> string \<Rightarrow> string \<Rightarrow> string \<Rightarrow> sender_row option \<Rightarrow> sender_row" where
  \<comment> \<open>the row \<open>note_correction\<close> writes: one more hit for the same outcome, the first of a new streak otherwise\<close>
  "correction_row now source sender category action domain decision_id existing =
     (let hits = (case existing of
                    Some r \<Rightarrow> if sm_action r = action \<and> sm_category r = category then sm_hits r + 1 else 1
                  | None \<Rightarrow> 1)
      in \<lparr>sm_source = source, sm_sender = sender, sm_domain = domain_or domain sender existing,
          sm_category = category, sm_action = action, sm_hits = hits,
          sm_pinned = of_bool_int (hits \<ge> PIN_HITS), sm_updated = now,
          sm_last_decision = decision_id\<rparr>)"

definition counted_already :: "string \<Rightarrow> sender_row option \<Rightarrow> bool" where
  "counted_already decision_id existing =
     (decision_id \<noteq> [] \<and> (case existing of None \<Rightarrow> False | Some r \<Rightarrow> sm_last_decision r = decision_id))"

definition note_correction ::
    "string \<Rightarrow> string \<Rightarrow> string \<Rightarrow> string \<Rightarrow> string \<Rightarrow> string \<Rightarrow> string \<Rightarrow> ledger
     \<Rightarrow> ledger_error + (sender_row \<times> ledger)" where
  "note_correction now source0 sender0 category action domain decision_id l =
     (let sender = fold_sender sender0; source = strip source0; existing = find_sender source sender l
      in if sender = [] then Inl (ValueError ''sender is required'')
         else if counted_already decision_id existing then Inr (the existing, l)
         else
           let l' = write_sender (correction_row now source sender category action domain decision_id existing) l
           in (case find_sender source sender l' of
                 None \<Rightarrow> Inl (RuntimeError ''sender memory was not stored'')
               | Some r \<Rightarrow> Inr (r, l')))"

definition pin_row ::
    "string \<Rightarrow> string \<Rightarrow> string \<Rightarrow> string \<Rightarrow> string \<Rightarrow> string \<Rightarrow> sender_row option \<Rightarrow> sender_row" where
  "pin_row now source sender category action domain existing =
     \<lparr>sm_source = source, sm_sender = sender, sm_domain = domain_or domain sender existing,
      sm_category = category, sm_action = action,
      sm_hits = max (case existing of None \<Rightarrow> 0 | Some r \<Rightarrow> sm_hits r) 3, sm_pinned = 1,
      sm_updated = now,
      sm_last_decision = (case existing of None \<Rightarrow> [] | Some r \<Rightarrow> sm_last_decision r)\<rparr>"

definition pin_sender ::
    "string \<Rightarrow> string \<Rightarrow> string \<Rightarrow> string \<Rightarrow> string \<Rightarrow> string \<Rightarrow> ledger
     \<Rightarrow> ledger_error + (sender_row \<times> ledger)" where
  "pin_sender now source0 sender0 category action domain l =
     (let sender = fold_sender sender0; source = strip source0; existing = find_sender source sender l
      in if sender = [] then Inl (ValueError ''sender is required'')
         else
           let l' = write_sender (pin_row now source sender category action domain existing) l
           in (case find_sender source sender l' of
                 None \<Rightarrow> Inl (RuntimeError ''sender memory was not stored'')
               | Some r \<Rightarrow> Inr (r, l')))"

subsection \<open>Rules\<close>

definition RULE_KEYS :: "string list" where
  "RULE_KEYS = [''from'', ''domain'', ''subject_prefix'', ''list_id'']"

definition stored_condition :: "pdict \<Rightarrow> pdict" where
  "stored_condition condition =
     List.map_filter (\<lambda>key. let s = strip (gets condition key)
                            in if s \<noteq> [] then Some (key, PStr s) else None) RULE_KEYS"

definition list_rules :: "string \<Rightarrow> ledger \<Rightarrow> pdict list" where
  "list_rules source l =
     map rule_dict (sort_key ru_id
       (filter (\<lambda>r. source = [] \<or> ru_source r = source \<or> ru_source r = ''*'') (rules l)))"

definition upsert_rule ::
    "string \<Rightarrow> string \<Rightarrow> string \<Rightarrow> pyval \<Rightarrow> string \<Rightarrow> string \<Rightarrow> bool \<Rightarrow> ledger
     \<Rightarrow> ledger_error + (pdict \<times> ledger)" where
  "upsert_rule fresh rule_id0 source0 condition0 action category enabled l =
     (case condition0 of
        PDict condition \<Rightarrow>
          (let stored = stored_condition condition;
               source = (if strip source0 = [] then ''*'' else strip source0);
               rule_id = (if strip rule_id0 = [] then fresh else strip rule_id0)
           in if list_ex (\<lambda>kv. fst kv \<notin> set RULE_KEYS) condition
              then Inl (ValueError ''unknown condition key'')
              else if stored = [] then Inl (ValueError ''condition needs a field'')
              else if source \<noteq> ''*'' \<and> source \<notin> set (map fst PROVIDER_TOOLS)
              then Inl (ValueError ''source is not a mail provider'')
              else
                let cj = json_dumps (PDict stored);
                    l' = l\<lparr>rules := upsert (\<lambda>r. ru_id r = rule_id)
                          (\<lambda>r. r\<lparr>ru_source := source, ru_condition_json := cj, ru_action := action,
                                 ru_category := category, ru_enabled := of_bool_int enabled\<rparr>)
                          \<lparr>ru_id = rule_id, ru_source = source, ru_condition_json = cj,
                           ru_action = action, ru_category = category, ru_enabled = of_bool_int enabled\<rparr>
                          (rules l)\<rparr>
                in (case filter (\<lambda>d. dget d ''id'' = PStr rule_id) (list_rules [] l') of
                      [] \<Rightarrow> Inl (RuntimeError ''rule was not stored'')
                    | d # _ \<Rightarrow> Inr (d, l')))
      | _ \<Rightarrow> Inl (ValueError ''condition must be an object''))"

subsection \<open>Keyed tables\<close>

lemma keys_upsert:
  assumes "\<And>r. hit r \<longleftrightarrow> key r = key new" "\<And>r. key (upd r) = key r"
  shows "map key (upsert hit upd new rs) =
           (if key new \<in> key ` set rs then map key rs else map key rs @ [key new])"
  using assms by (induction rs) auto

lemma distinct_upsert:
  assumes "\<And>r. hit r \<longleftrightarrow> key r = key new" "\<And>r. key (upd r) = key r" "distinct (map key rs)"
  shows "distinct (map key (upsert hit upd new rs))"
  using keys_upsert [of hit key new upd rs] assms by auto

lemma set_upsert: "r \<in> set (upsert hit upd new rs) \<Longrightarrow> r = new \<or> r \<in> set rs \<or> (\<exists>q \<in> set rs. hit q \<and> r = upd q)"
  by (induction rs) (auto split: if_splits)

lemma find_upsert:
  assumes "\<And>r. hit r \<Longrightarrow> hit (upd r)" "hit new"
  shows "find hit (upsert hit upd new rs) = Some (case find hit rs of None \<Rightarrow> new | Some r \<Rightarrow> upd r)"
  using assms by (induction rs) auto

lemma find_upsert_other:
  assumes "\<And>r. hit r \<Longrightarrow> \<not> P r \<and> \<not> P (upd r)" "\<not> P new"
  shows "find P (upsert hit upd new rs) = find P rs"
  using assms by (induction rs) auto

lemma map_update_where: "(\<And>r. key (upd r) = key r) \<Longrightarrow> map key (update_where hit upd rs) = map key rs"
  by (induction rs) (auto simp: update_where_def)

lemma set_update_where: "r \<in> set (update_where hit upd rs) \<Longrightarrow> \<exists>q \<in> set rs. r = (if hit q then upd q else q)"
  by (auto simp: update_where_def)

lemma filter_update_where:
  "(\<And>r. hit r \<Longrightarrow> \<not> P (upd r)) \<Longrightarrow> filter P (update_where hit upd rs) = filter (\<lambda>r. P r \<and> \<not> hit r) rs"
  by (induction rs) (auto simp: update_where_def)

subsection \<open>The ledger invariant\<close>

definition account_key :: "account_row \<Rightarrow> string \<times> string" where
  "account_key r = (acc_provider r, acc_address r)"
definition sender_key :: "sender_row \<Rightarrow> string \<times> string" where
  "sender_key r = (sm_source r, sm_sender r)"
definition thread_key :: "decision_row \<Rightarrow> string \<times> string" where
  "thread_key r = (dr_source r, dr_provider_thread_id r)"
definition cursor_key :: "cursor_row \<Rightarrow> string \<times> string" where
  "cursor_key r = (cu_provider r, cu_address r)"

definition is_open :: "decision_row \<Rightarrow> bool" where
  "is_open r = (dr_status r = ''proposed'')"

definition open_keys :: "ledger \<Rightarrow> (string \<times> string) list" where
  "open_keys l = map thread_key (filter is_open (decisions l))"

definition sender_ok :: "sender_row \<Rightarrow> bool" where
  "sender_ok r = (sm_sender r \<noteq> [] \<and> 1 \<le> sm_hits r \<and> sm_pinned r = of_bool_int (sm_hits r \<ge> PIN_HITS))"

definition ledger_inv :: "ledger \<Rightarrow> bool" where
  "ledger_inv l \<longleftrightarrow>
     distinct (map account_key (accounts l)) \<and> distinct (map sender_key (senders l))
     \<and> distinct (map ru_id (rules l)) \<and> distinct (map dr_id (decisions l))
     \<and> distinct (open_keys l) \<and> distinct (map ob_id (outbox l)) \<and> distinct (map ob_decision_id (outbox l))
     \<and> distinct (map cursor_key (cursors l)) \<and> list_all sender_ok (senders l)"

lemma ledger_inv_empty: "ledger_inv empty_ledger"
  by (simp add: ledger_inv_def empty_ledger_def open_keys_def)

lemma upsert_account_inv [inv_intros]: "ledger_inv l \<Longrightarrow> ledger_inv (upsert_account p a dn i fs aa c l)"
  by (auto simp: ledger_inv_def upsert_account_def Let_def open_keys_def account_key_def
      intro!: distinct_upsert)

lemma map_key_set_fields: "account_key (fold (\<lambda>n. set_field n (f n)) ns r) = account_key r"
  by (induction ns arbitrary: r) (auto simp: set_field_def account_key_def)

lemma update_account_inv [inv_intros]: "ledger_inv l \<Longrightarrow> update_account p a fs l = Inr (b, l') \<Longrightarrow> ledger_inv l'"
  by (auto simp: ledger_inv_def update_account_def Let_def open_keys_def map_update_where map_key_set_fields
      split: if_splits)

lemma open_keys_append: "map thread_key (filter is_open (xs @ [r])) =
    map thread_key (filter is_open xs) @ (if is_open r then [thread_key r] else [])"
  by simp

lemma open_keys_supersede:
  "map thread_key (filter is_open (update_where (open_for s t) (\<lambda>r. r\<lparr>dr_status := ''superseded''\<rparr>) ds)) =
     filter (\<lambda>k. k \<noteq> (s, t)) (map thread_key (filter is_open ds))"
  by (induction ds) (auto simp: update_where_def open_for_def is_open_def thread_key_def)

lemma propose_inv [inv_intros]: "ledger_inv l \<Longrightarrow> propose now i p l = Inr (d, l') \<Longrightarrow> ledger_inv l'"
  by (auto simp: ledger_inv_def propose_def Let_def open_keys_def open_keys_supersede list_ex_iff
      map_update_where is_open_def proposed_row_def thread_key_def split: if_splits)

lemma open_keys_record:
  "st \<noteq> ''proposed'' \<Longrightarrow> open_keys (record_decision d st rc l) =
     map thread_key (filter (\<lambda>r. is_open r \<and> dr_id r \<noteq> d) (decisions l))"
  by (simp add: open_keys_def record_decision_def filter_update_where is_open_def)

lemma record_decision_inv [inv_intros]:
  "ledger_inv l \<Longrightarrow> st \<noteq> ''proposed'' \<Longrightarrow> ledger_inv (record_decision d st rc l)"
proof -
  assume l: "ledger_inv l" and st: "st \<noteq> ''proposed''"
  have "distinct (map thread_key (filter (\<lambda>r. is_open r \<and> dr_id r \<noteq> d) (decisions l)))"
    using l distinct_map_filter [of thread_key "filter is_open (decisions l)" "\<lambda>r. dr_id r \<noteq> d"]
    by (simp add: ledger_inv_def open_keys_def conj_commute)
  then have "distinct (open_keys (record_decision d st rc l))"
    using open_keys_record [OF st] by simp
  then show ?thesis using l
    by (simp add: ledger_inv_def record_decision_def map_update_where)
qed

lemma set_mailbox_before_inv [inv_intros]: "ledger_inv l \<Longrightarrow> ledger_inv (set_mailbox_before d m l)"
proof -
  assume l: "ledger_inv l"
  have "open_keys (set_mailbox_before d m l) = open_keys l"
  proof -
    have "map thread_key (filter is_open (update_where (\<lambda>r. dr_id r = d) (\<lambda>r. r\<lparr>dr_mailbox_before := m\<rparr>) ds))
          = map thread_key (filter is_open ds)" for ds
    by (induction ds) (auto simp: update_where_def is_open_def thread_key_def filter_map comp_def)
    then show ?thesis by (simp add: open_keys_def set_mailbox_before_def)
  qed
  then show ?thesis using l by (simp add: ledger_inv_def) (simp add: set_mailbox_before_def map_update_where)
qed

lemma set_sync_cursor_inv [inv_intros]: "ledger_inv l \<Longrightarrow> ledger_inv (set_sync_cursor p a c l)"
  by (auto simp: ledger_inv_def set_sync_cursor_def open_keys_def cursor_key_def intro!: distinct_upsert)

lemma enqueue_outbox_inv [inv_intros]:
  "ledger_inv l \<Longrightarrow> enqueue_outbox now i d c l = Inr (x, l') \<Longrightarrow> ledger_inv l'"
  by (auto simp: ledger_inv_def enqueue_outbox_def Let_def open_keys_def distinct_map_filter list_ex_iff split: if_splits)

lemma delete_outbox_inv [inv_intros]: "ledger_inv l \<Longrightarrow> ledger_inv (delete_outbox i l)"
  by (auto simp: ledger_inv_def delete_outbox_def open_keys_def distinct_map_filter)

lemma write_sender_inv: "ledger_inv l \<Longrightarrow> sender_ok n \<Longrightarrow> ledger_inv (write_sender n l)"
proof -
  assume l: "ledger_inv l" and n: "sender_ok n"
  have "list_all sender_ok (senders (write_sender n l))"
    using l n by (auto simp: ledger_inv_def write_sender_def list_all_iff sender_ok_def dest!: set_upsert)
  moreover have "distinct (map sender_key (senders (write_sender n l)))"
    using l by (auto simp: ledger_inv_def write_sender_def sender_key_def intro!: distinct_upsert)
  ultimately show ?thesis using l by (simp add: ledger_inv_def write_sender_def open_keys_def)
qed

lemma find_sender_ok: "ledger_inv l \<Longrightarrow> find_sender s t l = Some r \<Longrightarrow> sender_ok r"
  by (auto simp: ledger_inv_def find_sender_def list_all_iff find_Some_iff)

lemma fold_sender_idem [simp]: "fold_sender (fold_sender s) = fold_sender s"
  by (simp add: fold_sender_def strip_lower)

lemma find_sender_write:
  "sm_sender n = fold_sender t \<Longrightarrow> find_sender (sm_source n) t (write_sender n l) = Some n"
  by (auto simp: find_sender_def write_sender_def find_upsert find_Some_iff split: option.split)

lemma correction_row_ok: "t \<noteq> [] \<Longrightarrow> (\<And>r. e = Some r \<Longrightarrow> sender_ok r) \<Longrightarrow> sender_ok (correction_row now s t c a d i e)"
  by (auto simp: correction_row_def sender_ok_def Let_def split: option.split)

lemma pin_row_ok: "t \<noteq> [] \<Longrightarrow> sender_ok (pin_row now s t c a d e)"
  by (auto simp: pin_row_def sender_ok_def PIN_HITS_def of_bool_int_def)

lemma row_keys [simp]:
  "sm_source (correction_row now s t c a d i e) = s" "sm_sender (correction_row now s t c a d i e) = t"
  "sm_source (pin_row now s t c a d e) = s" "sm_sender (pin_row now s t c a d e) = t"
  by (simp_all add: correction_row_def pin_row_def Let_def)

lemma note_correction_eq:
  "note_correction now s t c a d i l =
     (let sender = fold_sender t; source = strip s; existing = find_sender source sender l;
          n = correction_row now source sender c a d i existing
      in if sender = [] then Inl (ValueError ''sender is required'')
         else if counted_already i existing then Inr (the existing, l)
         else Inr (n, write_sender n l))"
  using find_sender_write [of "correction_row now (strip s) (fold_sender t) c a d i
      (find_sender (strip s) (fold_sender t) l)" "fold_sender t" l]
  by (simp add: note_correction_def Let_def)

lemma pin_sender_eq:
  "pin_sender now s t c a d l =
     (let sender = fold_sender t; source = strip s; existing = find_sender source sender l;
          n = pin_row now source sender c a d existing
      in if sender = [] then Inl (ValueError ''sender is required'') else Inr (n, write_sender n l))"
  using find_sender_write [of "pin_row now (strip s) (fold_sender t) c a d
      (find_sender (strip s) (fold_sender t) l)" "fold_sender t" l]
  by (simp add: pin_sender_def Let_def)

lemma note_correction_inv [inv_intros]:
  "ledger_inv l \<Longrightarrow> note_correction now s t c a d i l = Inr (r, l') \<Longrightarrow> ledger_inv l'"
  by (auto simp: note_correction_eq Let_def split: if_splits
      intro!: write_sender_inv correction_row_ok intro: find_sender_ok)

lemma pin_sender_inv [inv_intros]:
  "ledger_inv l \<Longrightarrow> pin_sender now s t c a d l = Inr (r, l') \<Longrightarrow> ledger_inv l'"
  by (auto simp: pin_sender_eq Let_def split: if_splits intro!: write_sender_inv pin_row_ok)

lemma upsert_rule_inv [inv_intros]:
  "ledger_inv l \<Longrightarrow> upsert_rule f i s c a g e l = Inr (r, l') \<Longrightarrow> ledger_inv l'"
  by (auto simp: upsert_rule_def Let_def ledger_inv_def open_keys_def
      split: if_splits option.splits pyval.splits list.splits intro!: distinct_upsert)

end
