(* ===== verification/InboxLearn.thy ===== *)
theory InboxLearn
  imports InboxMessages InboxLedger
begin

text \<open>
  Sender memory and rules, \<^verbatim>\<open>app/inbox/learn.py\<close>: the signals triage asks for, and the
  corrections a pass learns from what the mailbox shows.
\<close>

definition RULE_CONFIDENCE :: rat where "RULE_CONFIDENCE = 95 / 100"

definition validate :: "string \<Rightarrow> string \<Rightarrow> ledger_error option" where
  "validate action category =
     (if action \<notin> set MODEL_ACTIONS then Some (ValueError ''action is not in the enum'')
      else if category \<notin> set CATEGORIES then Some (ValueError ''category is not in the enum'')
      else None)"

definition rule_condition :: "pyval \<Rightarrow> ledger_error + pdict" where
  \<comment> \<open>\<open>_condition\<close>\<close>
  "rule_condition raw =
     (case (case raw of PStr s \<Rightarrow> json_loads s | v \<Rightarrow> Some v) of
        None \<Rightarrow> Inl (ValueError ''condition is not JSON'')
      | Some (PDict d) \<Rightarrow> Inr d
      | Some _ \<Rightarrow> Inl (ValueError ''condition must be an object''))"

definition memory_confidence :: "sender_row \<Rightarrow> rat" where
  "memory_confidence r =
     (if sm_pinned r \<noteq> 0 then 95 / 100 else min (6 / 10) (of_int (sm_hits r) * (3 / 10)))"

definition matches :: "pdict \<Rightarrow> string \<Rightarrow> string \<Rightarrow> string \<Rightarrow> bool" where
  "matches condition sender subject list_id =
     (let sender_folded = casefold sender;
          domain = (case find_sep ''@'' sender_folded of None \<Rightarrow> [] | Some (_, b) \<Rightarrow> b);
          agrees = (\<lambda>key v. has_key condition key \<longrightarrow> casefold (py_str (dget condition key)) = v)
      in condition \<noteq> [] \<and> agrees ''from'' sender_folded \<and> agrees ''domain'' domain
         \<and> (has_key condition ''subject_prefix'' \<longrightarrow>
              starts_with (casefold (py_str (dget condition ''subject_prefix''))) (casefold subject))
         \<and> agrees ''list_id'' (casefold list_id))"

definition rule_rank :: "string \<Rightarrow> string \<Rightarrow> string \<Rightarrow> string \<Rightarrow> pdict \<Rightarrow> (nat \<times> nat \<times> pdict) option" where
  \<comment> \<open>the body of the loop of \<open>_best_rule\<close>\<close>
  "rule_rank source sender subject list_id rule =
     (if \<not> truthy (dget rule ''enabled'') then None
      else
        let rule_source = gets_or rule ''source'' ''*''
        in if rule_source \<notin> {source, ''*''} then None
           else (case dget rule ''condition'' of
                   PDict condition \<Rightarrow>
                     if matches condition sender subject list_id
                     then Some (if rule_source = source then 1 else 0, length condition, rule) else None
                 | _ \<Rightarrow> None))"

definition best_rule :: "pdict list \<Rightarrow> string \<Rightarrow> string \<Rightarrow> string \<Rightarrow> string \<Rightarrow> pdict option" where
  "best_rule rs source sender subject list_id =
     (let ranked = List.map_filter (rule_rank source sender subject list_id) rs;
          sorted = sort_key (\<lambda>r. - int (fst r)) (sort_key (\<lambda>r. - int (fst (snd r))) ranked)
      in case sorted of [] \<Rightarrow> None | r # _ \<Rightarrow> Some (snd (snd r)))"

definition signals_for :: "ledger \<Rightarrow> string \<Rightarrow> string \<Rightarrow> string \<Rightarrow> string \<Rightarrow> pdict" where
  "signals_for l source sender0 subject list_id =
     (let sender = fold_sender sender0
      in (case (if sender \<noteq> [] then find_sender source sender l else None) of
            None \<Rightarrow> []
          | Some m \<Rightarrow> [(''memory_action'', PStr (sm_action m)), (''memory_category'', PStr (sm_category m)),
                       (''memory_confidence'', PFloat (memory_confidence m))])
         @ (case best_rule (list_rules source l) source sender subject list_id of
              None \<Rightarrow> []
            | Some rule \<Rightarrow> [(''rule_action'', dget rule ''action''), (''rule_category'', dget rule ''category''),
                            (''rule_confidence'', PFloat RULE_CONFIDENCE)]))"

subsection \<open>Corrections\<close>

definition compared :: "string \<Rightarrow> pdict \<Rightarrow> pdict" where
  \<comment> \<open>the part of a row the comparison reads\<close>
  "compared source row =
     [(''provider'', PStr source), (''source'', PStr source), (''action'', dget row ''action''),
      (''category'', dget row ''category'')]"

definition observed_correction :: "ledger \<Rightarrow> string \<Rightarrow> string \<Rightarrow> pdict \<Rightarrow> ((string \<times> string) \<times> string) option" where
  "observed_correction l source thread_id observation =
     (case latest_applied source thread_id l of
        Some row \<Rightarrow>
          map_option (\<lambda>outcome. (outcome, gets row ''id''))
            (operator_outcome
               (PDict (compared source row @ [(''receipt'', PDict (receipt_dict (dget row ''receipt_json'')))]))
               (PDict observation))
      | None \<Rightarrow>
          (case open_proposal source thread_id l of
             None \<Rightarrow> None
           | Some proposal \<Rightarrow>
               map_option (\<lambda>outcome. (outcome, ''proposed:'' @ source @ '':'' @ thread_id))
                 (proposed_outcome (PDict (compared source proposal)) (PDict observation))))"

definition reconcile_thread :: "string \<Rightarrow> triaged_thread \<Rightarrow> nat \<times> ledger \<Rightarrow> ledger_error + (nat \<times> ledger)" where
  \<comment> \<open>the body of the loop of \<open>reconcile_threads\<close>\<close>
  "reconcile_thread now t st =
     (let (learned, l) = st;
          source = tt_source t; thread_id = tt_thread_id t; sender = fold_sender (tt_sender t)
      in if tt_observation t = [] \<or> source = [] \<or> thread_id = [] \<or> sender = [] then Inr st
         else (case observed_correction l source thread_id (tt_observation t) of
                 None \<Rightarrow> Inr st
               | Some ((action, category), decision_id) \<Rightarrow>
                   (let before0 = find_sender source sender l
                    in case note_correction now source sender category action [] decision_id l of
                         Inl e \<Rightarrow> Inl e
                       | Inr (after, l') \<Rightarrow>
                           Inr (if before0 = None \<or> sm_hits after \<noteq> sm_hits (the before0) then learned + 1 else learned,
                                l'))))"

fun reconcile_threads :: "(nat \<Rightarrow> string) \<Rightarrow> triaged_thread list \<Rightarrow> nat \<times> ledger \<Rightarrow> ledger_error + (nat \<times> ledger)" where
  \<comment> \<open>the clock is read once per thread\<close>
  "reconcile_threads now [] st = Inr st"
| "reconcile_threads now (t # ts) st =
     (case reconcile_thread (now 0) t st of
        Inl e \<Rightarrow> Inl e
      | Inr st' \<Rightarrow> reconcile_threads (\<lambda>n. now (Suc n)) ts st')"

subsection \<open>Explicit pins and rules\<close>

definition learn_pin_sender ::
    "string \<Rightarrow> string \<Rightarrow> string \<Rightarrow> string \<Rightarrow> string \<Rightarrow> string \<Rightarrow> ledger \<Rightarrow> ledger_error + (sender_row \<times> ledger)" where
  \<comment> \<open>\<open>pin_sender\<close> of this module\<close>
  "learn_pin_sender now source sender action category domain l =
     (case validate action category of
        Some e \<Rightarrow> Inl e
      | None \<Rightarrow>
          if source \<notin> set (map fst PROVIDER_TOOLS) then Inl (ValueError ''source is not a mail provider'')
          else pin_sender now source sender category action domain l)"

definition learn_upsert_rule ::
    "string \<Rightarrow> string \<Rightarrow> string \<Rightarrow> pyval \<Rightarrow> string \<Rightarrow> string \<Rightarrow> bool \<Rightarrow> ledger \<Rightarrow> ledger_error + (pdict \<times> ledger)" where
  \<comment> \<open>\<open>upsert_rule\<close> of this module\<close>
  "learn_upsert_rule fresh rule_id source condition action category enabled l =
     (case validate action category of
        Some e \<Rightarrow> Inl e
      | None \<Rightarrow>
          (case rule_condition condition of
             Inl e \<Rightarrow> Inl e
           | Inr parsed \<Rightarrow> upsert_rule fresh rule_id source (PDict parsed) action category enabled l))"

end
