(* ===== verification/InboxApply.thy ===== *)
theory InboxApply
  imports InboxActions
begin

text \<open>
  Pure mail apply plans, \<^verbatim>\<open>core/agents/inbox_apply.py\<close>: one decision becomes a list of
  planned tool calls for its provider, a no-op, or an error. Label names and mailbox paths
  stay symbolic; the executor resolves them.
\<close>

record planned_call =
  pc_tool :: string
  pc_args :: pdict

abbreviation PlannedCall :: "string \<Rightarrow> pdict \<Rightarrow> planned_call" where
  "PlannedCall t a \<equiv> \<lparr>pc_tool = t, pc_args = a\<rparr>"

record apply_plan =
  ap_calls :: "planned_call list"
  ap_move :: bool
  ap_noop :: bool
  ap_error :: string
  ap_labels_after :: "string list option"

definition plan_error :: "string \<Rightarrow> apply_plan" where
  "plan_error e = \<lparr>ap_calls = [], ap_move = False, ap_noop = False, ap_error = e, ap_labels_after = None\<rparr>"

definition plan_noop :: apply_plan where
  "plan_noop = \<lparr>ap_calls = [], ap_move = False, ap_noop = True, ap_error = [], ap_labels_after = None\<rparr>"

definition plan_calls :: "planned_call list \<Rightarrow> bool \<Rightarrow> string list option \<Rightarrow> apply_plan" where
  "plan_calls cs mv after =
     \<lparr>ap_calls = cs, ap_move = mv, ap_noop = False, ap_error = [], ap_labels_after = after\<rparr>"

lemmas plan_defs = plan_error_def plan_noop_def plan_calls_def

definition message_ids :: "pdict \<Rightarrow> string list" where
  "message_ids decision =
     (let raw = (case dget decision ''message_ids'' of
                   PStr s \<Rightarrow> (case json_loads s of None \<Rightarrow> PList [PStr s] | Some v \<Rightarrow> v)
                 | v \<Rightarrow> v);
          ids = (case raw of PList xs \<Rightarrow> nonblank_parts (map py_str xs) | _ \<Rightarrow> []);
          one = strip (gets decision ''provider_message_id'')
      in if ids \<noteq> [] then ids else if one \<noteq> [] then [one] else [])"

definition current_labels :: "pdict \<Rightarrow> string list" where
  "current_labels decision =
     (if \<not> has_key decision ''current_labels'' then [''INBOX'', ''UNREAD'']
      else (case dget decision ''current_labels'' of PList xs \<Rightarrow> map py_str xs | _ \<Rightarrow> []))"

definition outlook_categories :: "pdict \<Rightarrow> string list" where
  "outlook_categories decision =
     (case dget decision ''current_labels'' of PList xs \<Rightarrow> map py_str xs | _ \<Rightarrow> [])"

definition is_cerid :: "string \<Rightarrow> bool" where
  "is_cerid name = starts_with ''Cerid/'' name"

definition label_name :: "string \<Rightarrow> string" where
  "label_name category = tab LABEL_NAME category []"

definition gmail_delta ::
    "string \<Rightarrow> string \<Rightarrow> bool \<Rightarrow> string list \<Rightarrow> string \<Rightarrow> (string list \<times> string list) option" where
  "gmail_delta action category folder_sort current undone_action =
     (let label = label_name category;
          cerid = filter is_cerid current;
          others = filter (\<lambda>n. n \<noteq> label) cerid;
          delta =
            (if action = ''archive'' then Some ([label], ''INBOX'' # others)
             else if action = ''keep'' then Some ([label], others @ (if folder_sort then [''INBOX''] else []))
             else if action = ''mark_read'' then Some ([], [''UNREAD''])
             else if action = ''undo''
             then Some (''INBOX'' # (if undone_action = ''mark_read'' then [''UNREAD''] else []),
                        (if cerid \<noteq> [] then cerid else [label]))
             else None)
      in (case delta of
            None \<Rightarrow> None
          | Some (add0, remove0) \<Rightarrow>
              (let add = filter (\<lambda>n. n \<notin> set current) add0;
                   remove = filter (\<lambda>n. n \<in> set current) remove0
               in if add = [] \<and> remove = [] then None
                  else Some (sorted_set add, sorted_set remove))))"

definition strs :: "string list \<Rightarrow> pyval" where
  "strs xs = PList (map PStr xs)"

definition gmail_plan :: "pdict \<Rightarrow> string list \<Rightarrow> apply_plan" where
  \<comment> \<open>\<open>_gmail\<close>\<close>
  "gmail_plan decision ids =
     (let account = gets decision ''account'';
          action = py_str (dget decision ''action'');
          category = py_str (dget decision ''category'')
      in if action = ''draft''
         then
           (let body = strip (gets decision ''draft_body'');
                thread_id = strip (gets decision ''provider_thread_id'')
            in if body = [] then plan_error ''draft body is missing''
               else if thread_id = [] then plan_error ''thread id is required''
               else plan_calls
                 [PlannedCall ''draft_gmail_message''
                    [(''user_google_email'', PStr account),
                     (''subject'', PStr (gets_or decision ''subject'' ''(no subject)'')),
                     (''body'', PStr body),
                     (''thread_id'', PStr thread_id),
                     (''include_signature'', PBool False),
                     (''quote_original'', PBool False)]]
                 False None)
         else
           (let current = current_labels decision
            in (case gmail_delta action category (truthy (dget decision ''folder_sort'')) current
                       (gets decision ''undone_action'') of
                  None \<Rightarrow> plan_noop
                | Some (add, remove) \<Rightarrow>
                    plan_calls
                      [PlannedCall ''batch_modify_gmail_message_labels''
                         ([(''user_google_email'', PStr account), (''message_ids'', strs ids)]
                          @ (if add \<noteq> [] then [(''add_label_ids'', strs add)] else [])
                          @ (if remove \<noteq> [] then [(''remove_label_ids'', strs remove)] else []))]
                      (''INBOX'' \<in> set add \<or> ''INBOX'' \<in> set remove)
                      (Some (sorted_set (filter (\<lambda>n. n \<notin> set remove) current @ add))))))"

definition outlook_move :: "string \<Rightarrow> string \<Rightarrow> planned_call" where
  "outlook_move message_id destination =
     PlannedCall ''move-mail-message''
       [(''messageId'', PStr message_id), (''body'', PDict [(''destinationId'', PStr destination)])]"

definition outlook_update :: "string \<Rightarrow> string \<Rightarrow> pyval \<Rightarrow> planned_call" where
  "outlook_update message_id field v =
     PlannedCall ''update-mail-message''
       [(''messageId'', PStr message_id), (''body'', PDict [(field, v)])]"

definition outlook_message_calls ::
    "string \<Rightarrow> string \<Rightarrow> string \<Rightarrow> string \<Rightarrow> bool \<Rightarrow> string list \<Rightarrow> string list \<Rightarrow> string \<Rightarrow> planned_call list" where
  \<comment> \<open>the body of the loop over message ids\<close>
  "outlook_message_calls action undone_action folder_before label folder_sort current categories message_id =
     (if categories \<noteq> current then [outlook_update message_id ''categories'' (strs categories)] else [])
     @ (if action = ''mark_read'' then [outlook_update message_id ''isRead'' (PBool True)]
        else if action = ''undo''
        then (if undone_action = ''mark_read'' then [outlook_update message_id ''isRead'' (PBool False)] else [])
             @ (if folder_before \<noteq> [] then [outlook_move message_id folder_before] else [])
        else [])
     @ (if action = ''keep'' \<and> folder_sort then [outlook_move message_id label]
        else if action = ''archive'' then [outlook_move message_id ''archive'']
        else [])"

definition outlook_plan :: "pdict \<Rightarrow> string list \<Rightarrow> apply_plan" where
  \<comment> \<open>\<open>_outlook\<close>; the ids are not empty\<close>
  "outlook_plan decision ids =
     (let action = py_str (dget decision ''action'');
          label = label_name (py_str (dget decision ''category''));
          folder_sort = truthy (dget decision ''folder_sort'')
      in if action = ''draft''
         then
           (let body = strip (gets decision ''draft_body'')
            in if body = [] then plan_error ''draft body is missing''
               else plan_calls
                 [PlannedCall ''create-reply-draft''
                    [(''messageId'', PStr (hd ids)), (''body'', PDict [(''comment'', PStr body)])]]
                 False None)
         else
           (let undone_action = gets decision ''undone_action'';
                before0 = strip (gets decision ''mailbox_before'');
                folder_before = (if casefold before0 \<in> set OUTLOOK_WELL_KNOWN then casefold before0 else before0);
                current = outlook_categories decision;
                kept = filter (\<lambda>n. \<not> is_cerid n) current;
                categories = (if action \<in> {''keep'', ''archive''} then kept @ [label]
                              else if action = ''undo'' then kept else current);
                calls = concat (map (outlook_message_calls action undone_action folder_before label
                                       folder_sort current categories) ids)
            in plan_calls calls (list_ex (\<lambda>c. pc_tool c = ''move-mail-message'') calls) (Some categories)))"

definition BANNED_SEGMENTS :: "string list" where
  "BANNED_SEGMENTS =
     [''junk'', ''junk email'', ''junk e-mail'', ''spam'', ''trash'', ''deleted messages'', ''deleted items'']"

definition banned :: "string \<Rightarrow> bool" where
  \<comment> \<open>the expression matches one whole segment of a slash-separated path, ignoring case\<close>
  "banned mailbox =
     (let text = strip mailbox
      in if starts_with ''cerid/'' (casefold text) then False
         else list_ex (\<lambda>seg. seg \<in> set BANNED_SEGMENTS) (split_on (CHR ''/'') (casefold text)))"

definition apple_call :: "string list \<Rightarrow> planned_call" where
  "apple_call argv = PlannedCall (hd argv) [(''argv'', strs argv)]"

definition apple_message_calls ::
    "string \<Rightarrow> string \<Rightarrow> bool \<Rightarrow> string \<Rightarrow> string \<Rightarrow> string \<Rightarrow> string \<Rightarrow> planned_call list" where
  "apple_message_calls action category folder_sort subject body mailbox message_id =
     (if action = ''keep''
      then apple_call [''flag'', message_id, tab FLAG_COLOR category []]
           # (if folder_sort then [apple_call [''move'', message_id, label_name category]] else [])
      else if action = ''archive'' then [apple_call [''move'', message_id, ''Archive'']]
      else if action = ''mark_read'' then [apple_call [''read'', message_id]]
      else if action = ''draft'' then [apple_call [''draft'', message_id, subject, body]]
      else if action = ''undo'' then [apple_call [''move'', message_id, mailbox]]
      else [])"

definition apple_plan :: "pdict \<Rightarrow> string list \<Rightarrow> apply_plan" where
  \<comment> \<open>\<open>_apple\<close>\<close>
  "apple_plan decision ids =
     (let action = py_str (dget decision ''action'');
          category = py_str (dget decision ''category'');
          folder_sort = truthy (dget decision ''folder_sort'');
          subject = gets_or decision ''subject'' ''(no subject)'';
          body = gets decision ''draft_body'';
          mailbox = (let m = gets2 decision ''mailbox_before'' ''mailbox'' in if m = [] then ''INBOX'' else m)
      in if action = ''undo'' \<and> banned mailbox then plan_error ''junk and trash are not destinations''
         else if action = ''draft'' \<and> strip body = [] then plan_error ''draft body is missing''
         else if action = ''keep'' \<and> folder_sort \<and> banned (label_name category)
         then plan_error ''junk and trash are not destinations''
         else
           (let calls = concat (map (apple_message_calls action category folder_sort subject body mailbox) ids)
            in plan_calls calls (list_ex (\<lambda>c. pc_tool c = ''move'') calls) None))"

definition plan_apply :: "pdict \<Rightarrow> apply_plan" where
  "plan_apply decision =
     (let provider = gets2 decision ''provider'' ''source'';
          action = gets decision ''action'';
          category = gets decision ''category'';
          ids = message_ids decision
      in if provider \<notin> set (map fst PROVIDER_TOOLS) then plan_error ''provider is not a mail source''
         else if action \<notin> set ACTIONS then plan_error ''action is not in the enum''
         else if category \<notin> set (map fst LABEL_NAME) then plan_error ''category is not in the enum''
         else if ids = [] then plan_error ''message id is required''
         else if provider = ''gmail'' then gmail_plan decision ids
         else if provider = ''outlook'' then outlook_plan decision ids
         else apple_plan decision ids)"

subsection \<open>What a label delta does\<close>

definition gmail_after :: "string list \<Rightarrow> (string list \<times> string list) option \<Rightarrow> string list" where
  \<comment> \<open>the labels a message carries once the delta is performed\<close>
  "gmail_after current delta =
     (case delta of None \<Rightarrow> current
      | Some (add, remove) \<Rightarrow> sorted_set (filter (\<lambda>n. n \<notin> set remove) current @ add))"

lemma label_name_cerid: "c \<in> set CATEGORIES \<Longrightarrow> is_cerid (label_name c)"
  by (auto simp: CATEGORIES_def label_name_def LABEL_NAME_def tab_def is_cerid_def starts_with_def)

lemma label_name_inj: "c \<in> set CATEGORIES \<Longrightarrow> d \<in> set CATEGORIES \<Longrightarrow> label_name c = label_name d \<Longrightarrow> c = d"
proof -
  assume c: "c \<in> set CATEGORIES" and d: "d \<in> set CATEGORIES" and e: "label_name c = label_name d"
  have "list_all (\<lambda>c. list_all (\<lambda>d. label_name c = label_name d \<longrightarrow> c = d) CATEGORIES) CATEGORIES"
    by code_simp
  with c d e show "c = d" unfolding list_all_iff by blast
qed

definition gmail_goal :: "string \<Rightarrow> string \<Rightarrow> bool \<Rightarrow> string \<Rightarrow> string set \<Rightarrow> string set" where
  \<comment> \<open>what an action promises of the set of labels\<close>
  "gmail_goal action category folder_sort undone L =
     (if action = ''archive'' then {n \<in> L. \<not> is_cerid n \<and> n \<noteq> ''INBOX''} \<union> {label_name category}
      else if action = ''keep''
      then {n \<in> L. \<not> is_cerid n \<and> (n = ''INBOX'' \<longrightarrow> \<not> folder_sort)} \<union> {label_name category}
      else if action = ''mark_read'' then L - {''UNREAD''}
      else if action = ''undo''
      then {n \<in> L. \<not> is_cerid n} \<union> {''INBOX''} \<union> (if undone = ''mark_read'' then {''UNREAD''} else {})
      else L)"

lemma cerid_system [simp]: "\<not> is_cerid ''INBOX''" "\<not> is_cerid ''UNREAD''"
  by (simp_all add: is_cerid_def starts_with_def)

lemma gmail_after_set: "set (gmail_after cur (case delta of None \<Rightarrow> None
      | Some (add0, remove0) \<Rightarrow>
              (let add = filter (\<lambda>n. n \<notin> set cur) add0;
                   remove = filter (\<lambda>n. n \<in> set cur) remove0
               in if add = [] \<and> remove = [] then None
                  else Some (sorted_set add, sorted_set remove))))
   = (case delta of None \<Rightarrow> set cur | Some (a, r) \<Rightarrow> (set cur - set r) \<union> (set a))" if "\<And>a r. delta = Some (a, r) \<Longrightarrow> set a \<inter> set r = {}"
  using that by (auto simp: gmail_after_def Let_def filter_empty_conv split: option.splits if_splits prod.splits)

lemma gmail_delta_effect:
  assumes "c \<in> set CATEGORIES"
  shows "set (gmail_after cur (gmail_delta a c fs cur u)) = gmail_goal a c fs u (set cur)"
proof -
  have l: "is_cerid (label_name c)" using assms by (rule label_name_cerid)
  then have "label_name c \<noteq> ''INBOX''" "label_name c \<noteq> ''UNREAD''" by auto
  with l show ?thesis
    unfolding gmail_delta_def Let_def
    apply (subst gmail_after_set[unfolded Let_def])
     apply (auto split: if_splits)[1]
    apply (auto simp: gmail_goal_def filter_empty_conv)
    done
qed

end
