(* ===== verification/InboxHooks.thy ===== *)
theory InboxHooks
  imports InboxActions
begin

text \<open>
  The ordered checks of \<^verbatim>\<open>app/inbox/hooks.py\<close>: a decision passes the whole chain before it
  is stored or applied, and a failure names its hook.
\<close>

record hook_result =
  hr_ok :: bool
  hr_hook :: string
  hr_reason :: string
  hr_domain :: "string option"

definition hook_fail :: "string \<Rightarrow> string \<Rightarrow> hook_result" where
  "hook_fail h r = \<lparr>hr_ok = False, hr_hook = h, hr_reason = r, hr_domain = None\<rparr>"

definition schema_hook :: "pdict \<Rightarrow> hook_result option" where
  "schema_hook decision =
     (if \<not> str_in (dget decision ''action'') ACTIONS
      then Some (hook_fail ''schema'' ''action is not in the enum'')
      else if \<not> str_in (dget decision ''category'') CATEGORIES
      then Some (hook_fail ''schema'' ''category is not in the enum'')
      else if \<not> str_in (dget decision ''utility'') UTILITIES
      then Some (hook_fail ''schema'' ''utility is not in the enum'')
      else None)"

definition allowlist_hook :: "pdict \<Rightarrow> hook_result option" where
  "allowlist_hook decision =
     (let tool = gets decision ''tool_name'';
          blob = tool @ [CHR 0x0A] @ gets decision ''model_text'';
          provider = gets decision ''provider''
      in if list_ex (\<lambda>name. contains name blob) FORBIDDEN_TOOLS
         then Some (hook_fail ''allowlist'' ''forbidden tool'')
         else if tool = [] then None
         else (case map_of PROVIDER_TOOLS provider of
                 None \<Rightarrow> Some (hook_fail ''allowlist'' ''tool is not on the provider allowlist'')
               | Some allowed \<Rightarrow>
                   if tool \<notin> set allowed
                   then Some (hook_fail ''allowlist'' ''tool is not on the provider allowlist'')
                   else None))"

definition account_hook :: "pdict \<Rightarrow> hook_result option" where
  "account_hook decision =
     (if \<not> truthy (dget decision ''account_known'')
      then Some (hook_fail ''account'' ''account is not connected and included'')
      else if gets decision ''action'' \<noteq> ''undo''
              \<and> \<not> truthy (dget_or decision ''account_included'' (PBool True))
      then Some (hook_fail ''account'' ''account is not connected and included'')
      else if strip (gets decision ''account'') = []
      then Some (hook_fail ''account'' ''account is missing'')
      else None)"

definition folder_policy_hook :: "pdict \<Rightarrow> hook_result option" where
  "folder_policy_hook decision =
     (if truthy (dget decision ''move'')
         \<and> \<not> moves (gets decision ''action'') (truthy (dget decision ''folder_sort''))
      then Some (hook_fail ''folder_policy'' ''move requested while folder sorting is off'')
      else None)"

definition rag_route_hook :: "pdict \<Rightarrow> hook_result option" where
  "rag_route_hook decision =
     (let utility = dget decision ''utility'';
          payload = py_or (dget decision ''payload_kind'') (PStr ''none'')
      in if utility = PStr ''none''
         then (if payload \<noteq> PStr ''none''
               then Some (hook_fail ''rag_route'' ''utility none stores no body'')
               else Some \<lparr>hr_ok = True, hr_hook = ''rag_route'', hr_reason = [], hr_domain = None\<rparr>)
         else if utility = PStr ''financial''
         then (if payload \<noteq> PStr ''card''
               then Some (hook_fail ''rag_route'' ''a financial thread stores a card, not the message body'')
               else Some \<lparr>hr_ok = True, hr_hook = ''rag_route'', hr_reason = [], hr_domain = Some ''inbox''\<rparr>)
         else if utility = PStr ''correspondence''
         then (if payload = PStr ''raw''
               then Some (hook_fail ''rag_route'' ''correspondence stores an excerpt, not the raw body'')
               else Some \<lparr>hr_ok = True, hr_hook = ''rag_route'', hr_reason = [], hr_domain = Some ''inbox''\<rparr>)
         else Some (hook_fail ''rag_route'' ''unknown utility''))"

definition audit_hook :: "pdict \<Rightarrow> hook_result option" where
  "audit_hook decision =
     (if \<not> truthy (dget decision ''decision_id'')
      then Some (hook_fail ''audit'' ''decision row is missing'') else None)"

definition HOOKS :: "(pdict \<Rightarrow> hook_result option) list" where
  "HOOKS = [schema_hook, allowlist_hook, account_hook, folder_policy_hook, rag_route_hook, audit_hook]"

fun first_failure :: "(pdict \<Rightarrow> hook_result option) list \<Rightarrow> pdict \<Rightarrow> hook_result option" where
  \<comment> \<open>the loop of \<open>run_hooks\<close>\<close>
  "first_failure [] decision = None"
| "first_failure (h # hs) decision =
     (case h decision of
        None \<Rightarrow> first_failure hs decision
      | Some r \<Rightarrow> if hr_ok r then first_failure hs decision else Some r)"

definition run_hooks :: "pdict \<Rightarrow> bool \<Rightarrow> hook_result" where
  "run_hooks decision include_audit =
     (case first_failure (if include_audit then HOOKS else butlast HOOKS) decision of
        Some r \<Rightarrow> r
      | None \<Rightarrow>
          \<lparr>hr_ok = True, hr_hook = (if include_audit then ''audit'' else ''rag_route''), hr_reason = [],
           hr_domain = (case rag_route_hook decision of None \<Rightarrow> None | Some routed \<Rightarrow> hr_domain routed)\<rparr>)"

subsection \<open>What a passed chain guarantees\<close>

definition passes :: "hook_result option \<Rightarrow> bool" where
  "passes r = (case r of None \<Rightarrow> True | Some h \<Rightarrow> hr_ok h)"

lemma first_failure_None: "first_failure hs d = None \<longleftrightarrow> (\<forall>h \<in> set hs. passes (h d))"
  by (induction hs) (auto simp: passes_def split: option.splits)

lemma first_failure_not_ok: "first_failure hs d = Some r \<Longrightarrow> \<not> hr_ok r"
  by (induction hs) (auto split: option.splits if_splits)

lemma run_hooks_ok_iff:
  "hr_ok (run_hooks d True) \<longleftrightarrow>
     passes (schema_hook d) \<and> passes (allowlist_hook d) \<and> passes (account_hook d)
     \<and> passes (folder_policy_hook d) \<and> passes (rag_route_hook d) \<and> passes (audit_hook d)"
proof (cases "first_failure HOOKS d")
  case None
  then have "\<forall>h \<in> set HOOKS. passes (h d)" by (simp only: first_failure_None)
  with None show ?thesis by (simp add: run_hooks_def) (simp add: HOOKS_def)
next
  case (Some r)
  then have "\<exists>h \<in> set HOOKS. \<not> passes (h d)" using first_failure_None [of HOOKS d] by auto
  with Some first_failure_not_ok [OF Some] show ?thesis by (auto simp: run_hooks_def HOOKS_def)
qed

end
