(* ===== verification/Effects.thy ===== *)
theory Effects
  imports Prelude
begin

text \<open>
  Effectful Python code as state passing with exceptions: an effect takes a state and returns
  a value or a raised exception, and the state the code left behind either way. The rules say
  what such code appends to a log that its state carries.
\<close>

type_synonym ('s, 'e, 'a) eff = "'s \<Rightarrow> ('e + 'a) \<times> 's"

definition ret :: "'a \<Rightarrow> ('s, 'e, 'a) eff" where
  "ret a = (\<lambda>s. (Inr a, s))"

definition raise_exc :: "'e \<Rightarrow> ('s, 'e, 'a) eff" where
  "raise_exc e = (\<lambda>s. (Inl e, s))"

definition bind_eff :: "('s, 'e, 'a) eff \<Rightarrow> ('a \<Rightarrow> ('s, 'e, 'b) eff) \<Rightarrow> ('s, 'e, 'b) eff" where
  "bind_eff m f = (\<lambda>s. case m s of (Inl e, s') \<Rightarrow> (Inl e, s') | (Inr a, s') \<Rightarrow> f a s')"

definition then_eff :: "('s, 'e, 'a) eff \<Rightarrow> ('s, 'e, 'b) eff \<Rightarrow> ('s, 'e, 'b) eff" where
  "then_eff m n = bind_eff m (\<lambda>_. n)"

definition catch_eff :: "('s, 'e, 'a) eff \<Rightarrow> ('e \<Rightarrow> ('s, 'e, 'a) eff) \<Rightarrow> ('s, 'e, 'a) eff" where
  \<comment> \<open>\<open>try ... except\<close>\<close>
  "catch_eff m h = (\<lambda>s. case m s of (Inl e, s') \<Rightarrow> h e s' | (Inr a, s') \<Rightarrow> (Inr a, s'))"

definition try_else ::
    "('s, 'e, 'a) eff \<Rightarrow> ('e \<Rightarrow> ('s, 'e, 'b) eff) \<Rightarrow> ('a \<Rightarrow> ('s, 'e, 'b) eff) \<Rightarrow> ('s, 'e, 'b) eff" where
  \<comment> \<open>\<open>try: m except: h\<close>, then the code after the handler returned early\<close>
  "try_else m h k = (\<lambda>s. case m s of (Inl e, s') \<Rightarrow> h e s' | (Inr a, s') \<Rightarrow> k a s')"

definition gets_eff :: "('s \<Rightarrow> 'a) \<Rightarrow> ('s, 'e, 'a) eff" where
  "gets_eff f = (\<lambda>s. (Inr (f s), s))"

definition modify_eff :: "('s \<Rightarrow> 's) \<Rightarrow> ('s, 'e, unit) eff" where
  "modify_eff f = (\<lambda>s. (Inr (), f s))"

fun fold_eff :: "('x \<Rightarrow> 'a \<Rightarrow> ('s, 'e, 'a) eff) \<Rightarrow> 'x list \<Rightarrow> 'a \<Rightarrow> ('s, 'e, 'a) eff" where
  \<comment> \<open>a \<open>for\<close> loop that carries an accumulator and stops at the first exception\<close>
  "fold_eff f [] a = ret a"
| "fold_eff f (x # xs) a = bind_eff (f x a) (fold_eff f xs)"

lemmas eff_defs = ret_def raise_exc_def bind_eff_def then_eff_def catch_eff_def try_else_def gets_eff_def modify_eff_def

subsection \<open>What an effect appends to a log\<close>

definition emits :: "('s \<Rightarrow> 'ev list) \<Rightarrow> ('ev \<Rightarrow> bool) \<Rightarrow> ('s, 'e, 'a) eff \<Rightarrow> bool" where
  "emits trc ok m = (\<forall>s. \<exists>es. trc (snd (m s)) = trc s @ es \<and> list_all ok es)"

named_theorems emits_intros \<open>rules for the events an effect appends\<close>

lemma emitsD: "emits trc ok m \<Longrightarrow> m s = (r, s') \<Longrightarrow> \<exists>es. trc s' = trc s @ es \<and> list_all ok es"
  unfolding emits_def by (metis snd_conv)

lemma emits_silent: "(\<And>s. trc (snd (m s)) = trc s) \<Longrightarrow> emits trc ok m"
  by (simp add: emits_def)

lemma emits_ret [emits_intros]: "emits trc ok (ret a)"
  and emits_raise [emits_intros]: "emits trc ok (raise_exc e)"
  and emits_gets [emits_intros]: "emits trc ok (gets_eff f)"
  by (simp_all add: emits_def eff_defs)

lemma emits_bind [emits_intros]:
  assumes "emits trc ok m" "\<And>a. emits trc ok (f a)"
  shows "emits trc ok (bind_eff m f)"
  unfolding emits_def
proof
  fix s
  obtain r s' where m: "m s = (r, s')" by fastforce
  then obtain es where es: "trc s' = trc s @ es" "list_all ok es" using assms(1) by (metis emitsD)
  show "\<exists>es. trc (snd (bind_eff m f s)) = trc s @ es \<and> list_all ok es"
  proof (cases r)
    case (Inr a)
    obtain r2 s2 where f: "f a s' = (r2, s2)" by fastforce
    then obtain fs where "trc s2 = trc s' @ fs" "list_all ok fs" using assms(2) by (metis emitsD)
    with es m f Inr have "trc (snd (bind_eff m f s)) = trc s @ (es @ fs) \<and> list_all ok (es @ fs)"
      by (simp add: bind_eff_def)
    then show ?thesis by blast
  qed (use m es in \<open>auto simp: bind_eff_def\<close>)
qed

lemma emits_then [emits_intros]: "emits trc ok m \<Longrightarrow> emits trc ok n \<Longrightarrow> emits trc ok (then_eff m n)"
  by (simp add: then_eff_def emits_bind)

lemma emits_catch [emits_intros]:
  assumes "emits trc ok m" "\<And>e. emits trc ok (h e)"
  shows "emits trc ok (catch_eff m h)"
  unfolding emits_def
proof
  fix s
  obtain r s' where m: "m s = (r, s')" by fastforce
  then obtain es where es: "trc s' = trc s @ es" "list_all ok es" using assms(1) by (metis emitsD)
  show "\<exists>es. trc (snd (catch_eff m h s)) = trc s @ es \<and> list_all ok es"
  proof (cases r)
    case (Inl e)
    obtain r2 s2 where f: "h e s' = (r2, s2)" by fastforce
    then obtain fs where "trc s2 = trc s' @ fs" "list_all ok fs" using assms(2) by (metis emitsD)
    with es m f Inl have "trc (snd (catch_eff m h s)) = trc s @ (es @ fs) \<and> list_all ok (es @ fs)"
      by (simp add: catch_eff_def)
    then show ?thesis by blast
  qed (use m es in \<open>auto simp: catch_eff_def\<close>)
qed

lemma try_else_catch:
  "try_else m h k =
     bind_eff (\<lambda>s. case m s of (Inl e, s') \<Rightarrow> (Inr (Inl e), s') | (Inr a, s') \<Rightarrow> (Inr (Inr a), s'))
       (\<lambda>r. case r of Inl e \<Rightarrow> h e | Inr a \<Rightarrow> k a)"
  by (rule ext) (simp add: eff_defs split: prod.split sum.split)

lemma emits_try [emits_intros]:
  assumes "emits trc ok m" "\<And>e. emits trc ok (h e)" "\<And>a. emits trc ok (k a)"
  shows "emits trc ok (try_else m h k)"
  unfolding try_else_catch
proof (rule emits_bind)
  show "emits trc ok (\<lambda>s. case m s of (Inl e, s') \<Rightarrow> (Inr (Inl e), s') | (Inr a, s') \<Rightarrow> (Inr (Inr a), s'))"
    using assms(1) by (auto simp: emits_def split: prod.split sum.split) (metis snd_conv)+
  show "emits trc ok (case r of Inl e \<Rightarrow> h e | Inr a \<Rightarrow> k a)" for r
    using assms by (cases r) auto
qed

lemma emits_fold [emits_intros]: "(\<And>x a. x \<in> set xs \<Longrightarrow> emits trc ok (f x a)) \<Longrightarrow> emits trc ok (fold_eff f xs a)"
  by (induction xs arbitrary: a) (auto intro: emits_ret emits_bind)

lemma emits_if [emits_intros]: "(b \<Longrightarrow> emits trc ok m) \<Longrightarrow> (\<not> b \<Longrightarrow> emits trc ok n) \<Longrightarrow> emits trc ok (if b then m else n)"
  by simp

lemma emits_option [emits_intros]:
  "emits trc ok m \<Longrightarrow> (\<And>a. emits trc ok (f a)) \<Longrightarrow> emits trc ok (case x of None \<Rightarrow> m | Some a \<Rightarrow> f a)"
  by (cases x) auto

subsection \<open>What an effect keeps of a state\<close>

definition keeps :: "('s \<Rightarrow> bool) \<Rightarrow> ('s, 'e, 'a) eff \<Rightarrow> bool" where
  "keeps P m = (\<forall>s. P s \<longrightarrow> P (snd (m s)))"

named_theorems keeps_intros \<open>rules for the invariants an effect keeps\<close>

lemma keeps_ret [keeps_intros]: "keeps P (ret a)"
  and keeps_raise [keeps_intros]: "keeps P (raise_exc e)"
  and keeps_gets [keeps_intros]: "keeps P (gets_eff f)"
  by (simp_all add: keeps_def eff_defs)

lemma keeps_modify: "(\<And>s. P s \<Longrightarrow> P (f s)) \<Longrightarrow> keeps P (modify_eff f)"
  by (simp add: keeps_def eff_defs)

lemma keeps_bind [keeps_intros]: "keeps P m \<Longrightarrow> (\<And>a. keeps P (f a)) \<Longrightarrow> keeps P (bind_eff m f)"
  by (fastforce simp: keeps_def bind_eff_def split: prod.splits sum.splits)

lemma keeps_then [keeps_intros]: "keeps P m \<Longrightarrow> keeps P n \<Longrightarrow> keeps P (then_eff m n)"
  by (simp add: then_eff_def keeps_bind)

lemma keeps_catch [keeps_intros]: "keeps P m \<Longrightarrow> (\<And>e. keeps P (h e)) \<Longrightarrow> keeps P (catch_eff m h)"
  by (fastforce simp: keeps_def catch_eff_def split: prod.splits sum.splits)

lemma keeps_try [keeps_intros]:
  "keeps P m \<Longrightarrow> (\<And>e. keeps P (h e)) \<Longrightarrow> (\<And>a. keeps P (k a)) \<Longrightarrow> keeps P (try_else m h k)"
  by (fastforce simp: keeps_def try_else_def split: prod.splits sum.splits)

lemma keeps_fold [keeps_intros]: "(\<And>x a. x \<in> set xs \<Longrightarrow> keeps P (f x a)) \<Longrightarrow> keeps P (fold_eff f xs a)"
  by (induction xs arbitrary: a) (auto intro: keeps_ret keeps_bind)

lemma keeps_if [keeps_intros]: "(b \<Longrightarrow> keeps P m) \<Longrightarrow> (\<not> b \<Longrightarrow> keeps P n) \<Longrightarrow> keeps P (if b then m else n)"
  by simp

lemma keeps_option [keeps_intros]:
  "keeps P m \<Longrightarrow> (\<And>a. keeps P (f a)) \<Longrightarrow> keeps P (case x of None \<Rightarrow> m | Some a \<Rightarrow> f a)"
  by (cases x) auto

lemma keeps_sum [keeps_intros]:
  "(\<And>e. keeps P (f e)) \<Longrightarrow> (\<And>a. keeps P (g a)) \<Longrightarrow> keeps P (case x of Inl e \<Rightarrow> f e | Inr a \<Rightarrow> g a)"
  by (cases x) auto

lemma keeps_prod [keeps_intros]: "(\<And>a b. keeps P (f a b)) \<Longrightarrow> keeps P (case x of (a, b) \<Rightarrow> f a b)"
  by (cases x) auto

text \<open>
  The interface of a gate: every primitive call of a client goes through it, and what it logs
  satisfies a policy. Whatever loop a client builds of gated calls then satisfies it too.
\<close>

locale gate =
  fixes trc :: "'s \<Rightarrow> 'ev list" and ok :: "'ev \<Rightarrow> bool" and call :: "'c \<Rightarrow> ('s, 'e, 'r) eff"
  assumes gated: "emits trc ok (call c)"
begin

lemma gated_bind: "(\<And>r. emits trc ok (f r)) \<Longrightarrow> emits trc ok (bind_eff (call c) f)"
  by (rule emits_bind [OF gated])

lemma gated_loop: "(\<And>x a r. emits trc ok (k x a r)) \<Longrightarrow>
    emits trc ok (fold_eff (\<lambda>x a. bind_eff (call (c x a)) (k x a)) xs a0)"
  by (intro emits_fold gated_bind)

end

subsection \<open>Runs that return\<close>

lemma bind_ret: "bind_eff (ret a) f = f a"
  by (simp add: bind_eff_def ret_def)

lemma bind_ok: "bind_eff m f w = (Inr b, w') \<longleftrightarrow> (\<exists>a w1. m w = (Inr a, w1) \<and> f a w1 = (Inr b, w'))"
  by (auto simp: bind_eff_def split: prod.splits sum.splits)

lemma then_ok: "then_eff m n w = (Inr b, w') \<longleftrightarrow> (\<exists>a w1. m w = (Inr a, w1) \<and> n w1 = (Inr b, w'))"
  by (simp add: then_eff_def bind_ok)

lemma try_ok: "try_else m h k w = (Inr b, w') \<longleftrightarrow>
    (\<exists>a w1. m w = (Inr a, w1) \<and> k a w1 = (Inr b, w')) \<or> (\<exists>e w1. m w = (Inl e, w1) \<and> h e w1 = (Inr b, w'))"
  by (auto simp: try_else_def split: prod.splits sum.splits)

lemma ret_ok: "ret a w = (Inr b, w') \<longleftrightarrow> b = a \<and> w' = w"
  by (auto simp: ret_def)

lemma raise_not_ok: "raise_exc e w = (Inr b, w') \<longleftrightarrow> False"
  by (simp add: raise_exc_def)

lemmas ok_simps = bind_ok then_ok try_ok ret_ok raise_not_ok

subsection \<open>What a run that returns leaves behind\<close>

definition returns :: "('s, 'e, 'a) eff \<Rightarrow> 's \<Rightarrow> ('a \<Rightarrow> 's \<Rightarrow> bool) \<Rightarrow> bool" where
  \<comment> \<open>the effect returns, and its value and state satisfy the predicate\<close>
  "returns m s P = (case m s of (Inl e, s') \<Rightarrow> False | (Inr a, s') \<Rightarrow> P a s')"

named_theorems returns_simps \<open>what sequencing returns\<close>
named_theorems returns_intros \<open>rules for runs that return\<close>

lemma returns_ret [returns_simps]: "returns (ret a) s P = P a s"
  and returns_raise [returns_simps]: "returns (raise_exc e) s P = False"
  and returns_gets [returns_simps]: "returns (gets_eff f) s P = P (f s) s"
  by (simp_all add: returns_def eff_defs)

lemma returns_bind [returns_simps]: "returns (bind_eff m f) s P = returns m s (\<lambda>a s'. returns (f a) s' P)"
  by (simp add: returns_def bind_eff_def split: prod.split sum.split)

lemma returns_then [returns_simps]: "returns (then_eff m n) s P = returns m s (\<lambda>_ s'. returns n s' P)"
  by (simp add: then_eff_def returns_bind)

lemma returns_catch: "returns m s P \<Longrightarrow> returns (catch_eff m h) s P"
  by (auto simp: returns_def catch_eff_def split: prod.splits sum.splits)

lemma returns_try: "returns m s (\<lambda>a s'. returns (k a) s' P) \<Longrightarrow> returns (try_else m h k) s P"
  by (auto simp: returns_def try_else_def split: prod.splits sum.splits)

lemma returns_mono: "returns m s P \<Longrightarrow> (\<And>a s'. P a s' \<Longrightarrow> Q a s') \<Longrightarrow> returns m s Q"
  by (auto simp: returns_def split: prod.splits sum.splits)

lemma returnsI: "m s = (Inr a, s') \<Longrightarrow> P a s' \<Longrightarrow> returns m s P"
  by (simp add: returns_def)

lemma returnsE: assumes "returns m s P" obtains a s' where "m s = (Inr a, s')" "P a s'"
  using assms by (auto simp: returns_def split: prod.splits sum.splits)

lemma returns_conj: "returns m s P \<Longrightarrow> returns m s Q \<Longrightarrow> returns m s (\<lambda>a s'. P a s' \<and> Q a s')"
  by (auto simp: returns_def split: prod.splits sum.splits)

lemma returns_fold:
  "I xs a s \<Longrightarrow> (\<And>x xs a s. I (x # xs) a s \<Longrightarrow> returns (f x a) s (I xs)) \<Longrightarrow> returns (fold_eff f xs a) s (I [])"
proof (induction xs arbitrary: a s)
  case (Cons x xs)
  have "returns (f x a) s (I xs)" by (rule Cons.prems(2) [OF Cons.prems(1)])
  then show ?case
    by (auto simp: returns_bind elim!: returns_mono intro!: Cons.IH Cons.prems(2))
qed (simp add: returns_ret)

end
