(* ===== verification/InboxExecutor.thy ===== *)
theory InboxExecutor
  imports InboxApply InboxHooks InboxLedger Effects
begin

text \<open>
  The executor \<^verbatim>\<open>app/inbox/executor.py\<close>. The world holds the ledger (if one was passed),
  the calls that left the process, and a counter for clock readings and fresh ids. The mail
  siblings are parameters: a reply may depend on every earlier call. Text is read as its UTF-8
  bytes.
\<close>

subsection \<open>World and environment\<close>

datatype event = EvTool string string pdict | EvApple "pyval list"

datatype tool_reply =
    Reply string
  | RaisedApply string "pdict list"
  | Raised string

record env =
  actions_flag :: string
  google_email :: string
  clock :: "nat \<Rightarrow> string"
  uuid :: "nat \<Rightarrow> string"
  call_tool :: "event list \<Rightarrow> string \<Rightarrow> string \<Rightarrow> pdict \<Rightarrow> tool_reply"
  apple :: "event list \<Rightarrow> pyval list \<Rightarrow> int \<times> pdict"

record world =
  w_ledger :: "ledger option"
  w_trace :: "event list"
  w_ticks :: nat

datatype exc = ApplyError string "pdict list" | Crash string

type_synonym 'a act = "(world, exc, 'a) eff"

definition on_ledger :: "(ledger \<Rightarrow> ledger) \<Rightarrow> unit act" where
  "on_ledger f = modify_eff (\<lambda>w. w\<lparr>w_ledger := map_option f (w_ledger w)\<rparr>)"

definition APPLE_EXIT_NOT_RUNNING :: int where "APPLE_EXIT_NOT_RUNNING = 75"
definition APPLE_EXIT_AUTOMATION_DENIED :: int where "APPLE_EXIT_AUTOMATION_DENIED = 78"

definition REFUSED_OUTLOOK :: "string list" where
  "REFUSED_OUTLOOK = [''deleteditems'', ''junkemail'']"

definition PAYLOAD_KIND :: "(string \<times> string) list" where
  "PAYLOAD_KIND = [(''none'', ''none''), (''correspondence'', ''excerpt''), (''financial'', ''card'')]"

definition inbox_actions_enabled :: "env \<Rightarrow> bool" where
  "inbox_actions_enabled env = (lower (strip (actions_flag env)) \<in> {''true'', ''1''})"

subsection \<open>Results\<close>

record apply_result =
  ar_ok :: bool
  ar_status :: string
  ar_calls :: "pdict list"
  ar_reason :: string
  ar_hook :: string

definition call_dict :: "string \<Rightarrow> pdict \<Rightarrow> string \<Rightarrow> pdict" where
  "call_dict t args text =
     [(''tool'', PStr t), (''arguments'', PDict args)] @ (if text \<noteq> [] then [(''result'', PStr text)] else [])"

definition result :: "bool \<Rightarrow> string \<Rightarrow> pdict list \<Rightarrow> string \<Rightarrow> string \<Rightarrow> apply_result" where
  "result ok status calls reason hook =
     \<lparr>ar_ok = ok, ar_status = status, ar_calls = calls, ar_reason = reason, ar_hook = hook\<rparr>"

definition result_dict :: "apply_result \<Rightarrow> pdict" where
  \<comment> \<open>the dictionary \<open>_result\<close> returns; an empty reason or hook is left out\<close>
  "result_dict r =
     [(''ok'', PBool (ar_ok r)), (''status'', PStr (ar_status r)), (''calls'', PList (map PDict (ar_calls r)))]
     @ (if ar_reason r \<noteq> [] then [(''reason'', PStr (ar_reason r))] else [])
     @ (if ar_hook r \<noteq> [] then [(''hook'', PStr (ar_hook r))] else [])"

subsection \<open>Calls that leave the process\<close>

definition log_event :: "event \<Rightarrow> world \<Rightarrow> world" where
  "log_event e w = w\<lparr>w_trace := w_trace w @ [e]\<rparr>"

definition tool :: "env \<Rightarrow> string \<Rightarrow> string \<Rightarrow> pdict \<Rightarrow> pdict list \<Rightarrow> string act" where
  "tool env provider t args performed =
     (if t \<in> set FORBIDDEN_TOOLS \<or> t \<notin> set (provider_tools provider)
      then raise_exc (ApplyError ''tool is not on the provider allowlist'' performed)
      else (\<lambda>w. let w' = log_event (EvTool provider t args) w
                in case call_tool env (w_trace w) provider t args of
                     Reply s \<Rightarrow> (Inr s, w')
                   | RaisedApply reason calls \<Rightarrow> (Inl (ApplyError reason calls), w')
                   | Raised s \<Rightarrow> (Inl (ApplyError (if s = [] then t else s) performed), w')))"

definition run_apple :: "env \<Rightarrow> pyval list \<Rightarrow> (int \<times> pdict) act" where
  "run_apple env argv = (\<lambda>w. (Inr (apple env (w_trace w) argv), log_event (EvApple argv) w))"

subsection \<open>Gmail\<close>

type_synonym label_map = "(string \<times> string) list"

definition BULLET :: string where
  \<comment> \<open>the bullet character in UTF-8\<close>
  "BULLET = [CHR 0xE2, CHR 0x80, CHR 0xA2]"

definition id_tail :: "string \<Rightarrow> (string \<times> string) option" where
  \<comment> \<open>one or more spaces, then \<open>(ID:\<close>, spaces, the id up to a closing parenthesis\<close>
  "id_tail s =
     (let r0 = dropWhile py_isspace s
      in if s = [] \<or> \<not> py_isspace (hd s) \<or> \<not> starts_with ''(ID:'' r0 then None
         else
           let r = drop 4 r0; ws = takeWhile py_isspace r; rest = dropWhile py_isspace r;
               body = takeWhile (\<lambda>c. c \<noteq> CHR '')'') rest; after = drop (length body) rest
           in if after = [] then None
              else if body \<noteq> [] then Some (body, tl after)
              else if ws \<noteq> [] then Some ([last ws], tl after)
              else None)"

fun lazy_name :: "string \<Rightarrow> string \<Rightarrow> (string \<times> string \<times> string) option" where
  "lazy_name acc [] = None"
| "lazy_name acc (c # cs) =
     (if c = CHR 0x0A then None
      else (case id_tail cs of
              Some (lid, rest) \<Rightarrow> Some (rev (c # acc), lid, rest)
            | None \<Rightarrow> lazy_name (c # acc) cs))"

definition label_line :: "string \<Rightarrow> (string \<times> string \<times> string) option" where
  \<comment> \<open>\<open>_LABEL_LINE\<close> at the start of the text, the space run backtracking from its longest\<close>
  "label_line s =
     (if \<not> starts_with BULLET s then None
      else
        let r = drop 3 s; n = length (takeWhile py_isspace r)
        in first_some (\<lambda>k. lazy_name [] (drop k r)) (rev [1..<n + 1]))"

function label_lines :: "string \<Rightarrow> (string \<times> string) list" where
  \<comment> \<open>\<open>_LABEL_LINE.findall(text)\<close>\<close>
  "label_lines s =
     (case s of
        [] \<Rightarrow> []
      | c # cs \<Rightarrow>
          (case label_line s of
             Some (name, lid, rest) \<Rightarrow> (name, lid) # label_lines (if length rest < length s then rest else cs)
           | None \<Rightarrow> label_lines cs))"
  by pat_completeness auto
termination
  by (relation "measure length") auto

declare label_lines.simps [simp del]

definition gmail_label_ids :: "env \<Rightarrow> string \<Rightarrow> pdict list \<Rightarrow> (label_map \<times> pdict list) act" where
  "gmail_label_ids env account performed =
     (let args = [(''user_google_email'', PStr account)]
      in bind_eff (tool env ''gmail'' ''list_gmail_labels'' args performed)
           (\<lambda>text. ret (fold (\<lambda>(n, i). AList.update n i) (label_lines text) [],
                        performed @ [call_dict ''list_gmail_labels'' args text])))"

definition label_id :: "string \<Rightarrow> label_map \<Rightarrow> pdict list \<Rightarrow> string act" where
  "label_id name known performed =
     (if name \<in> {''INBOX'', ''UNREAD''} then ret name
      else (let i = tab known name []
            in if i = [] then raise_exc (ApplyError (''label was not created: '' @ name) performed) else ret i))"

definition names_at :: "pdict \<Rightarrow> string \<Rightarrow> string list" where
  \<comment> \<open>\<open>arguments.get(key) or []\<close> of a planned call, whose lists hold names\<close>
  "names_at args key = (case dget args key of PList xs \<Rightarrow> map py_str xs | _ \<Rightarrow> [])"

definition resolve_key :: "label_map \<Rightarrow> pdict list \<Rightarrow> pdict \<Rightarrow> string \<Rightarrow> pdict \<Rightarrow> pdict act" where
  "resolve_key known performed args key resolved =
     (let names = names_at args key
      in if names = [] then ret resolved
         else bind_eff (fold_eff (\<lambda>n acc. bind_eff (label_id n known performed) (\<lambda>i. ret (acc @ [i]))) names [])
                (\<lambda>ids. ret (dset resolved key (strs ids))))"

definition with_label_ids :: "pdict \<Rightarrow> label_map \<Rightarrow> pdict list \<Rightarrow> pdict act" where
  "with_label_ids args known performed =
     fold_eff (resolve_key known performed args) [''add_label_ids'', ''remove_label_ids''] args"

fun created_name :: "string \<Rightarrow> string option" where
  \<comment> \<open>\<open>_CREATED_NAME.search(text)\<close>, its group\<close>
  "created_name [] = None"
| "created_name (c # cs) =
     (case (if starts_with ''Name:'' (c # cs) then rest_of_line (drop 5 (c # cs)) else None) of
        Some (g, _) \<Rightarrow> Some g
      | None \<Rightarrow> created_name cs)"

fun created_id :: "string \<Rightarrow> string option" where
  \<comment> \<open>\<open>_CREATED_ID.search(text)\<close>, its group\<close>
  "created_id [] = None"
| "created_id (c # cs) =
     (if starts_with ''ID:'' (c # cs)
      then (let g = takeWhile (\<lambda>x. \<not> py_isspace x) (dropWhile py_isspace (drop 3 (c # cs)))
            in if g = [] then created_id cs else Some g)
      else created_id cs)"

definition ensure_label ::
    "env \<Rightarrow> pyval \<Rightarrow> string \<Rightarrow> label_map \<times> pdict list \<Rightarrow> (label_map \<times> pdict list) act" where
  \<comment> \<open>the body of the loop of \<open>_ensure_gmail_labels\<close>\<close>
  "ensure_label env account name st =
     (let (known, performed) = st
      in if name \<in> {''INBOX'', ''UNREAD''} \<or> map_of known name \<noteq> None then ret st
         else
           let args = [(''user_google_email'', account), (''action'', PStr ''create''), (''name'', PStr name)]
           in bind_eff (tool env ''gmail'' ''manage_gmail_label'' args performed)
                (\<lambda>created.
                   let performed' = performed @ [call_dict ''manage_gmail_label'' args created]
                   in case (created_name created, created_id created) of
                        (Some n, Some i) \<Rightarrow> ret (AList.update (strip n) i known, performed')
                      | _ \<Rightarrow> raise_exc (ApplyError ''label create did not return an id'' performed')))"

definition ensure_gmail_labels ::
    "env \<Rightarrow> pdict \<Rightarrow> label_map \<times> pdict list \<Rightarrow> (label_map \<times> pdict list) act" where
  "ensure_gmail_labels env args st =
     fold_eff (ensure_label env (dget_or args ''user_google_email'' (PStr [])))
       (names_at args ''add_label_ids'') st"

definition gmail_send ::
    "env \<Rightarrow> string \<Rightarrow> pdict \<Rightarrow> label_map option \<times> pdict list \<Rightarrow> (label_map option \<times> pdict list) act" where
  \<comment> \<open>the end of the loop body of \<open>_perform_gmail\<close>\<close>
  "gmail_send env t args st =
     (let (labels, performed) = st
      in bind_eff (tool env ''gmail'' t args performed)
           (\<lambda>text.
              let thread_id = gets args ''thread_id''
              in if t = ''draft_gmail_message'' \<and> (thread_id = [] \<or> \<not> contains thread_id text)
                 then raise_exc (ApplyError ''draft thread was not confirmed'' performed)
                 else ret (labels, performed @ [call_dict t args text])))"

definition gmail_step ::
    "env \<Rightarrow> planned_call \<Rightarrow> label_map option \<times> pdict list \<Rightarrow> (label_map option \<times> pdict list) act" where
  \<comment> \<open>the body of the loop of \<open>_perform_gmail\<close>\<close>
  "gmail_step env call st =
     (let (labels, performed) = st; args = pc_args call
      in if pc_tool call \<noteq> ''batch_modify_gmail_message_labels'' then gmail_send env (pc_tool call) args st
         else
           bind_eff (case labels of
                       Some known \<Rightarrow> ret (known, performed)
                     | None \<Rightarrow> gmail_label_ids env (gets args ''user_google_email'') performed)
             (\<lambda>st1. bind_eff (ensure_gmail_labels env args st1)
                (\<lambda>(known, performed'). bind_eff (with_label_ids args known performed')
                   (\<lambda>args'. gmail_send env (pc_tool call) args' (Some known, performed')))))"

definition perform_gmail :: "env \<Rightarrow> apply_plan \<Rightarrow> (pdict list) act" where
  "perform_gmail env plan =
     bind_eff (fold_eff (gmail_step env) (ap_calls plan) (None, [])) (\<lambda>(_, performed). ret performed)"

subsection \<open>Outlook\<close>

definition graph_rows :: "string \<Rightarrow> pdict list" where
  "graph_rows text =
     (case json_loads text of
        Some (PList xs) \<Rightarrow> List.map_filter as_dict xs
      | Some (PDict payload) \<Rightarrow>
          (case dget payload ''value'' of
             PList vs \<Rightarrow> List.map_filter as_dict vs
           | _ \<Rightarrow> if truthy (dget payload ''id'') then [payload] else [])
      | _ \<Rightarrow> [])"

definition is_move :: "pdict \<Rightarrow> bool" where
  "is_move call = (dget call ''tool'' = PStr ''move-mail-message'')"

fun ids_after :: "string list \<Rightarrow> pdict list \<Rightarrow> string list" where
  \<comment> \<open>the loop of \<open>_outlook_ids_after\<close>\<close>
  "ids_after ids [] = ids"
| "ids_after ids (call # calls) =
     (if \<not> is_move call then ids_after ids calls
      else
        let after = (case graph_rows (gets call ''result'') of [] \<Rightarrow> [] | row # _ \<Rightarrow> gets row ''id'')
        in if after = [] then [] else ids_after (ids @ [after]) calls)"

definition outlook_ids_after :: "pdict list \<Rightarrow> string list" where
  "outlook_ids_after performed = ids_after [] performed"

definition outlook_folder ::
    "env \<Rightarrow> string \<Rightarrow> string option \<Rightarrow> pdict list \<Rightarrow> (string \<times> pdict list) act" where
  "outlook_folder env name parent performed =
     (let t = (case parent of None \<Rightarrow> ''list-mail-folders'' | Some _ \<Rightarrow> ''list-mail-child-folders'');
          list_args = (case parent of None \<Rightarrow> [] | Some p \<Rightarrow> [(''mailFolderId'', PStr p)]);
          create_tool = (case parent of None \<Rightarrow> ''create-mail-folder'' | Some _ \<Rightarrow> ''create-mail-child-folder'');
          create_args = list_args @ [(''body'', PDict [(''displayName'', PStr name)])]
      in bind_eff (tool env ''outlook'' t list_args performed)
           (\<lambda>listed.
              let performed1 = performed @ [call_dict t list_args listed]
              in case find (\<lambda>row. dget row ''displayName'' = PStr name \<and> truthy (dget row ''id'')) (graph_rows listed) of
                   Some row \<Rightarrow> ret (py_str (dget row ''id''), performed1)
                 | None \<Rightarrow>
                     bind_eff (tool env ''outlook'' create_tool create_args performed1)
                       (\<lambda>created.
                          let performed2 = performed1 @ [call_dict create_tool create_args created]
                          in case find (\<lambda>row. truthy (dget row ''id'')) (graph_rows created) of
                               Some row \<Rightarrow> ret (py_str (dget row ''id''), performed2)
                             | None \<Rightarrow> raise_exc (ApplyError ''outlook folder was not created'' performed2))))"

definition resolve_outlook_destination ::
    "env \<Rightarrow> pdict \<Rightarrow> pdict list \<Rightarrow> (pdict \<times> pdict list) act" where
  "resolve_outlook_destination env args performed =
     (let body = (case dget args ''body'' of PDict b \<Rightarrow> b | _ \<Rightarrow> []);
          destination = gets body ''destinationId'';
          with_id = (\<lambda>i. dset args ''body'' (PDict (dset body ''destinationId'' (PStr i))))
      in if casefold destination \<in> set REFUSED_OUTLOOK
         then raise_exc (ApplyError ''junk and trash are not destinations'' performed)
         else if casefold destination \<in> set OUTLOOK_WELL_KNOWN
         then ret (with_id (casefold destination), performed)
         else (case find_sep ''/'' destination of
                 None \<Rightarrow> raise_exc (ApplyError ''outlook folder is not a Cerid mailbox'' performed)
               | Some (parent, child) \<Rightarrow>
                   bind_eff (outlook_folder env parent None performed)
                     (\<lambda>(parent_id, performed1). bind_eff (outlook_folder env child (Some parent_id) performed1)
                        (\<lambda>(child_id, performed2). ret (with_id child_id, performed2)))))"

definition outlook_step :: "env \<Rightarrow> planned_call \<Rightarrow> pdict list \<Rightarrow> (pdict list) act" where
  \<comment> \<open>the body of the loop of \<open>_perform_outlook\<close>\<close>
  "outlook_step env call performed =
     bind_eff (if pc_tool call = ''move-mail-message''
               then resolve_outlook_destination env (pc_args call) performed
               else ret (pc_args call, performed))
       (\<lambda>(args, performed1). bind_eff (tool env ''outlook'' (pc_tool call) args performed1)
          (\<lambda>text. ret (performed1 @ [call_dict (pc_tool call) args text])))"

definition perform_outlook :: "env \<Rightarrow> apply_plan \<Rightarrow> (pdict list) act" where
  "perform_outlook env plan = fold_eff (outlook_step env) (ap_calls plan) []"

subsection \<open>Apple Mail\<close>

definition py_iter :: "pyval \<Rightarrow> pyval list act" where
  \<comment> \<open>\<open>list(value)\<close>\<close>
  "py_iter v =
     (case v of
        PList xs \<Rightarrow> ret xs
      | PStr s \<Rightarrow> ret (map (\<lambda>c. PStr [c]) s)
      | PDict d \<Rightarrow> ret (map (\<lambda>kv. PStr (fst kv)) d)
      | _ \<Rightarrow> raise_exc (Crash ''object is not iterable''))"

fun flush_commands :: "env \<Rightarrow> pyval list \<Rightarrow> bool act" where
  \<comment> \<open>the inner loop of \<open>_flush_outbox\<close>; \<open>False\<close> when Mail is not running\<close>
  "flush_commands env [] = ret True"
| "flush_commands env (argv # rest) =
     bind_eff (py_iter argv) (\<lambda>xs. bind_eff (run_apple env xs)
       (\<lambda>(code, payload).
          if code = APPLE_EXIT_NOT_RUNNING then ret False
          else if code = APPLE_EXIT_AUTOMATION_DENIED then raise_exc (ApplyError ''automation_denied'' [])
          else if code \<noteq> 0 \<or> \<not> truthy (dget_or payload ''ok'' (PBool True))
          then raise_exc (ApplyError (gets_or payload ''error'' ''queued apply failed'') [])
          else flush_commands env rest))"

fun flush_rows :: "env \<Rightarrow> outbox_row list \<Rightarrow> unit act" where
  "flush_rows env [] = ret ()"
| "flush_rows env (row # rows) =
     (let command = outbox_command row
      in if dget command ''provider'' \<noteq> PStr ''apple_mail'' then flush_rows env rows
         else bind_eff (py_iter (py_or (dget command ''commands'') (PList [])))
                (\<lambda>cmds. bind_eff (flush_commands env cmds)
                   (\<lambda>done. if \<not> done then ret ()
                           else then_eff (on_ledger (delete_outbox (ob_id row))) (flush_rows env rows))))"

definition flush_outbox :: "env \<Rightarrow> unit act" where
  "flush_outbox env =
     bind_eff (gets_eff w_ledger)
       (\<lambda>l. case l of None \<Rightarrow> ret () | Some ledger \<Rightarrow> flush_rows env (list_outbox ledger))"

definition queue_command :: "string list list \<Rightarrow> pdict" where
  "queue_command commands =
     [(''provider'', PStr ''apple_mail''), (''commands'', PList (map strs commands))]"

definition queue :: "env \<Rightarrow> pdict \<Rightarrow> string list list \<Rightarrow> unit act" where
  "queue env decision commands =
     (\<lambda>w. case w_ledger w of
             None \<Rightarrow> (Inl (ApplyError ''mail_not_running'' []), w)
           | Some ledger \<Rightarrow>
               if \<not> truthy (dget decision ''decision_id'') then (Inl (ApplyError ''mail_not_running'' []), w)
               else (case enqueue_outbox (clock env (w_ticks w)) (uuid env (w_ticks w))
                            (py_str (dget decision ''decision_id'')) (queue_command commands) ledger of
                       Inl _ \<Rightarrow> (Inl (Crash ''ledger error''), w\<lparr>w_ticks := Suc (w_ticks w)\<rparr>)
                     | Inr (_, ledger') \<Rightarrow>
                         (Inr (), w\<lparr>w_ledger := Some ledger', w_ticks := Suc (w_ticks w)\<rparr>)))"

definition argv_of :: "planned_call \<Rightarrow> string list" where
  "argv_of call = names_at (pc_args call) ''argv''"

type_synonym performed_status = "pdict list \<times> string \<times> string"

fun apple_commands ::
    "env \<Rightarrow> pdict \<Rightarrow> string list list \<Rightarrow> string list list \<Rightarrow> pdict list \<Rightarrow> performed_status act" where
  \<comment> \<open>the loop of \<open>_perform_apple\<close> over what is left of \<open>commands\<close>\<close>
  "apple_commands env decision commands [] performed = ret (performed, ''applied'', [])"
| "apple_commands env decision commands (argv # rest) performed =
     bind_eff (run_apple env (map PStr argv))
       (\<lambda>(code, payload).
          if code = APPLE_EXIT_NOT_RUNNING
          then then_eff (queue env decision commands) (ret (performed, ''queued'', ''mail_not_running''))
          else if code = APPLE_EXIT_AUTOMATION_DENIED then raise_exc (ApplyError ''automation_denied'' performed)
          else if code \<noteq> 0 \<or> \<not> truthy (dget_or payload ''ok'' (PBool True))
          then raise_exc (ApplyError (gets_or payload ''error'' (''ceridmail exited '' @ show_int code)) performed)
          else apple_commands env decision commands rest
                 (performed @ [call_dict (hd argv) [(''argv'', strs argv)] (json_dumps (PDict payload))]))"

definition apple_find :: "env \<Rightarrow> pdict \<Rightarrow> string list list \<Rightarrow> performed_status act" where
  \<comment> \<open>locate the message first, remember its mailbox, then run the commands\<close>
  "apple_find env decision commands =
     (let find_argv = [''find'', hd commands ! 1]
      in bind_eff (run_apple env (map PStr find_argv))
           (\<lambda>(code, payload).
              if code = APPLE_EXIT_NOT_RUNNING
              then then_eff (queue env decision commands)
                     (ret ([call_dict ''find'' [(''argv'', strs find_argv)] []], ''queued'', ''mail_not_running''))
              else if code = APPLE_EXIT_AUTOMATION_DENIED then raise_exc (ApplyError ''automation_denied'' [])
              else if code \<noteq> 0 \<or> \<not> truthy (dget payload ''ok'')
              then raise_exc (ApplyError (gets_or payload ''error'' ''find failed'') [])
              else
                let mailbox = gets payload ''mailbox''
                in then_eff
                     (if mailbox \<noteq> [] \<and> truthy (dget decision ''decision_id'')
                      then on_ledger (set_mailbox_before (py_str (dget decision ''decision_id'')) mailbox)
                      else ret ())
                     (apple_commands env decision commands commands [])))"

definition perform_apple :: "env \<Rightarrow> pdict \<Rightarrow> apply_plan \<Rightarrow> performed_status act" where
  "perform_apple env decision plan =
     (let commands = map argv_of (ap_calls plan);
          mailbox = gets2 decision ''mailbox_before'' ''mailbox''
      in then_eff (flush_outbox env)
           (if commands \<noteq> [] \<and> mailbox = [] then apple_find env decision commands
            else apple_commands env decision commands commands []))"

subsection \<open>Before a call: preparation and refusals\<close>

definition setdefault :: "pdict \<Rightarrow> string \<Rightarrow> pyval \<Rightarrow> pdict" where
  "setdefault d k v = (if has_key d k then d else dset d k v)"

definition row_included :: "pdict option \<Rightarrow> bool" where
  \<comment> \<open>\<open>bool(row and row.get("included", True) and not row.get("removed"))\<close>\<close>
  "row_included row =
     (case row of None \<Rightarrow> False
      | Some r \<Rightarrow> r \<noteq> [] \<and> truthy (dget_or r ''included'' (PBool True)) \<and> \<not> truthy (dget r ''removed''))"

definition prepare_account :: "ledger option \<Rightarrow> string \<Rightarrow> string \<Rightarrow> pdict \<Rightarrow> pdict" where
  "prepare_account ledger provider account d =
     (case ledger of
        None \<Rightarrow> d
      | Some l \<Rightarrow>
          if account = [] \<or> has_key d ''account_known'' then d
          else
            let row = get_account provider account l;
                d1 = dset d ''account_known'' (PBool (row \<noteq> None));
                d2 = dset d1 ''account_included'' (PBool (row_included row))
            in (case row of
                  None \<Rightarrow> d2
                | Some r \<Rightarrow> if has_key d2 ''folder_sort'' then d2
                            else dset d2 ''folder_sort'' (dget r ''folder_sort'')))"

definition prepare :: "ledger option \<Rightarrow> pdict \<Rightarrow> pdict" where
  "prepare ledger decision =
     (let provider = gets2 decision ''provider'' ''source'';
          d1 = dset decision ''provider'' (PStr provider);
          account = strip (gets2 d1 ''account'' ''account_address'');
          d2 = (if account \<noteq> [] then dset d1 ''account'' (PStr account) else d1);
          d3 = prepare_account ledger provider account d2;
          utility = gets_or d3 ''utility'' ''none'';
          d4 = setdefault d3 ''utility'' (PStr utility)
      in setdefault d4 ''payload_kind'' (PStr (tab PAYLOAD_KIND utility ''none'')))"

definition pending_account :: "pdict \<Rightarrow> bool" where
  "pending_account decision =
     (let configured = casefold (strip (gets decision ''configured_address''));
          account = casefold (strip (gets decision ''account''))
      in configured \<noteq> [] \<and> account \<noteq> [] \<and> configured \<noteq> account)"

definition hook_decision :: "pdict \<Rightarrow> apply_plan \<Rightarrow> pdict" where
  "hook_decision decision plan =
     (let hooked = dset decision ''move'' (PBool (ap_move plan))
      in if ap_calls plan \<noteq> [] then dset hooked ''tool_name'' (PStr (pc_tool (hd (ap_calls plan)))) else hooked)"

definition banned_mailbox :: "string \<Rightarrow> bool" where
  "banned_mailbox mailbox =
     (casefold (strip mailbox)
        \<in> {''junk'', ''junk email'', ''spam'', ''trash'', ''deleted messages'', ''deleted items''})"

definition refused_call :: "string \<Rightarrow> planned_call \<Rightarrow> string" where
  \<comment> \<open>the body of the loop of \<open>_refused_tool\<close>\<close>
  "refused_call provider call =
     (let destination = (case dget (pc_args call) ''body'' of PDict body \<Rightarrow> gets body ''destinationId'' | _ \<Rightarrow> [])
      in if pc_tool call \<in> set FORBIDDEN_TOOLS \<or> pc_tool call \<notin> set (provider_tools provider)
         then ''tool is not on the provider allowlist''
         else if casefold destination \<in> set REFUSED_OUTLOOK then ''junk and trash are not destinations''
         else (case dget (pc_args call) ''argv'' of
                 PList argv \<Rightarrow>
                   if argv \<noteq> [] \<and> hd argv = PStr ''move'' \<and> 3 \<le> length argv \<and> banned_mailbox (py_str (last argv))
                   then ''junk and trash are not destinations'' else []
               | _ \<Rightarrow> []))"

definition refused_tool :: "string \<Rightarrow> apply_plan \<Rightarrow> string" where
  "refused_tool provider plan =
     (case find (\<lambda>c. refused_call provider c \<noteq> []) (ap_calls plan) of
        None \<Rightarrow> [] | Some c \<Rightarrow> refused_call provider c)"

definition call_failure :: "pdict \<Rightarrow> string \<Rightarrow> planned_call \<Rightarrow> hook_result option" where
  \<comment> \<open>the allowlist hook on one planned call\<close>
  "call_failure hooked provider call =
     allowlist_hook (dset (dset hooked ''tool_name'' (PStr (pc_tool call))) ''provider'' (PStr provider))"

subsection \<open>Recording\<close>

definition store_cursor :: "pdict \<Rightarrow> unit act" where
  "store_cursor decision =
     (let cursor = dget decision ''sync_cursor''
      in if \<not> truthy cursor then ret ()
         else on_ledger (set_sync_cursor (gets decision ''provider'') (gets decision ''account'') (py_str cursor)))"

definition keep_text :: "pdict \<Rightarrow> string \<Rightarrow> pdict \<Rightarrow> pdict" where
  "keep_text decision key kept =
     (let v = strip (gets decision key) in if v \<noteq> [] \<and> \<not> has_key kept key then dset kept key (PStr v) else kept)"

definition kept_receipt :: "pdict \<Rightarrow> pdict \<Rightarrow> pdict" where
  "kept_receipt decision receipt =
     keep_text decision ''classification_reason'' (keep_text decision ''subject'' (keep_text decision ''draft_body'' receipt))"

definition record_outcome :: "pdict \<Rightarrow> string \<Rightarrow> pdict \<Rightarrow> unit act" where
  \<comment> \<open>\<open>_record\<close>\<close>
  "record_outcome decision status receipt =
     (if \<not> truthy (dget decision ''decision_id'') then ret ()
      else on_ledger (record_decision (py_str (dget decision ''decision_id'')) status (kept_receipt decision receipt)))"

subsection \<open>apply_decision\<close>

definition perform :: "env \<Rightarrow> string \<Rightarrow> pdict \<Rightarrow> apply_plan \<Rightarrow> performed_status act" where
  "perform env provider decision plan =
     (if provider = ''apple_mail'' then perform_apple env decision plan
      else if provider = ''gmail''
      then bind_eff (perform_gmail env plan) (\<lambda>performed. ret (performed, ''applied'', []))
      else bind_eff (perform_outlook env plan) (\<lambda>performed. ret (performed, ''applied'', [])))"

definition applied_receipt :: "string \<Rightarrow> apply_plan \<Rightarrow> pdict list \<Rightarrow> pdict" where
  "applied_receipt provider plan performed =
     [(''calls'', PList (map PDict performed))]
     @ (case ap_labels_after plan of None \<Rightarrow> [] | Some ls \<Rightarrow> [(''current_labels'', strs ls)])
     @ (if provider = ''outlook'' \<and> outlook_ids_after performed \<noteq> []
        then [(''message_ids'', strs (outlook_ids_after performed))] else [])"

definition apply_live :: "env \<Rightarrow> string \<Rightarrow> pdict \<Rightarrow> apply_plan \<Rightarrow> apply_result act" where
  \<comment> \<open>perform a checked plan and record the outcome\<close>
  "apply_live env provider decision plan =
     try_else (perform env provider decision plan)
       (\<lambda>e. case e of
              ApplyError reason calls \<Rightarrow>
                then_eff (record_outcome decision ''failed''
                            [(''error'', PStr reason), (''calls'', PList (map PDict calls))])
                  (ret (result False ''failed'' calls reason []))
            | Crash s \<Rightarrow> raise_exc (Crash s))
       (\<lambda>(performed, status, reason).
          if status = ''queued'' then ret (result True ''queued'' performed reason [])
          else then_eff (store_cursor decision)
                 (then_eff (record_outcome decision ''applied'' (applied_receipt provider plan performed))
                    (ret (result True ''applied'' performed [] []))))"

definition checked_plan :: "string \<Rightarrow> pdict \<Rightarrow> apply_plan \<Rightarrow> apply_result option" where
  \<comment> \<open>every refusal between planning and performing\<close>
  "checked_plan provider decision plan =
     (let refused = refused_tool provider plan; hooked = hook_decision decision plan;
          fail = (\<lambda>h. result False ''failed'' [] (hr_reason h) (hr_hook h))
      in if refused \<noteq> [] then Some (result False ''failed'' [] refused [])
         else (case first_some (\<lambda>c. case call_failure hooked provider c of
                                      Some h \<Rightarrow> if hr_ok h then None else Some h | None \<Rightarrow> None) (ap_calls plan) of
                 Some h \<Rightarrow> Some (fail h)
               | None \<Rightarrow> let checked = run_hooks hooked True
                         in if hr_ok checked then None else Some (fail checked)))"

definition apply_planned :: "env \<Rightarrow> bool \<Rightarrow> string \<Rightarrow> pdict \<Rightarrow> apply_plan \<Rightarrow> apply_result act" where
  "apply_planned env dry_run provider decision plan =
     (if ap_error plan \<noteq> []
      then then_eff (if dry_run then ret () else record_outcome decision ''failed'' [(''error'', PStr (ap_error plan))])
             (ret (result False ''failed'' [] (ap_error plan) []))
      else (case checked_plan provider decision plan of
              Some r \<Rightarrow> ret r
            | None \<Rightarrow>
                (let planned = map (\<lambda>c. call_dict (pc_tool c) (pc_args c) []) (ap_calls plan)
                 in if ap_noop plan then ret (result True ''noop'' planned [] [])
                    else if dry_run then ret (result True ''dry_run'' planned [] [])
                    else apply_live env provider decision plan)))"

definition apply_prepared :: "env \<Rightarrow> bool \<Rightarrow> pdict \<Rightarrow> apply_result act" where
  "apply_prepared env dry_run decision =
     (if pending_account decision then ret (result False ''skipped'' [] ''pending_account'' [])
      else if dget decision ''in_inbox'' = PBool False
      then then_eff (if dry_run then ret ()
                     else then_eff (store_cursor decision)
                            (record_outcome decision ''dropped'' [(''dropped'', PStr ''left_inbox'')]))
             (ret (result True ''dropped'' [] ''left_inbox'' []))
      else apply_planned env dry_run (gets2 decision ''provider'' ''source'') decision (plan_apply decision))"

definition apply_decision :: "env \<Rightarrow> bool \<Rightarrow> bool option \<Rightarrow> pdict \<Rightarrow> apply_result act" where
  "apply_decision env dry_run actions_enabled decision0 =
     bind_eff (gets_eff (\<lambda>w. prepare (w_ledger w) decision0))
       (\<lambda>decision.
          let enabled = (case actions_enabled of None \<Rightarrow> inbox_actions_enabled env | Some b \<Rightarrow> b)
          in if \<not> dry_run \<and> \<not> enabled
             then bind_eff (gets_eff (\<lambda>w. prepare (w_ledger w) decision))
                    (\<lambda>again. bind_eff (apply_prepared env True again)
                       (\<lambda>preview. ret (result False ''disabled'' (ar_calls preview) ''actions flag is off'' [])))
             else apply_prepared env dry_run decision)"

end
