(* ===== verification/InboxReview.thy ===== *)
theory InboxReview
  imports InboxLearn InboxExecutor
begin

text \<open>
  The review queue, \<^verbatim>\<open>app/inbox/review.py\<close>: rows become decisions and undos, proposals are
  applied one by one or by the capped automatic pass, and a triage result becomes proposals. The
  world always holds the ledger here.
\<close>

definition APPLY_CAP :: nat where "APPLY_CAP = 50"

definition AUTO_ACTIONS :: "string list" where
  "AUTO_ACTIONS = [''keep'', ''archive'', ''mark_read'']"

subsection \<open>Rows as decisions\<close>

definition coerce_ids :: "pyval \<Rightarrow> string list" where
  "coerce_ids raw =
     (case raw of
        PNone \<Rightarrow> []
      | PStr s \<Rightarrow>
          (let text = strip s
           in case (if starts_with ''['' text then json_loads text else None) of
                Some (PList xs) \<Rightarrow> nonblank_parts (map py_str xs)
              | _ \<Rightarrow> nonblank_parts (split_on (CHR '','') text))
      | PList xs \<Rightarrow> nonblank_parts (map py_str xs)
      | v \<Rightarrow> (let text = strip (py_str v) in if text \<noteq> [] then [text] else []))"

definition clamp :: "string \<Rightarrow> string" where
  "clamp action = (if action \<in> set MODEL_ACTIONS then action else ''keep'')"

definition call_left_inbox :: "pdict \<Rightarrow> bool" where
  \<comment> \<open>the body of the loop of \<open>_calls_left_inbox\<close>\<close>
  "call_left_inbox call =
     (case dget call ''arguments'' of
        PDict args \<Rightarrow>
          (case dget args ''remove_label_ids'' of PList xs \<Rightarrow> PStr ''INBOX'' \<in> set xs | _ \<Rightarrow> False)
          \<or> (case dget args ''body'' of
               PDict body \<Rightarrow> (let dest = gets body ''destinationId''
                             in dest \<noteq> [] \<and> casefold dest \<notin> set OUTLOOK_WELL_KNOWN)
             | _ \<Rightarrow> False)
          \<or> (case dget args ''argv'' of
               PList argv \<Rightarrow> argv \<noteq> [] \<and> hd argv = PStr ''move'' \<and> starts_with ''Cerid/'' (py_str (last argv))
             | _ \<Rightarrow> False)
      | _ \<Rightarrow> False)"

definition calls_left_inbox :: "pyval list \<Rightarrow> bool" where
  "calls_left_inbox calls = list_ex call_left_inbox (List.map_filter as_dict calls)"

definition truthy_at :: "pdict option \<Rightarrow> string \<Rightarrow> bool" where
  \<comment> \<open>\<open>bool(account and account.get(key))\<close>\<close>
  "truthy_at account key = (case account of None \<Rightarrow> False | Some a \<Rightarrow> truthy (dget a key))"

definition row_receipt :: "pdict \<Rightarrow> pdict" where
  "row_receipt row = receipt_dict (dget row ''receipt_json'')"

definition sorted_keep :: "pdict \<Rightarrow> pdict option \<Rightarrow> bool" where
  "sorted_keep row account =
     (if gets row ''action'' \<noteq> ''keep'' then False
      else (case dget (row_receipt row) ''calls'' of
              PList calls \<Rightarrow> calls_left_inbox calls
            | _ \<Rightarrow> truthy_at account ''folder_sort''))"

definition moved :: "pdict \<Rightarrow> pdict option \<Rightarrow> bool" where
  "moved row account = (gets row ''action'' = ''archive'' \<or> sorted_keep row account)"

definition labels_for_undo :: "pdict \<Rightarrow> pdict option \<Rightarrow> string list" where
  "labels_for_undo row account =
     (case dget (row_receipt row) ''current_labels'' of
        PList stored \<Rightarrow> map py_str stored
      | _ \<Rightarrow>
          (let label = tab LABEL_NAME (gets row ''category'') [];
               labels = (if label \<noteq> [] \<and> gets row ''action'' \<in> {''keep'', ''archive''} then [label] else [])
           in if gets row ''source'' = ''gmail'' \<and> \<not> moved row account then ''INBOX'' # labels else labels))"

definition receipt_text :: "pdict \<Rightarrow> string \<Rightarrow> pdict" where
  \<comment> \<open>a text field of the receipt that is not blank, stripped\<close>
  "receipt_text receipt key = (let s = stripped_str (dget receipt key) in if s \<noteq> [] then [(key, PStr s)] else [])"

definition decision_from_row :: "env \<Rightarrow> pdict \<Rightarrow> pdict option \<Rightarrow> pdict" where
  "decision_from_row env row account =
     (let provider = gets row ''source''; address = gets row ''account_address'';
          receipt = row_receipt row;
          orelse = (\<lambda>key d. py_or (dget row key) (PStr d));
          configured = strip (google_email env)
      in [(''decision_id'', orelse ''id'' []), (''provider'', PStr provider), (''source'', PStr provider),
          (''account'', PStr address), (''account_address'', PStr address),
          (''provider_thread_id'', orelse ''provider_thread_id'' []),
          (''message_ids'', PList (json_list (dget row ''message_ids''))),
          (''category'', orelse ''category'' []), (''utility'', orelse ''utility'' ''none''),
          (''action'', orelse ''action'' ''keep''), (''band'', orelse ''band'' []), (''model'', orelse ''model'' []),
          (''confidence'', py_or (dget row ''confidence'') (PInt 0)),
          (''mailbox_before'', orelse ''mailbox_before'' []),
          (''account_known'', PBool (account \<noteq> None)),
          (''account_included'', PBool (truthy_at account ''included'' \<and> \<not> truthy_at account ''removed'')),
          (''folder_sort'', PBool (truthy_at account ''folder_sort''))]
         @ (case dget receipt ''current_labels'' of
              PList stored \<Rightarrow> [(''current_labels'', strs (map py_str stored))] | _ \<Rightarrow> [])
         @ receipt_text receipt ''draft_body'' @ receipt_text receipt ''subject''
         @ receipt_text receipt ''classification_reason''
         @ (if provider = ''gmail'' \<and> configured \<noteq> [] then [(''configured_address'', PStr configured)] else []))"

definition undo_from_row :: "env \<Rightarrow> pdict \<Rightarrow> pdict option \<Rightarrow> pdict" where
  "undo_from_row env row account =
     (let d0 = decision_from_row env row account;
          d1 = dset d0 ''action'' (PStr ''undo'');
          d2 = dset d1 ''undone_action'' (PStr (gets row ''action''));
          d3 = dset d2 ''current_labels'' (strs (labels_for_undo row account));
          d4 = (case dget (row_receipt row) ''message_ids'' of
                  PList ids \<Rightarrow> if ids \<noteq> [] then dset d3 ''message_ids'' (strs (map py_str ids)) else d3
                | _ \<Rightarrow> d3);
          before0 = strip (gets d4 ''mailbox_before'')
      in if gets row ''source'' = ''outlook''
         then dset d4 ''mailbox_before''
                (PStr (if moved row account then (if before0 \<noteq> [] then before0 else ''inbox'') else []))
         else if before0 = [] then dset d4 ''mailbox_before'' (PStr ''INBOX'') else d4)"

subsection \<open>Accounts\<close>

definition gmail_consent :: "env \<Rightarrow> string \<Rightarrow> string" where
  "gmail_consent env address =
     (let configured = strip (google_email env)
      in if configured \<noteq> [] \<and> casefold address = casefold configured then ''readonly'' else ''pending'')"

definition add_account ::
    "env \<Rightarrow> string \<Rightarrow> string \<Rightarrow> string \<Rightarrow> ledger \<Rightarrow> ledger_error + (pdict \<times> ledger)" where
  "add_account env provider address0 display_name l =
     (let stripped = strip address0; configured = strip (google_email env);
          address = (if provider = ''gmail'' \<and> configured \<noteq> [] \<and> casefold stripped = casefold configured
                     then configured else stripped);
          written =
            (case get_account provider address l of
               Some _ \<Rightarrow>
                 map_sum id snd (update_account provider address
                   ([(''removed'', PBool False), (''included'', PBool True)]
                    @ (if display_name \<noteq> [] then [(''display_name'', PStr display_name)] else [])
                    @ (if provider = ''gmail'' \<and> gmail_consent env address = ''pending''
                       then [(''consent'', PStr ''pending'')] else [])) l)
             | None \<Rightarrow>
                 Inr (upsert_account provider address display_name True False []
                        (if provider = ''gmail'' then gmail_consent env address else ''readonly'') l))
      in if provider \<notin> set (map fst PROVIDER_TOOLS) then Inl (ValueError ''provider is not a mail source'')
         else if CHR ''@'' \<notin> set stripped \<or> CHR '' '' \<in> set stripped
         then Inl (ValueError ''address is not an email'')
         else (case written of
                 Inl e \<Rightarrow> Inl e
               | Inr l' \<Rightarrow> (case get_account provider address l' of
                              None \<Rightarrow> Inl (ValueError ''account was not stored'')
                            | Some a \<Rightarrow> Inr (a, l'))))"

definition change_account :: "string \<Rightarrow> string \<Rightarrow> pdict \<Rightarrow> ledger \<Rightarrow> ledger_error + (pdict option \<times> ledger)" where
  "change_account provider address flds l =
     (let bad = has_key flds ''auto_apply''
                \<and> (case dget flds ''auto_apply'' of
                     PList xs \<Rightarrow> list_ex (\<lambda>x. \<not> str_in x CATEGORIES) xs | _ \<Rightarrow> True)
      in if bad then Inl (ValueError ''category is not in the enum'')
         else if flds = [] then Inr (None, l)
         else (case update_account provider address flds l of
                 Inl e \<Rightarrow> Inl e
               | Inr (hit, l') \<Rightarrow> Inr (if hit then get_account provider address l' else None, l')))"

subsection \<open>Effects on the ledger of the world\<close>

definition with_ledger :: "(ledger \<Rightarrow> 'a act) \<Rightarrow> 'a act" where
  "with_ledger k = (\<lambda>w. case w_ledger w of None \<Rightarrow> (Inl (Crash ''no ledger''), w) | Some l \<Rightarrow> k l w)"

definition try_ledger :: "(ledger \<Rightarrow> ledger_error + ('a \<times> ledger)) \<Rightarrow> 'a act" where
  "try_ledger f =
     (\<lambda>w. case w_ledger w of
            None \<Rightarrow> (Inl (Crash ''no ledger''), w)
          | Some l \<Rightarrow> (case f l of
                        Inl _ \<Rightarrow> (Inl (Crash ''ledger error''), w)
                      | Inr (a, l') \<Rightarrow> (Inr a, w\<lparr>w_ledger := Some l'\<rparr>)))"

definition tick :: "nat act" where
  "tick = (\<lambda>w. (Inr (w_ticks w), w\<lparr>w_ticks := Suc (w_ticks w)\<rparr>))"

definition propose_act :: "env \<Rightarrow> proposal \<Rightarrow> string act" where
  "propose_act env p = bind_eff tick (\<lambda>n. try_ledger (propose (clock env n) (uuid env n) p))"

definition touch :: "pdict \<Rightarrow> pdict \<Rightarrow> unit act" where
  "touch decision flds =
     (let provider = gets decision ''provider''; address = gets decision ''account''
      in if provider = [] \<or> address = [] then ret ()
         else bind_eff (try_ledger (update_account provider address flds)) (\<lambda>_. ret ()))"

definition touch_applied :: "env \<Rightarrow> pdict \<Rightarrow> unit act" where
  "touch_applied env decision = bind_eff tick (\<lambda>n. touch decision [(''last_apply'', PStr (clock env n))])"

definition refusal :: "string \<Rightarrow> string \<Rightarrow> pdict" where
  "refusal did reason =
     [(''ok'', PBool False), (''status'', PStr ''skipped''), (''reason'', PStr reason), (''decision_id'', PStr did)]"

definition skip_decision :: "string \<Rightarrow> pdict act" where
  "skip_decision did =
     with_ledger (\<lambda>l.
       case get_decision did l of
         None \<Rightarrow> ret (refusal did ''not proposed'')
       | Some row \<Rightarrow>
           if dget row ''status'' \<noteq> PStr ''proposed'' then ret (refusal did ''not proposed'')
           else then_eff (on_ledger (record_decision did ''skipped'' [(''skipped'', PBool True)]))
                  (ret [(''ok'', PBool True), (''status'', PStr ''skipped''), (''decision_id'', PStr did)]))"

subsection \<open>Applying proposals\<close>

definition row_account :: "pdict \<Rightarrow> ledger \<Rightarrow> pdict option" where
  "row_account row l = get_account (gets row ''source'') (gets row ''account_address'') l"

definition noop_receipt :: "pdict \<Rightarrow> apply_result \<Rightarrow> pdict" where
  "noop_receipt row outcome =
     [(''noop'', PBool True), (''calls'', PList (map PDict (ar_calls outcome)))]
     @ receipt_text (row_receipt row) ''classification_reason''"

definition apply_proposed :: "env \<Rightarrow> bool \<Rightarrow> bool option \<Rightarrow> pdict \<Rightarrow> pdict act" where
  "apply_proposed env dry_run actions_enabled row =
     with_ledger (\<lambda>l.
       let decision = decision_from_row env row (row_account row l)
       in bind_eff (apply_decision env dry_run actions_enabled decision)
            (\<lambda>outcome.
               let status = ar_status outcome; d = result_dict outcome
               in if dry_run then ret d
                  else if status = ''noop''
                  then then_eff (on_ledger (record_decision (py_str (dget row ''id'')) ''applied'' (noop_receipt row outcome)))
                         (then_eff (touch_applied env decision)
                            (ret (dset (dset d ''status'' (PStr ''applied'')) ''noop'' (PBool True))))
                  else if status = ''applied'' then then_eff (touch_applied env decision) (ret d)
                  else if status = ''failed''
                  then then_eff (touch decision [(''last_rejection'', PStr (ar_reason outcome))]) (ret d)
                  else ret d))"

definition apply_one :: "env \<Rightarrow> bool \<Rightarrow> bool option \<Rightarrow> string \<Rightarrow> pdict list \<Rightarrow> (pdict list) act" where
  \<comment> \<open>the body of the loop of \<open>apply_ids\<close>\<close>
  "apply_one env dry_run actions_enabled did results =
     with_ledger (\<lambda>l.
       case get_decision did l of
         None \<Rightarrow> ret (results @ [refusal did ''not proposed''])
       | Some row \<Rightarrow>
           if dget row ''status'' \<noteq> PStr ''proposed'' then ret (results @ [refusal did ''not proposed''])
           else bind_eff (apply_proposed env dry_run actions_enabled row)
                  (\<lambda>outcome. ret (results @ [dmerge [(''decision_id'', PStr did)] outcome])))"

definition apply_ids :: "env \<Rightarrow> bool \<Rightarrow> nat \<Rightarrow> bool option \<Rightarrow> pyval \<Rightarrow> pdict act" where
  "apply_ids env dry_run cap actions_enabled decision_ids =
     bind_eff (fold_eff (apply_one env dry_run actions_enabled) (take cap (coerce_ids decision_ids)) [])
       (\<lambda>results. ret [(''results'', PList (map PDict results)), (''dry_run'', PBool dry_run)])"

definition undo_proposal :: "pdict \<Rightarrow> pdict \<Rightarrow> proposal" where
  "undo_proposal row undo =
     \<lparr>pr_source = py_str (dget row ''source''), pr_thread_id = py_str (dget row ''provider_thread_id''),
      pr_account_address = py_str (dget row ''account_address''),
      pr_message_ids = json_list (dget row ''message_ids''), pr_category = py_str (dget row ''category''),
      pr_utility = py_str (dget row ''utility''), pr_action = ''undo'', pr_band = gets row ''band'',
      pr_model = gets row ''model'', pr_confidence = value_confidence (dget row ''confidence''),
      pr_mailbox_before = gets undo ''mailbox_before'', pr_rag_artifact_ids = [], pr_draft_body = [],
      pr_subject = [], pr_classification_reason = [], pr_current_labels = None\<rparr>"

definition undo_live :: "env \<Rightarrow> bool option \<Rightarrow> string \<Rightarrow> pdict \<Rightarrow> pdict \<Rightarrow> pdict act" where
  \<comment> \<open>the end of \<open>undo_decision\<close>: a new row for the undo, the apply, and what it settles\<close>
  "undo_live env actions_enabled did row undo0 =
     bind_eff (propose_act env (undo_proposal row undo0))
       (\<lambda>undo_id.
          let undo = dset undo0 ''decision_id'' (PStr undo_id)
          in bind_eff (apply_decision env False actions_enabled undo)
               (\<lambda>outcome. then_eff
                  (if ar_status outcome = ''applied''
                   then then_eff (on_ledger (record_decision did ''undone'' [(''undo_id'', PStr undo_id)]))
                          (touch_applied env undo)
                   else if ar_status outcome = ''failed''
                   then touch undo [(''last_rejection'', PStr (ar_reason outcome))]
                   else ret ())
                  (ret (dmerge [(''decision_id'', PStr did), (''undo_id'', PStr undo_id)] (result_dict outcome)))))"

definition undo_decision :: "env \<Rightarrow> bool \<Rightarrow> bool option \<Rightarrow> string \<Rightarrow> pdict act" where
  "undo_decision env dry_run actions_enabled did =
     with_ledger (\<lambda>l.
       case get_decision did l of
         None \<Rightarrow> ret (refusal did ''not applied'')
       | Some row \<Rightarrow>
           if dget row ''status'' \<noteq> PStr ''applied'' then ret (refusal did ''not applied'')
           else
             let undo = undo_from_row env row (row_account row l);
                 enabled = (case actions_enabled of None \<Rightarrow> inbox_actions_enabled env | Some b \<Rightarrow> b)
             in if dry_run \<or> \<not> enabled
                then bind_eff (apply_decision env dry_run actions_enabled undo)
                       (\<lambda>outcome. ret (dmerge [(''decision_id'', PStr did)] (result_dict outcome)))
                else undo_live env actions_enabled did row undo)"

subsection \<open>The automatic pass\<close>

definition eligible :: "pdict \<Rightarrow> pdict option \<Rightarrow> bool" where
  "eligible row account =
     (if gets row ''band'' = ''needs_review'' then False
      else if gets row ''action'' \<notin> set AUTO_ACTIONS then False
      else case account of
             None \<Rightarrow> False
           | Some a \<Rightarrow>
               truthy (dget a ''included'') \<and> \<not> truthy (dget a ''removed'')
               \<and> (case dget a ''auto_apply'' of PList xs \<Rightarrow> PStr (gets row ''category'') \<in> set xs | _ \<Rightarrow> False))"

definition auto_step :: "env \<Rightarrow> nat \<Rightarrow> pdict \<Rightarrow> nat \<times> nat \<Rightarrow> (nat \<times> nat) act" where
  \<comment> \<open>the body of the loop of \<open>auto_apply_pass\<close>: applied and attempted so far\<close>
  "auto_step env cap row counts =
     (let (applied, attempted) = counts
      in if attempted \<ge> cap then ret counts
         else with_ledger (\<lambda>l.
                if \<not> eligible row (row_account row l) then ret counts
                else bind_eff (apply_proposed env False (Some True) row)
                       (\<lambda>outcome. ret (if dget outcome ''status'' = PStr ''applied'' then applied + 1 else applied,
                                       attempted + 1))))"

definition auto_apply_pass :: "env \<Rightarrow> nat \<Rightarrow> bool option \<Rightarrow> (nat \<times> nat \<times> string) act" where
  \<comment> \<open>applied, attempted and the reason\<close>
  "auto_apply_pass env cap actions_enabled =
     (if \<not> (case actions_enabled of None \<Rightarrow> inbox_actions_enabled env | Some b \<Rightarrow> b)
      then ret (0, 0, ''actions flag is off'')
      else with_ledger (\<lambda>l.
             bind_eff (fold_eff (auto_step env cap) (list_decisions ''proposed'' 10000 False l) (0, 0))
               (\<lambda>(applied, attempted). ret (applied, attempted, []))))"

subsection \<open>From triage to proposals\<close>

definition account_open :: "pdict \<Rightarrow> bool" where
  "account_open row = (truthy (dget row ''included'') \<and> \<not> truthy (dget row ''removed''))"

definition included_addresses :: "string \<Rightarrow> ledger \<Rightarrow> string list" where
  "included_addresses source l =
     map (\<lambda>row. casefold (py_str (dget row ''address'')))
       (filter (\<lambda>row. dget row ''provider'' = PStr source \<and> account_open row) (list_accounts False l))"

definition sole_account :: "ledger \<Rightarrow> string \<Rightarrow> string" where
  "sole_account l source =
     (case filter (\<lambda>row. dget row ''provider'' = PStr source \<and> account_open row) (list_accounts False l) of
        [row] \<Rightarrow> py_str (dget row ''address'')
      | _ \<Rightarrow> [])"

definition thread_artifacts :: "triaged_thread \<Rightarrow> pyval list" where
  "thread_artifacts t =
     map (\<lambda>i. PDict [(''id'', PStr i), (''domain'', PStr ''inbox'')])
       (filter (\<lambda>i. i \<noteq> []) ((case tt_artifact_id t of None \<Rightarrow> [] | Some i \<Rightarrow> [i])
                              @ (case tt_finance_artifact_id t of None \<Rightarrow> [] | Some i \<Rightarrow> [i])))"

definition thread_proposal :: "triaged_thread \<Rightarrow> string \<Rightarrow> string list \<Rightarrow> proposal" where
  "thread_proposal t account ids =
     \<lparr>pr_source = tt_source t, pr_thread_id = tt_thread_id t, pr_account_address = account,
      pr_message_ids = map PStr ids, pr_category = tt_category t,
      pr_utility = (if tt_utility t = [] then ''none'' else tt_utility t),
      pr_action = clamp (if tt_action t = [] then ''keep'' else tt_action t), pr_band = tt_band t,
      pr_model = tt_model t, pr_confidence = tt_confidence t, pr_mailbox_before = tt_mailbox t,
      pr_rag_artifact_ids = thread_artifacts t, pr_draft_body = tt_draft_body t, pr_subject = tt_subject t,
      pr_classification_reason = tt_classification_reason t,
      pr_current_labels = Some (nonblank_parts (split_on (CHR '','')
        (if tt_source t = ''outlook'' then gets (tt_observation t) ''categories'' else [])))\<rparr>"

definition proposable :: "triaged_thread \<Rightarrow> ledger \<Rightarrow> (string \<times> string list) option" where
  \<comment> \<open>the checks of \<open>propose_triage\<close>: the account and the message ids of a thread it proposes\<close>
  "proposable t l =
     (let ids = filter (\<lambda>i. strip i \<noteq> []) (tt_message_ids t);
          named = strip (tt_account t);
          account = (if named \<noteq> [] then named else sole_account l (tt_source t))
      in if \<not> tt_writable t \<or> ids = [] \<or> account = [] \<or> tt_source t = [] then None
         else (case get_account (tt_source t) account l of
                 None \<Rightarrow> None
               | Some row \<Rightarrow> if account_open row then Some (account, ids) else None))"

definition propose_thread :: "env \<Rightarrow> triaged_thread \<Rightarrow> nat \<Rightarrow> nat act" where
  "propose_thread env t proposed =
     with_ledger (\<lambda>l.
       case proposable t l of
         None \<Rightarrow> ret proposed
       | Some (account, ids) \<Rightarrow>
           then_eff (bind_eff (propose_act env (thread_proposal t account ids)) (\<lambda>_. ret ())) (ret (proposed + 1)))"

definition propose_triage :: "env \<Rightarrow> triaged_thread list \<Rightarrow> nat act" where
  "propose_triage env threads = fold_eff (propose_thread env) threads 0"

definition learn_act :: "env \<Rightarrow> triaged_thread list \<Rightarrow> nat act" where
  "learn_act env threads =
     bind_eff tick (\<lambda>n. try_ledger (\<lambda>l. reconcile_threads (\<lambda>k. clock env (n + k)) threads (0, l)))"

definition record_and_apply :: "env \<Rightarrow> triaged_thread list \<Rightarrow> (nat \<times> nat \<times> nat \<times> string) act" where
  \<comment> \<open>learned, proposed, applied and the reason\<close>
  "record_and_apply env threads =
     bind_eff (learn_act env threads) (\<lambda>learned. bind_eff (propose_triage env threads) (\<lambda>proposed.
       bind_eff (auto_apply_pass env APPLY_CAP None)
         (\<lambda>(applied, _, reason). ret (learned, proposed, applied, reason))))"

subsection \<open>The setup page\<close>

definition discovered_addresses :: "env \<Rightarrow> bool \<Rightarrow> (string + pyval list) \<Rightarrow> pdict" where
  \<comment> \<open>the scan either raised with a message or returned addresses\<close>
  "discovered_addresses env discover_apple scan =
     (let gmail = strip (google_email env);
          (found, err) = (if discover_apple then (case scan of Inl e \<Rightarrow> ([], e) | Inr xs \<Rightarrow> (xs, [])) else ([], []))
      in [(''gmail'', strs (if gmail \<noteq> [] then [gmail] else [])), (''outlook'', PList []),
          (''apple_mail'', PList found), (''error'', PStr err)])"

definition scan_apple_addresses :: "string + (int \<times> pyval) \<Rightarrow> pdict" where
  "scan_apple_addresses reply =
     (let answer = (\<lambda>xs e. [(''addresses'', PList xs), (''error'', PStr e)])
      in case reply of
           Inl e \<Rightarrow> answer [] e
         | Inr (code, payload) \<Rightarrow>
             (case payload of
                PDict d \<Rightarrow>
                  if dget d ''error'' = PStr ''runs_on_desktop'' then answer [] ''runs_on_desktop''
                  else if code \<noteq> 0 then answer [] ''scan failed''
                  else (case py_or (dget d ''addresses'') (PList []) of
                          PList raw \<Rightarrow> answer (filter (\<lambda>v. is_str v \<and> CHR ''@'' \<in> set (str_of v)) raw) []
                        | _ \<Rightarrow> answer [] ''scan failed'')
              | _ \<Rightarrow> answer [] ''scan failed''))"

record setup_view_t =
  sv_actions_enabled :: bool
  sv_accounts :: "pdict list"
  sv_proposals :: "pdict list"
  sv_recent :: "pdict list"
  sv_pins :: "pdict list"

definition setup_view :: "env \<Rightarrow> string \<Rightarrow> ledger \<Rightarrow> setup_view_t" where
  \<comment> \<open>the ledger's part of the page; the model names and the source state are settings\<close>
  "setup_view env provider l =
     (let match = (\<lambda>key row. provider = [] \<or> gets row key = provider)
      in \<lparr>sv_actions_enabled = inbox_actions_enabled env,
          sv_accounts = filter (match ''provider'') (list_accounts True l),
          sv_proposals = filter (match ''source'') (list_decisions ''proposed'' 100 True l),
          sv_recent = filter (match ''source'') (list_decisions ''applied'' 20 True l),
          sv_pins = filter (match ''source'') (list_sender_pins l)\<rparr>)"

end
