(* ===== verification/PyDecimal.thy ===== *)
theory PyDecimal
  imports Json
begin

text \<open>
  Python's \<open>Decimal\<close> as the processor's cost accounting uses it: a coefficient and an exponent, the
  exact operations (coefficients here stay far below the 28 digits at which the default context
  rounds), \<open>str\<close> with its choice between positional and scientific notation, and the constructor
  from text.
\<close>

datatype pydecimal = Dec (dec_coeff: int) (dec_exp: int)

definition dec_value :: "pydecimal \<Rightarrow> rat" where
  "dec_value d = of_int (dec_coeff d) * pow10 (dec_exp d)"

definition dec_of_int :: "int \<Rightarrow> pydecimal" where
  "dec_of_int n = Dec n 0"

definition dec_mul :: "pydecimal \<Rightarrow> pydecimal \<Rightarrow> pydecimal" where
  "dec_mul a b = Dec (dec_coeff a * dec_coeff b) (dec_exp a + dec_exp b)"

definition dec_add :: "pydecimal \<Rightarrow> pydecimal \<Rightarrow> pydecimal" where
  "dec_add a b =
     (let e = min (dec_exp a) (dec_exp b)
      in Dec (dec_coeff a * 10 ^ nat (dec_exp a - e) + dec_coeff b * 10 ^ nat (dec_exp b - e)) e)"

fun strip_zeros :: "nat \<Rightarrow> int \<Rightarrow> int \<Rightarrow> pydecimal" where
  \<comment> \<open>drop at most so many trailing zeros of a coefficient\<close>
  "strip_zeros 0 c e = Dec c e"
| "strip_zeros (Suc k) c e = (if c mod 10 = 0 then strip_zeros k (c div 10) (e + 1) else Dec c e)"

definition dec_per_thousand :: "pydecimal \<Rightarrow> pydecimal" where
  \<comment> \<open>\<open>d / Decimal(1000)\<close>: exact, its exponent as near to that of \<open>d\<close> as the digits allow\<close>
  "dec_per_thousand d = strip_zeros 3 (dec_coeff d) (dec_exp d - 3)"

definition dec_less :: "pydecimal \<Rightarrow> pydecimal \<Rightarrow> bool" where
  "dec_less a b = (dec_value a < dec_value b)"

subsection \<open>Text\<close>

definition zeros :: "nat \<Rightarrow> string" where
  "zeros k = replicate k (CHR ''0'')"

definition dec_body :: "string \<Rightarrow> int \<Rightarrow> string" where
  "dec_body c e =
     (let left = e + int (length c)
      in if e \<le> 0 \<and> left > - 6 then
           (if left \<le> 0 then ''0.'' @ zeros (nat (- left)) @ c
            else if left \<ge> int (length c) then c
            else take (nat left) c @ CHR ''.'' # drop (nat left) c)
         else
           (if length c = 1 then c else take 1 c @ CHR ''.'' # drop 1 c)
           @ CHR ''E'' # (if left - 1 < 0 then CHR ''-'' else CHR ''+'') # show_nat (nat \<bar>left - 1\<bar>))"

definition dec_str :: "pydecimal \<Rightarrow> string" where
  "dec_str d = (if dec_coeff d < 0 then ''-'' else []) @ dec_body (show_nat (nat \<bar>dec_coeff d\<bar>)) (dec_exp d)"

definition dec_exponent :: "string \<Rightarrow> int option" where
  "dec_exponent r =
     (case r of
        [] \<Rightarrow> Some 0
      | c # t \<Rightarrow>
          if c = CHR ''E'' \<or> c = CHR ''e'' then
            (let neg = (t \<noteq> [] \<and> hd t = CHR ''-''); ds = (if neg \<or> t \<noteq> [] \<and> hd t = CHR ''+'' then tl t else t)
             in if ds = [] \<or> \<not> list_all is_digit ds then None
                else Some (if neg then - int (digits_val ds) else int (digits_val ds)))
          else None)"

definition dec_unsigned :: "string \<Rightarrow> (nat \<times> int) option" where
  "dec_unsigned t =
     (let ip = takeWhile is_digit t; r = drop (length ip) t;
          fp = (if r \<noteq> [] \<and> hd r = CHR ''.'' then takeWhile is_digit (tl r) else []);
          r' = (if r \<noteq> [] \<and> hd r = CHR ''.'' then drop (length fp) (tl r) else r)
      in if ip @ fp = [] then None
         else map_option (\<lambda>e. (digits_val (ip @ fp), e - int (length fp))) (dec_exponent r'))"

definition dec_parse :: "string \<Rightarrow> pydecimal option" where
  \<comment> \<open>\<open>Decimal(text)\<close> for finite numbers\<close>
  "dec_parse s =
     (let t = strip s; neg = (t \<noteq> [] \<and> hd t = CHR ''-'');
          u = (if neg \<or> t \<noteq> [] \<and> hd t = CHR ''+'' then tl t else t)
      in map_option (\<lambda>(n, e). Dec (if neg then - int n else int n) e) (dec_unsigned u))"

definition py_float_text :: "string \<Rightarrow> rat option" where
  \<comment> \<open>\<open>float(text)\<close> for finite numbers\<close>
  "py_float_text s = map_option dec_value (dec_parse s)"

subsection \<open>Arithmetic\<close>

lemma pow10_add: "pow10 (a + b) = pow10 a * pow10 b"
proof -
  have p: "pow10 e = 10 powi e" for e by (simp add: pow10_def power_int_def field_simps)
  show ?thesis by (simp add: p power_int_add)
qed

lemma pow10_nat: "0 \<le> k \<Longrightarrow> pow10 k = 10 ^ nat k"
  by (simp add: pow10_def)

lemma dec_value_of_int [simp]: "dec_value (dec_of_int n) = of_int n"
  by (simp add: dec_value_def dec_of_int_def pow10_def)

lemma dec_value_mul [simp]: "dec_value (dec_mul a b) = dec_value a * dec_value b"
  by (simp add: dec_value_def dec_mul_def pow10_add)

lemma dec_value_add [simp]: "dec_value (dec_add a b) = dec_value a + dec_value b"
proof -
  let ?e = "min (dec_exp a) (dec_exp b)"
  have "pow10 (dec_exp a) = 10 ^ nat (dec_exp a - ?e) * pow10 ?e"
    "pow10 (dec_exp b) = 10 ^ nat (dec_exp b - ?e) * pow10 ?e"
    using pow10_add [of "dec_exp a - ?e" ?e] pow10_add [of "dec_exp b - ?e" ?e] by (simp_all add: pow10_nat)
  then show ?thesis by (simp add: dec_value_def dec_add_def Let_def algebra_simps)
qed

lemma dec_value_strip: "dec_value (strip_zeros k c e) = of_int c * pow10 e"
proof (induction k arbitrary: c e)
  case (Suc k)
  have "of_int (c div 10) * pow10 (e + 1) = of_int c * pow10 e" if "c mod 10 = 0"
  proof -
    have "c = 10 * (c div 10)" using that by presburger
    then have "(of_int c :: rat) = 10 * of_int (c div 10)" by (metis of_int_mult of_int_numeral)
    then show ?thesis by (simp add: pow10_add) (simp add: pow10_def)
  qed
  with Suc show ?case by (simp add: dec_value_def [of "Dec c e"])
qed (simp add: dec_value_def)

lemma dec_value_per_thousand [simp]: "dec_value (dec_per_thousand d) = dec_value d / 1000"
proof -
  have "dec_value (dec_per_thousand d) = of_int (dec_coeff d) * pow10 (dec_exp d - 3)"
    by (simp add: dec_per_thousand_def dec_value_strip)
  moreover have "pow10 (dec_exp d - 3) = pow10 (dec_exp d) / 1000"
    using pow10_add [of "dec_exp d" "- 3"] by (simp add: pow10_def [of "- 3"])
  ultimately show ?thesis by (simp add: dec_value_def)
qed

subsection \<open>Reading what was printed\<close>

lemma strip_solid: "list_all (\<lambda>c. \<not> py_isspace c) s \<Longrightarrow> strip s = s"
proof -
  assume a: "list_all (\<lambda>c. \<not> py_isspace c) s"
  have d: "dropWhile py_isspace t = t" if "list_all (\<lambda>c. \<not> py_isspace c) t" for t
    using that by (cases t) auto
  show ?thesis using d [OF a] d [of "rev s"] a by (simp add: strip_def)
qed

lemma digit_solid: "is_digit c \<Longrightarrow> \<not> py_isspace c"
  by (auto simp: is_digit_def py_isspace_def Let_def)

lemma digits_val_zeros: "digits_val (zeros k @ s) = digits_val s"
  by (simp add: digits_val_def zeros_def) (induction k; simp add: digit_val_def)

lemma digits_val_0: "digits_val (CHR ''0'' # s) = digits_val s"
  by (simp add: digits_val_def digit_val_def)

lemma takeWhile_run: "list_all P xs \<Longrightarrow> ys = [] \<or> \<not> P (hd ys) \<Longrightarrow> takeWhile P (xs @ ys) = xs"
  by (cases ys) (simp_all add: list_all_iff takeWhile_append)

lemma dec_unsigned_plain:
  assumes "list_all is_digit ip" "ip \<noteq> []" "r' = [] \<or> hd r' = CHR ''E''"
  shows "dec_unsigned (ip @ r') = map_option (\<lambda>e. (digits_val ip, e)) (dec_exponent r')"
proof -
  have "takeWhile is_digit (ip @ r') = ip"
    using assms by (intro takeWhile_run) (auto simp: is_digit_def)
  with assms show ?thesis by (auto simp: dec_unsigned_def Let_def)
qed

lemma dec_unsigned_point:
  assumes "list_all is_digit ip" "list_all is_digit fp" "ip \<noteq> []" "r' = [] \<or> hd r' = CHR ''E''"
  shows "dec_unsigned (ip @ CHR ''.'' # fp @ r') =
    map_option (\<lambda>e. (digits_val (ip @ fp), e - int (length fp))) (dec_exponent r')"
proof -
  have "takeWhile is_digit (ip @ CHR ''.'' # fp @ r') = ip"
    using assms by (intro takeWhile_run) (auto simp: is_digit_def)
  moreover have "takeWhile is_digit (fp @ r') = fp"
    using assms by (intro takeWhile_run) (auto simp: is_digit_def)
  ultimately show ?thesis using assms by (auto simp: dec_unsigned_def Let_def)
qed

lemma dec_exponent_text:
  "dec_exponent (CHR ''E'' # (if k < 0 then CHR ''-'' else CHR ''+'') # show_nat (nat \<bar>k\<bar>)) = Some k"
  using show_nat_digits [of "nat \<bar>k\<bar>"] by (simp add: dec_exponent_def Let_def show_nat_ne list_all_iff digits_val_show)

lemma dec_unsigned_body:
  assumes "list_all is_digit c" "c \<noteq> []"
  shows "dec_unsigned (dec_body c e) = Some (digits_val c, e)"
proof -
  let ?left = "e + int (length c)"
  consider (small) "e \<le> 0" "?left > - 6" "?left \<le> 0" | (whole) "e \<le> 0" "?left > 0" "?left \<ge> int (length c)"
    | (point) "e \<le> 0" "?left > 0" "?left < int (length c)" | (sci) "\<not> (e \<le> 0 \<and> ?left > - 6)"
    by linarith
  then show ?thesis
  proof cases
    case small
    have z: "list_all is_digit (zeros (nat (- ?left)) @ c)"
      using assms by (auto simp: zeros_def list_all_iff is_digit_def)
    have "dec_unsigned (''0'' @ CHR ''.'' # (zeros (nat (- ?left)) @ c) @ []) = Some (digits_val c, e)"
      by (subst dec_unsigned_point)
        (use z small in \<open>simp_all add: digits_val_zeros digits_val_0 dec_exponent_def\<close>, simp_all add: is_digit_def zeros_def)
    with small show ?thesis by (simp add: dec_body_def Let_def)
  next
    case whole
    then have "e = 0" by simp
    with whole assms dec_unsigned_plain [of c "[]"] show ?thesis by (simp add: dec_body_def Let_def dec_exponent_def)
  next
    case point
    let ?k = "nat ?left"
    have k: "0 < ?k" "?k < length c" using point by linarith+
    have "list_all is_digit (take ?k c)" "list_all is_digit (drop ?k c)" "take ?k c \<noteq> []"
      using assms k by (auto simp: list_all_iff dest: in_set_takeD in_set_dropD)
    moreover have "- int (length (drop ?k c)) = e" using k point by simp
    ultimately have "dec_unsigned (take ?k c @ CHR ''.'' # drop ?k c @ []) = Some (digits_val c, e)"
      by (subst dec_unsigned_point) (simp_all add: dec_exponent_def)
    with point show ?thesis by (simp add: dec_body_def Let_def)
  next
    case sci
    let ?x = "CHR ''E'' # (if ?left - 1 < 0 then CHR ''-'' else CHR ''+'') # show_nat (nat \<bar>?left - 1\<bar>)"
    have x: "dec_exponent ?x = Some (?left - 1)" by (rule dec_exponent_text)
    show ?thesis
    proof (cases "length c = 1")
      case True
      then have "dec_unsigned (c @ ?x) = Some (digits_val c, e)"
        using assms x by (subst dec_unsigned_plain) auto
      then show ?thesis using True sci by (cases "e = 0") (auto simp: dec_body_def Let_def)
    next
      case False
      then have l: "length (drop 1 c) = length c - 1" "1 \<le> length c" using assms(2) by (auto simp: Suc_le_eq)
      have "list_all is_digit (take 1 c)" "list_all is_digit (drop 1 c)" "take 1 c \<noteq> []"
        using assms by (auto simp: list_all_iff dest: in_set_takeD in_set_dropD)
      then have "dec_unsigned (take 1 c @ CHR ''.'' # drop 1 c @ ?x) = Some (digits_val c, e)"
        using l by (subst dec_unsigned_point) (simp_all only: x append_take_drop_id, auto)
      with False sci show ?thesis by (auto simp: dec_body_def Let_def)
    qed
  qed
qed

lemma dec_body_chars:
  assumes "list_all is_digit c"
  shows "list_all (\<lambda>x. is_digit x \<or> x \<in> {CHR ''.'', CHR ''E'', CHR ''-'', CHR ''+''}) (dec_body c e)"
  using assms show_nat_digits
  by (auto simp: dec_body_def Let_def list_all_iff zeros_def is_digit_def dest: in_set_takeD in_set_dropD)

lemma dec_body_hd: "list_all is_digit c \<Longrightarrow> c \<noteq> [] \<Longrightarrow> \<exists>x xs. dec_body c e = x # xs \<and> is_digit x"
  by (cases c) (auto simp: dec_body_def Let_def is_digit_def take_Cons' nth_append)

lemma dec_roundtrip: "dec_parse (dec_str d) = Some d"
proof -
  let ?c = "show_nat (nat \<bar>dec_coeff d\<bar>)"
  have c: "list_all is_digit ?c" "?c \<noteq> []" using show_nat_digits show_nat_ne by (auto simp: list_all_iff)
  obtain x xs where b: "dec_body ?c (dec_exp d) = x # xs" "is_digit x" using dec_body_hd [OF c] by blast
  have solid: "is_digit x \<or> x \<in> {CHR ''.'', CHR ''E'', CHR ''-'', CHR ''+''} \<Longrightarrow> \<not> py_isspace x" for x
    using digit_solid by (auto simp: py_isspace_def)
  have "list_all (\<lambda>x. \<not> py_isspace x) (dec_str d)"
    using dec_body_chars [OF c(1), of "dec_exp d"]
    using solid by (auto simp: dec_str_def list_all_iff)
  then have s: "strip (dec_str d) = dec_str d" by (rule strip_solid)
  have x: "x \<noteq> CHR ''-''" "x \<noteq> CHR ''+''" using b(2) by (auto simp: is_digit_def)
  have u: "dec_unsigned (x # xs) = Some (nat \<bar>dec_coeff d\<bar>, dec_exp d)"
    using dec_unsigned_body [OF c, of "dec_exp d"] b(1) by (simp add: digits_val_show)
  have t: "dec_str d = (if dec_coeff d < 0 then ''-'' else []) @ x # xs" by (simp add: dec_str_def b(1))
  have "dec_parse (dec_str d) = Some (Dec (dec_coeff d) (dec_exp d))"
    unfolding dec_parse_def s using x u by (simp add: t Let_def)
  then show ?thesis by simp
qed

end
