(* ===== verification/InboxTriage.thy ===== *)
theory InboxTriage
  imports InboxMessages InboxHooks PyDecimal
begin

text \<open>
  The triage agent of \<^verbatim>\<open>core/agents/inbox_triage.py\<close>: how one thread climbs the model ladder,
  how a draft is attached, and one triage pass over the sources. The model, the sender memory, the
  spam scanner and the ingest endpoint are parameters; a model's reply may depend on every earlier
  call made for its thread.
\<close>

subsection \<open>Environment\<close>

record model_call =
  mc_stage :: string
  mc_prompt :: string

record triage_env =
  te_skill :: string
  te_draft_instruction :: string
  te_profile :: string
  te_llm :: "model_call list \<Rightarrow> string \<Rightarrow> string \<Rightarrow> nat \<Rightarrow> pyval option"
  te_memory :: "(string \<Rightarrow> string \<Rightarrow> string \<Rightarrow> string \<Rightarrow> pyval option) option"
  te_scan :: "string \<Rightarrow> pyval option"
  te_scan_expected :: bool
  te_parseaddr :: "string \<Rightarrow> string"
  te_now :: string

type_synonym 'a asked = "'a \<times> model_call list"

definition profile :: "triage_env \<Rightarrow> string" where
  "profile env = or_else (te_profile env) ''hybrid''"

definition triage_prompt :: "triage_env \<Rightarrow> string \<Rightarrow> string" where
  "triage_prompt env excerpt =
     te_skill env @ [CHR 0x0A, CHR 0x0A] @ ''folder_sort: false'' @ [CHR 0x0A, CHR 0x0A] @ ''Thread:'' @ [CHR 0x0A] @ excerpt"

definition category_repair_prompt :: "string \<Rightarrow> string" where
  "category_repair_prompt excerpt =
     ''Return one JSON object and nothing else. category is one of: '' @ py_join '' | '' CATEGORIES
     @ ''. confidence is a number from 0 to 1. No other keys.'' @ [CHR 0x0A, CHR 0x0A]
     @ ''Thread:'' @ [CHR 0x0A] @ excerpt"

definition draft_prompt :: "triage_env \<Rightarrow> string \<Rightarrow> string" where
  "draft_prompt env excerpt =
     te_draft_instruction env @ [CHR 0x0A, CHR 0x0A] @ ''Message:'' @ [CHR 0x0A] @ excerpt"

definition call_model :: "triage_env \<Rightarrow> string \<Rightarrow> string \<Rightarrow> nat \<Rightarrow> model_call list \<Rightarrow> pyval option asked" where
  \<comment> \<open>\<open>None\<close> when the call raised\<close>
  "call_model env stage prompt max_tokens calls =
     (te_llm env calls stage prompt max_tokens, calls @ [\<lparr>mc_stage = stage, mc_prompt = prompt\<rparr>])"

subsection \<open>Reading a reply\<close>

fun json_object_match :: "string \<Rightarrow> string option" where
  \<comment> \<open>\<open>_JSON_OBJECT_RE.search(text)\<close>: the first pair of braces with none between\<close>
  "json_object_match [] = None"
| "json_object_match (c # cs) =
     (if c = CHR 0x7B
      then (let inner = takeWhile (\<lambda>x. x \<noteq> CHR 0x7B \<and> x \<noteq> CHR 0x7D) cs; rest = drop (length inner) cs
            in if rest \<noteq> [] \<and> hd rest = CHR 0x7D then Some (c # inner @ [CHR 0x7D]) else json_object_match cs)
      else json_object_match cs)"

definition load_json_object :: "pyval \<Rightarrow> pdict option" where
  "load_json_object raw =
     (case raw of
        PDict d \<Rightarrow> Some d
      | PStr s \<Rightarrow>
          (let cleaned = fence_sub (strip s)
           in case json_loads cleaned of
                Some (PDict d) \<Rightarrow> Some d
              | _ \<Rightarrow> (case json_object_match cleaned of
                       None \<Rightarrow> None
                     | Some m \<Rightarrow> (case json_loads m of Some (PDict d) \<Rightarrow> Some d | _ \<Rightarrow> None)))
      | _ \<Rightarrow> None)"

definition reply_category :: "pdict \<Rightarrow> string" where
  \<comment> \<open>\<open>str(found.get("category", "")).lower().strip()\<close>\<close>
  "reply_category d = strip (lower (py_str (dget_or d ''category'' (PStr []))))"

definition model_reply :: "pyval \<Rightarrow> pdict option" where
  "model_reply raw =
     (case load_json_object raw of
        None \<Rightarrow> None
      | Some found \<Rightarrow> if reply_category found \<in> set CATEGORIES then Some found else None)"

definition heuristic_categorize :: "mail_result list \<Rightarrow> string \<Rightarrow> pdict" where
  "heuristic_categorize messages thread_id =
     (let text = py_join '' '' (thread_id # map mr_title messages @ map mr_content messages);
          subject = py_join '' '' (map mr_title messages);
          verdict = filter_verdict text subject (header_bag messages) PNone;
          cat = fv_category verdict;
          action = tab CATEGORY_ACTION cat ''keep''
      in [(''category'', PStr cat), (''summary'', PStr (take 200 thread_id)),
          (''suggested_action'', PStr (if action = ''keep'' then ''review'' else ''archive'')),
          (''action'', PStr action), (''utility'', PStr (utility_for text cat)),
          (''confidence'', PFloat (fv_confidence verdict))])"

fun py_float :: "pyval \<Rightarrow> rat option" where
  \<comment> \<open>\<open>float(v)\<close> where it is a finite number\<close>
  "py_float (PBool b) = Some (if b then 1 else 0)"
| "py_float (PInt i) = Some (of_int i)"
| "py_float (PFloat r) = Some r"
| "py_float (PStr s) = py_float_text s"
| "py_float _ = None"

definition sanitize_categorization :: "pdict \<Rightarrow> mail_result list \<Rightarrow> string \<Rightarrow> string \<Rightarrow> pdict" where
  "sanitize_categorization parsed fallback_messages thread_id excerpt =
     (let category = reply_category parsed
      in if category \<notin> set CATEGORIES then heuristic_categorize fallback_messages thread_id
         else
           let summary = or_else (take 500 (strip (py_str (dget_or parsed ''summary'' (PStr []))))) thread_id;
               suggested = take 200 (strip (py_str (dget_or parsed ''suggested_action'' (PStr []))));
               proposed = (case dget parsed ''action'' of
                             PStr s \<Rightarrow> if strip s = [] then PNone else PStr (strip s)
                           | _ \<Rightarrow> PNone);
               action = clamp_action proposed category;
               raw_utility = strip (lower (py_str (dget_or parsed ''utility'' (PStr []))));
               utility = (if raw_utility \<in> set UTILITIES then raw_utility else utility_for excerpt category)
           in [(''category'', PStr category), (''summary'', PStr summary),
               (''suggested_action'', PStr (or_else suggested (tab ACTION_PHRASE action ''review''))),
               (''action'', PStr action), (''utility'', PStr utility)]
              @ (case py_float (dget parsed ''confidence'') of
                   None \<Rightarrow> [] | Some r \<Rightarrow> [(''confidence'', PFloat r)]))"

definition parse_triage_response :: "pyval \<Rightarrow> mail_result list \<Rightarrow> string \<Rightarrow> string \<Rightarrow> pdict" where
  "parse_triage_response raw fallback_messages thread_id excerpt =
     (case model_reply raw of
        Some reply \<Rightarrow> sanitize_categorization reply fallback_messages thread_id excerpt
      | None \<Rightarrow>
          (case load_json_object raw of
             Some loaded \<Rightarrow> sanitize_categorization loaded fallback_messages thread_id excerpt
           | None \<Rightarrow> heuristic_categorize fallback_messages thread_id))"

subsection \<open>Drafts\<close>

definition numeric_confidence :: "pdict \<Rightarrow> rat" where
  "numeric_confidence parsed = value_confidence (dget parsed ''confidence'')"

definition draft_try :: "triage_env \<Rightarrow> string \<Rightarrow> string \<Rightarrow> model_call list \<Rightarrow> string option asked" where
  \<comment> \<open>one drafting call; \<open>None\<close> when it raised\<close>
  "draft_try env excerpt stage calls =
     (case call_model env stage (draft_prompt env excerpt) 400 calls of
        (None, calls') \<Rightarrow> (None, calls')
      | (Some response, calls') \<Rightarrow> (Some (parse_draft_text response), calls'))"

definition cloud_draft :: "triage_env \<Rightarrow> pdict \<Rightarrow> string \<Rightarrow> model_call list \<Rightarrow> pdict asked" where
  \<comment> \<open>the end of \<open>_attach_draft\<close>, once the checklist failed and the profile allows the cloud\<close>
  "cloud_draft env parsed excerpt calls =
     (case draft_try env excerpt ''inbox_triage_draft'' calls of
        (None, calls') \<Rightarrow> (dset parsed ''band'' (PStr ''needs_review''), calls')
      | (Some body, calls') \<Rightarrow>
          if draft_problems body excerpt \<noteq> [] then (dset parsed ''band'' (PStr ''needs_review''), calls')
          else (dset (dset (dset parsed ''draft_body'' (PStr body)) ''band'' (PStr ''cloud''))
                  ''model'' (PStr ''inbox_triage_draft''), calls'))"

definition attach_draft :: "triage_env \<Rightarrow> pdict \<Rightarrow> string \<Rightarrow> string \<Rightarrow> model_call list \<Rightarrow> pdict asked" where
  "attach_draft env parsed excerpt route_band calls =
     (if dget parsed ''action'' \<noteq> PStr ''draft'' then (parsed, calls)
      else
        (case draft_try env excerpt ''inbox_triage_review'' calls of
           (local_try, calls') \<Rightarrow>
             (let local_failed = (local_try = None);
                  local_body = (case local_try of None \<Rightarrow> [] | Some b \<Rightarrow> b)
              in if \<not> local_failed \<and> draft_problems local_body excerpt = []
                 then (dset (dset (dset parsed ''draft_body'' (PStr local_body))
                         ''band'' (PStr (if route_band \<in> {''local-small'', ''local-chat''} then route_band else ''local-chat'')))
                         ''model'' (PStr ''inbox_triage_review''), calls')
                 else
                   let band = escalate route_band (profile env) local_failed (numeric_confidence parsed) True;
                       dropped = dpop parsed ''draft_body''
                   in if band \<noteq> ''cloud'' then (dset dropped ''band'' (PStr ''needs_review''), calls')
                      else cloud_draft env dropped excerpt calls')))"

subsection \<open>Memory, pins and the scan\<close>

definition memory_signals :: "triage_env \<Rightarrow> string \<Rightarrow> string \<Rightarrow> string \<Rightarrow> string \<Rightarrow> pdict" where
  "memory_signals env source sender subject list_id =
     (case te_memory env of
        None \<Rightarrow> []
      | Some lookup \<Rightarrow>
          if sender = [] then []
          else (case lookup source sender subject list_id of Some (PDict d) \<Rightarrow> d | _ \<Rightarrow> []))"

definition pinned :: "pdict \<Rightarrow> bool" where
  "pinned remembered =
     ((str_in (dget remembered ''memory_action'') MODEL_ACTIONS
       \<and> value_confidence (dget remembered ''memory_confidence'') \<ge> PIN_CONFIDENCE)
      \<or> (str_in (dget remembered ''rule_action'') MODEL_ACTIONS
         \<and> value_confidence (dget remembered ''rule_confidence'') \<ge> PIN_CONFIDENCE))"

definition pin_contradicted :: "pdict \<Rightarrow> filter_verdict_t \<Rightarrow> string \<Rightarrow> bool \<Rightarrow> string" where
  "pin_contradicted remembered verdict sender_auth scan_missing =
     (if \<not> pinned remembered then []
      else if fv_category verdict = ''spam'' \<and> fv_sticks verdict then or_else (fv_reason verdict) ''spam''
      else if contains ''dmarc=fail'' (casefold sender_auth) then ''dmarc:fail''
      else if scan_missing then ''rspamd:unavailable''
      else [])"

definition scan_rspamd :: "triage_env \<Rightarrow> string \<Rightarrow> string \<Rightarrow> string \<Rightarrow> string \<Rightarrow> string \<Rightarrow> string \<Rightarrow> pyval" where
  \<comment> \<open>the scanner's dictionary, \<open>PNone\<close> when it raised or answered something else\<close>
  "scan_rspamd env sender subject message_id body to date =
     (case te_scan env (reconstructed_message (te_now env) sender subject body message_id to date) of
        Some (PDict d) \<Rightarrow> PDict d
      | _ \<Rightarrow> PNone)"

subsection \<open>What is known before a model is asked\<close>

record thread_facts =
  tf_excerpt :: string
  tf_shown :: string
  tf_subject :: string
  tf_verdict :: filter_verdict_t
  tf_pin_ignored :: string
  tf_route :: route

definition signals_of :: "string \<Rightarrow> nat \<Rightarrow> filter_verdict_t \<Rightarrow> pdict \<Rightarrow> thread_signals" where
  "signals_of excerpt n verdict remembered =
     \<lparr>sig_excerpt = excerpt, sig_message_count = n, sig_heuristic_category = fv_category verdict,
      sig_heuristic_confidence = fv_confidence verdict,
      sig_memory_action = dget remembered ''memory_action'',
      sig_memory_category = dget remembered ''memory_category'',
      sig_memory_confidence = value_confidence (dget remembered ''memory_confidence''),
      sig_rule_action = dget remembered ''rule_action'',
      sig_rule_category = dget remembered ''rule_category'',
      sig_rule_confidence = value_confidence (dget remembered ''rule_confidence''),
      sig_proposed_action = PNone, sig_sticks = fv_sticks verdict\<rparr>"

definition thread_facts_of :: "triage_env \<Rightarrow> mail_result list \<Rightarrow> string \<Rightarrow> thread_facts" where
  \<comment> \<open>the head of \<open>_categorize_thread\<close>, up to the route\<close>
  "thread_facts_of env messages source =
     (let excerpt = build_thread_excerpt messages;
          subject = (case messages of [] \<Rightarrow> [] | m # _ \<Rightarrow> mr_title m);
          h = header_bag messages;
          (sender, sender_auth) = first_sender (te_parseaddr env) messages;
          remembered = memory_signals env source sender subject (first_meta ''list_id'' messages);
          scanned = scan_rspamd env sender subject (first_meta ''rfc_message_id'' messages) excerpt
                      (first_meta ''to'' messages) (first_meta ''date'' messages);
          verdict = filter_verdict excerpt subject h scanned;
          ignored = pin_contradicted remembered verdict sender_auth (scanned = PNone \<and> te_scan_expected env);
          kept = (if ignored \<noteq> [] then [] else remembered)
      in \<lparr>tf_excerpt = excerpt, tf_shown = excerpt @ signal_note h scanned, tf_subject = subject,
          tf_verdict = verdict, tf_pin_ignored = ignored,
          tf_route = route_thread (signals_of excerpt (length messages) verdict kept)\<rparr>)"

definition skipped :: "route \<Rightarrow> string \<Rightarrow> string \<Rightarrow> pdict" where
  "skipped r thread_id subject =
     (let action = (if rt_action r \<in> {''keep'', ''archive'', ''mark_read'', ''draft''} then rt_action r else ''keep'');
          summary = take 200 (or_else subject thread_id)
      in [(''category'', PStr (rt_category r)), (''summary'', PStr (or_else summary (take 200 thread_id))),
          (''suggested_action'', PStr (tab ACTION_PHRASE action ''review'')), (''action'', PStr action),
          (''utility'', PStr (rt_utility r)), (''confidence'', PFloat (rt_confidence r)),
          (''band'', PStr ''skip''), (''model'', PStr [])])"

definition note_pin :: "thread_facts \<Rightarrow> pdict \<Rightarrow> pdict" where
  "note_pin f d = (if tf_pin_ignored f \<noteq> [] then dset d ''pin_ignored'' (PStr (tf_pin_ignored f)) else d)"

definition skip_result :: "triage_env \<Rightarrow> thread_facts \<Rightarrow> string \<Rightarrow> model_call list \<Rightarrow> pdict asked" where
  "skip_result env f thread_id calls =
     (let s0 = skipped (tf_route f) thread_id (tf_subject f);
          s1 = (if rt_rationale (tf_route f) = ''deterministic'' \<and> fv_reason (tf_verdict f) \<noteq> []
                then dset s0 ''classification_reason'' (PStr (fv_reason (tf_verdict f))) else s0);
          s2 = note_pin f s1
      in if dget s2 ''action'' = PStr ''draft'' then attach_draft env s2 (tf_excerpt f) ''skip'' calls
         else (s2, calls))"

subsection \<open>The ladder\<close>

definition with_band :: "pdict \<Rightarrow> string \<Rightarrow> string \<Rightarrow> pdict" where
  "with_band parsed band model = dset (dset parsed ''band'' (PStr band)) ''model'' (PStr model)"

definition finish :: "triage_env \<Rightarrow> thread_facts \<Rightarrow> pdict \<Rightarrow> string \<Rightarrow> model_call list \<Rightarrow> pdict asked" where
  "finish env f parsed band calls =
     (let a0 = apply_verdict parsed (tf_verdict f) (tf_excerpt f);
          a1 = (if fv_reason (tf_verdict f) \<noteq> []
                then dset a0 ''classification_reason'' (PStr (fv_reason (tf_verdict f))) else a0)
      in attach_draft env (note_pin f a1) (tf_excerpt f) band calls)"

record rung =
  rg_failed :: bool
  rg_parsed :: "pdict option"
  rg_schema_miss :: bool

definition read_reply :: "thread_facts \<Rightarrow> mail_result list \<Rightarrow> string \<Rightarrow> pyval option \<Rightarrow> rung" where
  "read_reply f messages thread_id response =
     (case response of
        None \<Rightarrow> \<lparr>rg_failed = True, rg_parsed = None, rg_schema_miss = False\<rparr>
      | Some v \<Rightarrow>
          (case model_reply v of
             None \<Rightarrow> \<lparr>rg_failed = True, rg_parsed = None, rg_schema_miss = True\<rparr>
           | Some reply \<Rightarrow>
               \<lparr>rg_failed = False,
                rg_parsed = Some (sanitize_categorization reply messages thread_id (tf_excerpt f)),
                rg_schema_miss = False\<rparr>))"

definition read_rung ::
    "triage_env \<Rightarrow> thread_facts \<Rightarrow> mail_result list \<Rightarrow> string \<Rightarrow> string \<Rightarrow> model_call list \<Rightarrow> rung asked" where
  "read_rung env f messages thread_id stage calls =
     (let (response, calls') = call_model env stage (triage_prompt env (tf_shown f)) 300 calls
      in (read_reply f messages thread_id response, calls'))"

definition repair_category ::
    "triage_env \<Rightarrow> thread_facts \<Rightarrow> mail_result list \<Rightarrow> string \<Rightarrow> model_call list \<Rightarrow> rung asked" where
  "repair_category env f messages thread_id calls =
     (let (response, calls') = call_model env ''inbox_triage'' (category_repair_prompt (tf_shown f)) 120 calls
      in (read_reply f messages thread_id response, calls'))"

definition small_band :: string where "small_band = ''local-small''"

definition climb_rung ::
    "triage_env \<Rightarrow> thread_facts \<Rightarrow> mail_result list \<Rightarrow> string \<Rightarrow> string \<Rightarrow> string \<Rightarrow> model_call list
     \<Rightarrow> (rung \<times> bool) asked" where
  \<comment> \<open>one turn of the ladder: the rung's reply and whether it was repaired\<close>
  "climb_rung env f messages thread_id band stage calls =
     (let (r0, calls0) = read_rung env f messages thread_id stage calls;
          (r1, calls1) = (if rg_failed r0 \<and> band = small_band
                          then read_rung env f messages thread_id stage calls0 else (r0, calls0))
      in if rg_failed r1 \<and> rg_schema_miss r1 \<and> band = small_band
         then (let (r2, calls2) = repair_category env f messages thread_id calls1 in ((r2, True), calls2))
         else ((r1, False), calls1))"

definition next_band :: "triage_env \<Rightarrow> string \<Rightarrow> rung \<Rightarrow> bool \<Rightarrow> string" where
  "next_band env band r repaired =
     (let confidence = numeric_confidence (case rg_parsed r of None \<Rightarrow> [] | Some p \<Rightarrow> p)
      in if repaired \<and> \<not> rg_failed r \<and> confidence \<ge> TIER_CONFIDENCE then band
         else climb (if repaired then ''local-chat'' else band) (profile env) (rg_failed r) confidence)"

definition ladder_rank :: "string \<Rightarrow> nat" where
  "ladder_rank band =
     (case index_of (map fst CLASSIFICATION_LADDER) band of None \<Rightarrow> 0 | Some i \<Rightarrow> length CLASSIFICATION_LADDER - i)"

lemma ladder_rank_eval [simp]:
  "ladder_rank ''local-small'' = 3" "ladder_rank ''local-chat'' = 2" "ladder_rank ''cloud'' = 1"
  "ladder_rank ''needs_review'' = 0"
  by (simp_all add: ladder_rank_def CLASSIFICATION_LADDER_def)

lemma ladder_bands: "map fst CLASSIFICATION_LADDER = [''local-small'', ''local-chat'', ''cloud'']"
  by (simp add: CLASSIFICATION_LADDER_def)

lemma climb_at:
  "climb ''local-small'' p failed c = (if \<not> failed \<and> c \<ge> TIER_CONFIDENCE then ''local-small'' else ''local-chat'')"
  "climb ''local-chat'' p failed c =
     (if \<not> failed \<and> c \<ge> TIER_CONFIDENCE then ''local-chat''
      else if p = ''local-only'' then ''needs_review'' else ''cloud'')"
  "climb ''cloud'' p failed c = (if \<not> failed \<and> c \<ge> TIER_CONFIDENCE then ''cloud'' else ''needs_review'')"
  by (simp_all add: climb_def ladder_bands PROFILES_def)

lemma band_stages: "map_of CLASSIFICATION_LADDER band = Some stage \<longleftrightarrow>
    (band, stage) \<in> {(''local-small'', ''inbox_triage''), (''local-chat'', ''inbox_triage_review''),
                     (''cloud'', ''inbox_triage_escalate'')}"
  by (auto simp: CLASSIFICATION_LADDER_def split: if_splits)

lemma next_band_cases:
  assumes "map_of CLASSIFICATION_LADDER band = Some stage" "next_band env band r repaired \<noteq> band"
    and "repaired \<Longrightarrow> band = ''local-small''"
  shows "ladder_rank (next_band env band r repaired) < ladder_rank band"
proof -
  from assms(1) consider "band = ''local-small''" | "band = ''local-chat''" | "band = ''cloud''"
    by (auto simp: band_stages)
  then show ?thesis
    using assms(2,3) by cases (auto simp: next_band_def climb_at Let_def split: if_splits)
qed

lemma climb_rung_repaired: "climb_rung env f ms t band stage calls = ((r, True), calls') \<Longrightarrow> band = ''local-small''"
  by (auto simp: climb_rung_def small_band_def Let_def split: if_splits prod.splits)

function ladder_loop ::
    "triage_env \<Rightarrow> thread_facts \<Rightarrow> mail_result list \<Rightarrow> string \<Rightarrow> string \<Rightarrow> (pdict \<times> string) option
     \<Rightarrow> model_call list \<Rightarrow> pdict asked" where
  \<comment> \<open>the \<open>while\<close> loop of \<open>_categorize_thread\<close>; the option holds \<open>last_parsed\<close> with \<open>last_stage\<close>\<close>
  "ladder_loop env f messages thread_id band held calls =
     (case map_of CLASSIFICATION_LADDER band of
        None \<Rightarrow>
          (case held of
             Some (p, s) \<Rightarrow> finish env f (with_band p ''needs_review'' s) ''needs_review'' calls
           | None \<Rightarrow> finish env f (with_band (heuristic_categorize messages thread_id) ''needs_review'' [])
                      ''needs_review'' calls)
      | Some stage \<Rightarrow>
          (case climb_rung env f messages thread_id band stage calls of
             ((r, repaired), calls') \<Rightarrow>
               (let held' = (case rg_parsed r of Some p \<Rightarrow> Some (p, stage) | None \<Rightarrow> held);
                    nxt = next_band env band r repaired
                in if nxt = band
                   then finish env f (with_band (case rg_parsed r of Some p \<Rightarrow> p | None \<Rightarrow> []) band stage) band calls'
                   else ladder_loop env f messages thread_id nxt held' calls')))"
  by pat_completeness auto
termination
  by (relation "measure (\<lambda>(env, f, ms, t, band, held, calls). ladder_rank band)")
    (auto intro!: next_band_cases dest: climb_rung_repaired [OF sym])

declare ladder_loop.simps [simp del]

definition categorize_thread :: "triage_env \<Rightarrow> string \<Rightarrow> mail_result list \<Rightarrow> string \<Rightarrow> pdict asked" where
  "categorize_thread env thread_id messages source =
     (let f = thread_facts_of env messages source
      in if rt_band (tf_route f) = ''skip'' then skip_result env f thread_id []
         else ladder_loop env f messages thread_id (rt_band (tf_route f)) None [])"

subsection \<open>One pass\<close>

record pass_env =
  pe_feature :: bool
  pe_triage :: triage_env
  pe_gate :: "(pdict \<Rightarrow> hook_result option) option"
  pe_post :: "post_item list \<Rightarrow> post_item \<Rightarrow> string option"
  pe_accounts :: "(string \<Rightarrow> string list option) option"

record source_t =
  so_name :: string
  so_configured :: bool
  so_state :: pyval
  so_own_query :: bool
  so_fetch :: "string \<Rightarrow> nat \<Rightarrow> mail_result list option"

record triage_result =
  tr_threads :: "triaged_thread list"
  tr_by_category :: "(string \<times> nat) list"
  tr_sources_queried :: "string list"
  tr_skipped :: "(string \<times> string) list"
  tr_posts :: "post_item list"

definition fetch_recent :: "source_t \<Rightarrow> string \<Rightarrow> nat \<Rightarrow> mail_result list" where
  "fetch_recent src query n =
     (case so_fetch src (if so_own_query src then query else source_query (so_name src) query) n of
        None \<Rightarrow> [] | Some rs \<Rightarrow> rs)"

definition unconfigured_reason :: "source_t \<Rightarrow> string" where
  "unconfigured_reason src =
     (case so_state src of
        PStr s \<Rightarrow> if s \<noteq> [] \<and> s \<noteq> ''configured'' then s else ''not_configured''
      | _ \<Rightarrow> ''not_configured'')"

definition post_step :: "pass_env \<Rightarrow> post_item \<Rightarrow> triaged_thread \<times> post_item list \<Rightarrow> triaged_thread \<times> post_item list" where
  \<comment> \<open>the body of the loop of \<open>_persist_to_kb\<close>\<close>
  "post_step env item st =
     (let (t, posts) = st
      in case pe_gate env of
           None \<Rightarrow> st
         | Some gate \<Rightarrow>
             (case gate (po_decision item) of
                None \<Rightarrow> st
              | Some routed \<Rightarrow>
                  if \<not> hr_ok routed \<or> hr_domain routed \<noteq> Some (po_domain item) \<or> po_domain item = [] then st
                  else
                    let artifact_id = pe_post env posts item;
                        t' = (if dget (po_metadata item) ''record_type'' = PStr FINANCIAL_CARD_RECORD_TYPE
                              then t\<lparr>tt_finance_artifact_id := artifact_id\<rparr>
                              else if tt_artifact_id t = None then t\<lparr>tt_artifact_id := artifact_id\<rparr> else t)
                    in (t', posts @ [item])))"

definition persist_to_kb :: "pass_env \<Rightarrow> string \<Rightarrow> triaged_thread \<times> post_item list \<Rightarrow> triaged_thread \<times> post_item list" where
  "persist_to_kb env excerpt st =
     (let (t, posts) = st
      in if \<not> tt_writable t \<or> tt_thread_id t = [] then st
         else fold (post_step env) (posts_for t excerpt) st)"

definition make_thread :: "triage_env \<Rightarrow> string \<Rightarrow> string \<Rightarrow> mail_result list \<Rightarrow> pdict \<Rightarrow> triaged_thread" where
  \<comment> \<open>the record built from a categorization, before the provider fields; the messages are not empty\<close>
  "make_thread env source thread_id msgs cat =
     \<lparr>tt_thread_id = thread_id, tt_source = source,
      tt_participants = sorted_set (filter (\<lambda>s. s \<noteq> []) (map mr_source_name msgs)),
      tt_subject = or_else (mr_title (hd msgs)) thread_id, tt_message_count = length msgs,
      tt_latest_at = show_float (Max (set (map mr_confidence msgs))),
      tt_category = py_str (dget cat ''category''), tt_summary = py_str (dget cat ''summary''),
      tt_suggested_action = py_str (dget cat ''suggested_action''),
      tt_artifact_id = None, tt_finance_artifact_id = None,
      tt_utility = gets_or cat ''utility'' ''none'', tt_action = gets_or cat ''action'' ''keep'',
      tt_confidence = value_confidence (dget cat ''confidence''), tt_writable = thread_writable msgs,
      tt_message_ids = [], tt_account = [], tt_mailbox = [],
      tt_draft_body = gets cat ''draft_body'', tt_band = gets cat ''band'', tt_model = gets cat ''model'',
      tt_classification_reason = gets cat ''classification_reason'', tt_sender = [], tt_observation = []\<rparr>"

definition bump :: "string \<Rightarrow> (string \<times> nat) list \<Rightarrow> (string \<times> nat) list" where
  "bump k counts = AList.update k (Suc (case map_of counts k of None \<Rightarrow> 0 | Some n \<Rightarrow> n)) counts"

definition thread_step :: "pass_env \<Rightarrow> bool \<Rightarrow> string \<Rightarrow> string \<times> mail_result list \<Rightarrow> triage_result \<Rightarrow> triage_result" where
  "thread_step env persist source km result =
     (let (thread_id, msgs) = km;
          cat = fst (categorize_thread (pe_triage env) thread_id msgs source);
          t0 = apply_fields (te_parseaddr (pe_triage env)) msgs (make_thread (pe_triage env) source thread_id msgs cat);
          (t, posts) = (if persist then persist_to_kb env (build_thread_excerpt msgs) (t0, tr_posts result)
                        else (t0, tr_posts result))
      in result\<lparr>tr_by_category := bump (tt_category t) (tr_by_category result),
                tr_threads := tr_threads result @ [t], tr_posts := posts\<rparr>)"

definition categorize_source :: "pass_env \<Rightarrow> bool \<Rightarrow> source_t \<times> mail_result list \<Rightarrow> triage_result \<Rightarrow> triage_result" where
  \<comment> \<open>the body of the loop of \<open>_categorize_sources\<close>\<close>
  "categorize_source env persist sr result =
     (let (src, results) = sr;
          result1 = result\<lparr>tr_sources_queried := tr_sources_queried result @ [so_name src]\<rparr>
      in if results = [] then result1
         else
           let grouped = group_by_thread results;
               included = included_accounts (pe_accounts env) (so_name src);
               threads = filter (\<lambda>kv. account_included (snd kv) included) grouped;
               result2 = (if length threads < length grouped
                          then result1\<lparr>tr_skipped := tr_skipped result1 @ [(so_name src, ''account_not_included'')]\<rparr>
                          else result1)
           in fold (thread_step env persist (so_name src)) threads result2)"

definition candidate_step ::
    "pass_env \<Rightarrow> (string \<Rightarrow> source_t option) \<Rightarrow> string \<Rightarrow> source_t list \<times> (string \<times> string) list
     \<Rightarrow> source_t list \<times> (string \<times> string) list" where
  "candidate_step env registry name st =
     (let (candidates, skips) = st
      in case registry name of
           None \<Rightarrow> (candidates, skips @ [(name, ''not_registered'')])
         | Some src \<Rightarrow>
             if \<not> so_configured src then (candidates, skips @ [(name, unconfigured_reason src)])
             else if included_accounts (pe_accounts env) name = Some []
             then (candidates, skips @ [(name, ''no_included_account'')])
             else (candidates @ [src], skips))"

definition empty_result :: triage_result where
  "empty_result = \<lparr>tr_threads = [], tr_by_category = [], tr_sources_queried = [], tr_skipped = [], tr_posts = []\<rparr>"

definition triage_inboxes ::
    "pass_env \<Rightarrow> (string \<Rightarrow> source_t option) option \<Rightarrow> nat \<Rightarrow> string \<Rightarrow> bool \<Rightarrow> triage_result" where
  "triage_inboxes env registry0 max_results query persist =
     (if \<not> pe_feature env then empty_result\<lparr>tr_skipped := [(''all'', ''feature_gated'')]\<rparr>
      else case registry0 of
             None \<Rightarrow> empty_result\<lparr>tr_skipped := [(''all'', ''registry_unwired'')]\<rparr>
           | Some registry \<Rightarrow>
               (let (candidates, skips) = fold (candidate_step env registry) TRIAGE_SOURCES ([], []);
                    result = empty_result\<lparr>tr_skipped := skips\<rparr>
                in fold (categorize_source env persist)
                     (map (\<lambda>s. (s, fetch_recent s query max_results)) candidates) result))"

end
