(* ===== verification/Samples.thy ===== *)
theory Samples
  imports InboxReview InboxTriage
begin

text \<open>
  Concrete environments and states on which the witnesses of the properties are evaluated: mail
  siblings that answer every call, a model that is down, a ledger with one included account and
  one open proposal, and a thread as a triage pass returns it.
\<close>

definition sample_env :: env where
  "sample_env = \<lparr>actions_flag = ''true'', google_email = ''me@x.org'',
     clock = (\<lambda>n. show_nat n), uuid = (\<lambda>n. ''id-'' @ show_nat n),
     call_tool = (\<lambda>_ _ _ _. Reply ''ok''), apple = (\<lambda>_ _. (75, []))\<rparr>"

definition sample_thread :: triaged_thread where
  "sample_thread = \<lparr>tt_thread_id = ''t1'', tt_source = ''gmail'', tt_participants = [''news@y.org''],
     tt_subject = ''Weekly'', tt_message_count = 1, tt_latest_at = ''0.5'', tt_category = ''newsletter'',
     tt_summary = ''weekly'', tt_suggested_action = ''archive'', tt_artifact_id = None,
     tt_finance_artifact_id = None, tt_utility = ''none'', tt_action = ''archive'', tt_confidence = 9 / 10,
     tt_writable = True, tt_message_ids = [''m1''], tt_account = ''me@x.org'', tt_mailbox = [],
     tt_draft_body = [], tt_band = ''local-small'', tt_model = ''inbox_triage'',
     tt_classification_reason = [], tt_sender = ''news@y.org'',
     tt_observation = [(''labels'', PStr ''INBOX,UNREAD'')]\<rparr>"

definition sample_ledger :: ledger where
  \<comment> \<open>one included account and the open proposal for the sample thread\<close>
  "sample_ledger =
     snd (projr (propose ''0'' ''d1'' (thread_proposal sample_thread ''me@x.org'' [''m1''])
       (upsert_account ''gmail'' ''me@x.org'' [] True False [''newsletter''] ''readonly'' empty_ledger)))"

definition sample_world :: world where
  "sample_world = \<lparr>w_ledger = Some sample_ledger, w_trace = [], w_ticks = 1\<rparr>"

lemma sample_ledger_inv: "ledger_inv sample_ledger"
proof -
  let ?l = "upsert_account ''gmail'' ''me@x.org'' [] True False [''newsletter''] ''readonly'' empty_ledger"
  have "decisions ?l = []" by (simp add: upsert_account_def empty_ledger_def Let_def)
  then obtain l' where l': "propose ''0'' ''d1'' (thread_proposal sample_thread ''me@x.org'' [''m1'']) ?l = Inr (''d1'', l')"
    by (simp add: propose_def)
  have "ledger_inv ?l" by (intro upsert_account_inv ledger_inv_empty)
  then show ?thesis using propose_inv [OF _ l'] by (simp add: sample_ledger_def l')
qed

definition sample_triage :: triage_env where
  "sample_triage = \<lparr>te_skill = ''skill'', te_draft_instruction = ''reply'', te_profile = ''local-only'',
     te_llm = (\<lambda>_ _ _ _. None), te_memory = None, te_scan = (\<lambda>_. None), te_scan_expected = False,
     te_parseaddr = (\<lambda>s. s), te_now = ''now''\<rparr>"

definition sample_mail :: mail_result where
  "sample_mail = \<lparr>mr_source_name = ''a@b.co'', mr_title = ''w'', mr_content = ''hi'',
     mr_confidence = 1 / 2,
     mr_metadata = [(''provider_thread_id'', PStr ''t1''), (''provider_message_id'', PStr ''m1'')]\<rparr>"

definition sample_pinned :: triage_env where
  \<comment> \<open>the sender's memory holds a pinned choice\<close>
  "sample_pinned = sample_triage\<lparr>te_memory := Some (\<lambda>_ _ _ _. Some (PDict
     [(''memory_action'', PStr ''archive''), (''memory_category'', PStr ''newsletter''),
      (''memory_confidence'', PFloat (95 / 100))]))\<rparr>"

definition sample_pass :: pass_env where
  "sample_pass = \<lparr>pe_feature = True, pe_triage = sample_triage, pe_gate = Some rag_route_hook,
     pe_post = (\<lambda>_ _. Some ''a1''), pe_accounts = None\<rparr>"

end
