(* ===== verification/ExecutorSafety.thy ===== *)
theory ExecutorSafety
  imports Samples
begin

text \<open>
  What an apply may do: the calls it makes stay with its provider and its allowlist, a dry run
  changes nothing, the ledger keeps its invariant and every other decision, what reaches Mail is
  safe even through the outbox, and a settled result is on record.
\<close>

subsection \<open>Events stay with the provider and on its allowlist\<close>

definition own_event :: "string \<Rightarrow> event \<Rightarrow> bool" where
  "own_event p e =
     (case e of
        EvTool q t a \<Rightarrow> q = p \<and> t \<in> set (provider_tools p) \<and> t \<notin> set FORBIDDEN_TOOLS
      | EvApple argv \<Rightarrow> p = ''apple_mail'')"

lemma tool_emits [emits_intros]: "emits w_trace (own_event p) (tool env p t args performed)"
  by (simp add: emits_def tool_def log_event_def own_event_def raise_exc_def Let_def split: tool_reply.split)

lemma on_ledger_silent [emits_intros]: "emits w_trace ok (on_ledger f)"
  by (simp add: emits_def on_ledger_def eff_defs)

lemma queue_silent [emits_intros]: "emits w_trace ok (queue env d cs)"
  by (simp add: emits_def queue_def split: option.split sum.split prod.split)

lemma run_apple_emits [emits_intros]: "emits w_trace (own_event ''apple_mail'') (run_apple env argv)"
  by (simp add: emits_def run_apple_def log_event_def own_event_def)

interpretation tool_gate: gate w_trace "own_event p" "\<lambda>(t, args, performed). tool env p t args performed"
  by unfold_locales (auto intro: tool_emits)

lemma emits_prod [emits_intros]: "(\<And>a b. emits trc ok (f a b)) \<Longrightarrow> emits trc ok (case x of (a, b) \<Rightarrow> f a b)"
  by (cases x) auto

lemma gmail_label_ids_emits [emits_intros]: "emits w_trace (own_event ''gmail'') (gmail_label_ids env a ps)"
  unfolding gmail_label_ids_def Let_def by (intro emits_intros)

lemma label_id_emits [emits_intros]: "emits w_trace ok (label_id n known ps)"
  unfolding label_id_def Let_def by (intro emits_intros)

lemma with_label_ids_emits [emits_intros]: "emits w_trace ok (with_label_ids args known ps)"
  unfolding with_label_ids_def resolve_key_def Let_def by (intro emits_intros)

lemma ensure_emits [emits_intros]: "emits w_trace (own_event ''gmail'') (ensure_gmail_labels env args st)"
  unfolding ensure_gmail_labels_def ensure_label_def Let_def by (intro emits_intros)

lemma gmail_emits [emits_intros]: "emits w_trace (own_event ''gmail'') (perform_gmail env plan)"
  unfolding perform_gmail_def gmail_step_def gmail_send_def Let_def by (intro emits_intros)

lemma outlook_folder_emits [emits_intros]: "emits w_trace (own_event ''outlook'') (outlook_folder env n p ps)"
  unfolding outlook_folder_def Let_def by (intro emits_intros)

lemma outlook_emits [emits_intros]: "emits w_trace (own_event ''outlook'') (perform_outlook env plan)"
  unfolding perform_outlook_def outlook_step_def resolve_outlook_destination_def Let_def by (intro emits_intros)

lemma py_iter_emits [emits_intros]: "emits w_trace ok (py_iter v)"
  by (simp add: py_iter_def emits_ret emits_raise split: pyval.split)

lemma flush_commands_emits [emits_intros]: "emits w_trace (own_event ''apple_mail'') (flush_commands env cs)"
  by (induction cs) (auto intro!: emits_intros)

lemma flush_rows_emits [emits_intros]: "emits w_trace (own_event ''apple_mail'') (flush_rows env rows)"
  by (induction rows) (auto simp: Let_def intro!: emits_intros)

lemma flush_outbox_emits [emits_intros]: "emits w_trace (own_event ''apple_mail'') (flush_outbox env)"
  unfolding flush_outbox_def by (intro emits_intros)

lemma apple_commands_emits [emits_intros]: "emits w_trace (own_event ''apple_mail'') (apple_commands env d cs rest ps)"
  by (induction rest arbitrary: ps) (auto intro!: emits_intros)

lemma perform_apple_emits [emits_intros]: "emits w_trace (own_event ''apple_mail'') (perform_apple env d plan)"
  unfolding perform_apple_def apple_find_def Let_def by (intro emits_intros)

lemma perform_emits: "p \<in> {''gmail'', ''outlook'', ''apple_mail''} \<Longrightarrow> emits w_trace (own_event p) (perform env p d plan)"
  unfolding perform_def by (auto intro!: emits_intros)

lemma record_outcome_emits [emits_intros]: "emits w_trace ok (record_outcome d st rc)"
  and store_cursor_emits [emits_intros]: "emits w_trace ok (store_cursor d)"
  unfolding record_outcome_def store_cursor_def Let_def by (intro emits_intros)+

lemma emits_exc [emits_intros]:
  "(\<And>r cs. emits trc ok (f r cs)) \<Longrightarrow> (\<And>s. emits trc ok (g s)) \<Longrightarrow>
   emits trc ok (case e of ApplyError r cs \<Rightarrow> f r cs | Crash s \<Rightarrow> g s)"
  by (cases e) auto

lemma apply_live_emits: "p \<in> {''gmail'', ''outlook'', ''apple_mail''} \<Longrightarrow> emits w_trace (own_event p) (apply_live env p d plan)"
  unfolding apply_live_def by (intro emits_intros perform_emits)

lemma plan_apply_provider:
  "ap_error (plan_apply d) = [] \<Longrightarrow> gets2 d ''provider'' ''source'' \<in> {''gmail'', ''outlook'', ''apple_mail''}"
  by (auto simp: plan_apply_def Let_def plan_error_def PROVIDER_TOOLS_def split: if_splits)

lemma apply_prepared_emits: "emits w_trace (own_event (gets2 d ''provider'' ''source'')) (apply_prepared env dry d)"
  unfolding apply_prepared_def apply_planned_def Let_def
  by (intro emits_intros apply_live_emits plan_apply_provider) auto

lemma dget_setdefault: "k \<noteq> k' \<Longrightarrow> dget (setdefault d k v) k' = dget d k'"
  by (simp add: setdefault_def)

lemma dget_prepare_account:
  "k \<notin> {''account_known'', ''account_included'', ''folder_sort''} \<Longrightarrow> dget (prepare_account l p a d) k = dget d k"
  by (simp add: prepare_account_def Let_def split: option.split)

lemma prepare_sets_provider: "dget (prepare l d) ''provider'' = PStr (gets2 d ''provider'' ''source'')"
  by (simp add: prepare_def Let_def dget_setdefault dget_prepare_account)

lemma prepare_keeps_source: "dget (prepare l d) ''source'' = dget d ''source''"
  by (simp add: prepare_def Let_def dget_setdefault dget_prepare_account)

lemma prepare_provider: "gets2 (prepare l d) ''provider'' ''source'' = gets2 d ''provider'' ''source''"
  by (simp add: gets2_def prepare_keeps_source prepare_sets_provider py_or_def Let_def py_str_truthy)

lemma emits_read: "(\<And>s. emits trc ok (k (f s))) \<Longrightarrow> emits trc ok (bind_eff (gets_eff f) k)"
  by (simp add: emits_def eff_defs)

lemma apply_own_events:
  "emits w_trace (own_event (gets2 d ''provider'' ''source'')) (apply_decision env dry en d)"
proof -
  have A: "emits w_trace (own_event (gets2 d ''provider'' ''source'')) (apply_prepared env dry' (prepare l d))" for dry' l
    using apply_prepared_emits [of "prepare l d" env dry'] by (simp only: prepare_provider)
  have B: "emits w_trace (own_event (gets2 d ''provider'' ''source'')) (apply_prepared env dry' (prepare l (prepare l' d)))" for dry' l l'
    using apply_prepared_emits [of "prepare l (prepare l' d)" env dry'] by (simp only: prepare_provider)
  show ?thesis unfolding apply_decision_def Let_def
    by (intro emits_read emits_if emits_bind emits_ret A B)
qed

subsection \<open>Dry runs touch nothing\<close>

lemma apply_prepared_dry: "snd (apply_prepared env True d w) = w"
  by (simp add: apply_prepared_def apply_planned_def eff_defs Let_def split: option.split)

lemma apply_dry_state:
  assumes "dry \<or> \<not> (case en of None \<Rightarrow> inbox_actions_enabled env | Some b \<Rightarrow> b)"
  shows "snd (apply_decision env dry en d w) = w"
proof -
  have T: "apply_prepared env True e w = (r, w') \<Longrightarrow> w' = w" for e r w'
    by (metis apply_prepared_dry snd_conv)
  with assms show ?thesis
    by (cases dry) (auto simp: apply_prepared_dry apply_decision_def eff_defs Let_def split: prod.split sum.split dest: T intro: sym)
qed

subsection \<open>What an apply keeps of the ledger\<close>

definition led :: "(ledger \<Rightarrow> bool) \<Rightarrow> world \<Rightarrow> bool" where
  "led I w = (case w_ledger w of None \<Rightarrow> False | Some l \<Rightarrow> I l)"

lemma led_simps [simp]:
  "led I (w\<lparr>w_trace := t\<rparr>) = led I w" "led I (w\<lparr>w_ticks := n\<rparr>) = led I w"
  "led I (log_event e w) = led I w"
  by (simp_all add: led_def log_event_def)

lemma keeps_exc [keeps_intros]:
  "(\<And>r cs. keeps P (f r cs)) \<Longrightarrow> (\<And>s. keeps P (g s)) \<Longrightarrow>
   keeps P (case e of ApplyError r cs \<Rightarrow> f r cs | Crash s \<Rightarrow> g s)"
  by (cases e) auto

lemma on_ledger_led: "(\<And>l. I l \<Longrightarrow> I (f l)) \<Longrightarrow> keeps (led I) (on_ledger f)"
  by (auto simp: keeps_def on_ledger_def eff_defs led_def split: option.splits)

lemma tool_led: "keeps (led I) (tool env p t a ps)"
  by (simp add: keeps_def tool_def raise_exc_def Let_def split: tool_reply.split)

lemma run_apple_led: "keeps (led I) (run_apple env argv)"
  by (simp add: keeps_def run_apple_def)

lemma py_iter_keeps [keeps_intros]: "keeps P (py_iter v)"
  by (simp add: py_iter_def keeps_ret keeps_raise split: pyval.split)

text \<open>
  The interface an invariant of the ledger has to offer for applies to keep it: the five
  ledger writes an apply performs, each on the decision it applies.
\<close>

definition APPLY_STATUSES :: "string list" where
  "APPLY_STATUSES = [''applied'', ''failed'', ''dropped'']"

locale apply_invariant =
  fixes I :: "ledger \<Rightarrow> bool" and did :: string
  assumes delete_outbox_I: "I l \<Longrightarrow> I (delete_outbox oid l)"
    and enqueue_outbox_I: "I l \<Longrightarrow> enqueue_outbox now oid did c l = Inr (x, l') \<Longrightarrow> I l'"
    and set_mailbox_before_I: "I l \<Longrightarrow> I (set_mailbox_before did m l)"
    and set_sync_cursor_I: "I l \<Longrightarrow> I (set_sync_cursor p a cur l)"
    and record_I: "st \<in> set APPLY_STATUSES \<Longrightarrow> I l \<Longrightarrow> I (record_decision did st rc l)"
begin

lemma tool_I: "keeps (led I) (tool env p t a ps)"
  by (rule tool_led)

lemma label_id_I: "keeps (led I) (label_id n known ps)"
  unfolding label_id_def Let_def by (intro keeps_intros)

lemma gmail_I: "keeps (led I) (perform_gmail env plan)"
  unfolding perform_gmail_def gmail_step_def gmail_send_def gmail_label_ids_def ensure_gmail_labels_def
    ensure_label_def with_label_ids_def resolve_key_def Let_def
  by (intro keeps_intros tool_I label_id_I)

lemma folder_I: "keeps (led I) (outlook_folder env n p ps)"
  unfolding outlook_folder_def Let_def by (intro keeps_intros tool_I)

lemma outlook_I: "keeps (led I) (perform_outlook env plan)"
  unfolding perform_outlook_def outlook_step_def resolve_outlook_destination_def Let_def
  by (intro keeps_intros tool_I folder_I)

lemma flush_commands_I: "keeps (led I) (flush_commands env cs)"
  by (induction cs) (auto intro!: keeps_intros run_apple_led)

lemma flush_rows_I: "keeps (led I) (flush_rows env rows)"
  by (induction rows) (auto simp: Let_def intro!: keeps_intros flush_commands_I on_ledger_led delete_outbox_I)

lemma flush_outbox_I: "keeps (led I) (flush_outbox env)"
  unfolding flush_outbox_def by (intro keeps_intros flush_rows_I)

lemma queue_I: "py_str (dget d ''decision_id'') = did \<Longrightarrow> keeps (led I) (queue env d cs)"
  by (auto simp: keeps_def queue_def led_def split: option.splits sum.splits dest: enqueue_outbox_I)

lemma apple_commands_I: "py_str (dget d ''decision_id'') = did \<Longrightarrow> keeps (led I) (apple_commands env d cs rest ps)"
  by (induction rest arbitrary: ps) (auto intro!: keeps_intros run_apple_led queue_I)

lemma perform_apple_I: "py_str (dget d ''decision_id'') = did \<Longrightarrow> keeps (led I) (perform_apple env d plan)"
  unfolding perform_apple_def apple_find_def Let_def
  by (intro keeps_intros run_apple_led queue_I apple_commands_I flush_outbox_I on_ledger_led)
    (simp_all add: set_mailbox_before_I)

lemma record_outcome_I:
  "py_str (dget d ''decision_id'') = did \<Longrightarrow> st \<in> set APPLY_STATUSES \<Longrightarrow> keeps (led I) (record_outcome d st rc)"
  unfolding record_outcome_def by (intro keeps_intros on_ledger_led) (simp_all add: record_I)

lemma store_cursor_I: "keeps (led I) (store_cursor d)"
  unfolding store_cursor_def Let_def by (intro keeps_intros on_ledger_led set_sync_cursor_I)

lemma statuses: "''applied'' \<in> set APPLY_STATUSES" "''failed'' \<in> set APPLY_STATUSES" "''dropped'' \<in> set APPLY_STATUSES"
  by (simp_all add: APPLY_STATUSES_def)

lemma apply_live_I: "py_str (dget d ''decision_id'') = did \<Longrightarrow> keeps (led I) (apply_live env p d plan)"
  unfolding apply_live_def perform_def
  by (intro keeps_intros perform_apple_I gmail_I outlook_I record_outcome_I store_cursor_I statuses)

lemma apply_prepared_I: "py_str (dget d ''decision_id'') = did \<Longrightarrow> keeps (led I) (apply_prepared env dry d)"
  unfolding apply_prepared_def apply_planned_def Let_def
  by (intro keeps_intros apply_live_I record_outcome_I store_cursor_I statuses)

lemma apply_I:
  assumes "py_str (dget d ''decision_id'') = did"
  shows "keeps (led I) (apply_decision env dry en d)"
proof -
  have d: "dget (prepare l e) ''decision_id'' = dget e ''decision_id''" for l e
    by (simp add: prepare_def Let_def dget_setdefault dget_prepare_account)
  have A: "keeps P (bind_eff (gets_eff f) k)" if "\<And>s. keeps P (k (f s))" for P and f :: "world \<Rightarrow> pdict" and k :: "pdict \<Rightarrow> apply_result act"
    using that by (simp add: keeps_def eff_defs)
  show ?thesis unfolding apply_decision_def Let_def
    by (intro A keeps_if keeps_bind keeps_ret apply_prepared_I) (simp_all add: d assms)
qed

end

interpretation apply_ledger_inv: apply_invariant ledger_inv did
  by unfold_locales (auto intro: inv_intros record_decision_inv simp: APPLY_STATUSES_def)

definition other_rows :: "string \<Rightarrow> ledger \<Rightarrow> decision_row list" where
  "other_rows did l = filter (\<lambda>r. dr_id r \<noteq> did) (decisions l)"

lemma other_rows_update:
  "(\<And>r. dr_id (upd r) = dr_id r) \<Longrightarrow>
   filter (\<lambda>r. dr_id r \<noteq> did) (update_where (\<lambda>r. dr_id r = did) upd ds) = filter (\<lambda>r. dr_id r \<noteq> did) ds"
  by (induction ds) (auto simp: update_where_def)

interpretation frame_of: apply_invariant "\<lambda>l. other_rows did l = K \<and> map dr_id (decisions l) = ids
    \<and> accounts l = A \<and> senders l = S \<and> rules l = R" did
  by unfold_locales
    (auto simp: other_rows_def other_rows_update map_update_where delete_outbox_def enqueue_outbox_def set_mailbox_before_def
      set_sync_cursor_def record_decision_def Let_def split: if_splits)

text \<open>
  C19. Frame: an apply, live or dry, changes no decision row but its own, adds and deletes no row, and
  leaves accounts, sender memory and rules as they were.
\<close>
theorem apply_frame:
  assumes "w_ledger w = Some l"
  shows "\<exists>l'. w_ledger (snd (apply_decision env dry en d w)) = Some l'
    \<and> other_rows (py_str (dget d ''decision_id'')) l' = other_rows (py_str (dget d ''decision_id'')) l
    \<and> map dr_id (decisions l') = map dr_id (decisions l) \<and> accounts l' = accounts l
    \<and> senders l' = senders l \<and> rules l' = rules l"
proof -
  let ?did = "py_str (dget d ''decision_id'')"
  have "led (\<lambda>k. other_rows ?did k = other_rows ?did l \<and> map dr_id (decisions k) = map dr_id (decisions l)
      \<and> accounts k = accounts l \<and> senders k = senders l \<and> rules k = rules l)
    (snd (apply_decision env dry en d w))"
    using frame_of.apply_I [of d ?did "other_rows ?did l" "map dr_id (decisions l)" "accounts l" "senders l" "rules l" env dry en]
      assms by (simp add: keeps_def led_def)
  then show ?thesis by (auto simp: led_def split: option.splits)
qed

theorem apply_frame_witness:
  "\<exists>l'. w_ledger (snd (apply_decision sample_env False None [(''decision_id'', PStr ''d1'')] sample_world)) = Some l'
    \<and> other_rows ''d1'' l' = other_rows ''d1'' sample_ledger
    \<and> map dr_id (decisions l') = [''d1''] \<and> accounts l' = accounts sample_ledger
    \<and> senders l' = [] \<and> rules l' = []"
proof -
  have "map dr_id (decisions sample_ledger) = [''d1'']" "senders sample_ledger = []" "rules sample_ledger = []"
    by code_simp+
  then show ?thesis
    using apply_frame [where w = sample_world and l = sample_ledger and d = "[(''decision_id'', PStr ''d1'')]"
      and env = sample_env and dry = False and en = None]
    by (simp add: sample_world_def dget_Cons)
qed

lemma apply_keeps_inv:
  assumes "w_ledger w = Some l" "ledger_inv l"
  shows "\<exists>l'. w_ledger (snd (apply_decision env dry en d w)) = Some l' \<and> ledger_inv l'"
  using apply_ledger_inv.apply_I [of d "py_str (dget d ''decision_id'')" env dry en] assms
  by (simp add: keeps_def led_def) (metis option.case_eq_if option.collapse option.sel option.distinct(1))

subsection \<open>What reaches Mail\<close>

definition safe_argv :: "pyval list \<Rightarrow> bool" where
  "safe_argv argv =
     (argv \<noteq> [] \<and> str_in (hd argv) APPLE_COMMANDS
      \<and> (hd argv = PStr ''move'' \<longrightarrow> \<not> banned_mailbox (py_str (last argv))))"

definition safe_event :: "event \<Rightarrow> bool" where
  "safe_event e = (case e of EvTool p t a \<Rightarrow> t \<in> set (provider_tools p) \<and> t \<notin> set FORBIDDEN_TOOLS
                   | EvApple argv \<Rightarrow> safe_argv argv)"

definition safe_commands :: "pyval \<Rightarrow> bool" where
  "safe_commands v = (case v of PList xs \<Rightarrow> list_all (\<lambda>a. case a of PList argv \<Rightarrow> safe_argv argv | _ \<Rightarrow> False) xs
                      | _ \<Rightarrow> False)"

definition safe_outbox :: "ledger \<Rightarrow> bool" where
  "safe_outbox l =
     list_all (\<lambda>r. dget (outbox_command r) ''provider'' = PStr ''apple_mail'' \<longrightarrow>
                  safe_commands (dget (outbox_command r) ''commands'')) (outbox l)"

definition safe_world :: "world \<Rightarrow> bool" where
  "safe_world w =
     (list_all safe_event (w_trace w) \<and> (case w_ledger w of None \<Rightarrow> True | Some l \<Rightarrow> safe_outbox l))"

lemma json_ok_strs [simp]: "json_ok (strs xs)"
  by (simp add: strs_def list_all_iff)

lemma queue_command_parses: "outbox_command \<lparr>ob_id = i, ob_decision_id = d,
    ob_command_json = json_dumps (PDict (queue_command cs)), ob_created = n\<rparr> = queue_command cs"
proof -
  have "json_ok (PDict (queue_command cs))" by (simp add: queue_command_def list_all_iff)
  then show ?thesis by (simp add: outbox_command_def json_roundtrip)
qed

lemma enqueue_safe:
  assumes "safe_outbox l" "\<forall>argv \<in> set cs. safe_argv (map PStr argv)"
    and "enqueue_outbox now i d (queue_command cs) l = Inr (x, l')"
  shows "safe_outbox l'"
proof -
  have "safe_commands (dget (queue_command cs) ''commands'')"
    using assms(2) by (simp add: queue_command_def dget_Cons safe_commands_def list_all_iff strs_def)
  then show ?thesis
    using assms(1,3) by (auto simp: safe_outbox_def enqueue_outbox_def Let_def list_all_iff queue_command_parses split: if_splits)
qed

lemma on_ledger_safe:
  "(\<And>l. safe_outbox l \<Longrightarrow> safe_outbox (f l)) \<Longrightarrow> keeps safe_world (on_ledger f)"
  by (auto simp: keeps_def on_ledger_def eff_defs safe_world_def split: option.splits)

lemma outbox_same: "outbox l' = outbox l \<Longrightarrow> safe_outbox l \<Longrightarrow> safe_outbox l'"
  by (simp add: safe_outbox_def)

lemma delete_safe: "safe_outbox l \<Longrightarrow> safe_outbox (delete_outbox i l)"
  by (auto simp: safe_outbox_def delete_outbox_def list_all_iff)

lemma tool_safe: "keeps safe_world (tool env p t a ps)"
  by (simp add: keeps_def tool_def log_event_def safe_world_def safe_event_def raise_exc_def Let_def split: tool_reply.split)

lemma run_apple_safe: "safe_argv argv \<Longrightarrow> keeps safe_world (run_apple env argv)"
  by (simp add: keeps_def run_apple_def log_event_def safe_world_def safe_event_def)

lemma queue_safe: "\<forall>argv \<in> set cs. safe_argv (map PStr argv) \<Longrightarrow> keeps safe_world (queue env d cs)"
  by (auto simp: keeps_def queue_def safe_world_def split: option.splits sum.splits dest: enqueue_safe)

lemma label_id_safe: "keeps safe_world (label_id n known ps)"
  unfolding label_id_def Let_def by (intro keeps_intros)

lemma gmail_safe: "keeps safe_world (perform_gmail env plan)"
  unfolding perform_gmail_def gmail_step_def gmail_send_def gmail_label_ids_def ensure_gmail_labels_def
    ensure_label_def with_label_ids_def resolve_key_def Let_def
  by (intro keeps_intros tool_safe label_id_safe)

lemma folder_safe: "keeps safe_world (outlook_folder env n p ps)"
  unfolding outlook_folder_def Let_def by (intro keeps_intros tool_safe)

lemma outlook_safe: "keeps safe_world (perform_outlook env plan)"
  unfolding perform_outlook_def outlook_step_def resolve_outlook_destination_def Let_def
  by (intro keeps_intros tool_safe folder_safe)

lemma flush_commands_safe:
  "list_all (\<lambda>a. case a of PList argv \<Rightarrow> safe_argv argv | _ \<Rightarrow> False) cs \<Longrightarrow> keeps safe_world (flush_commands env cs)"
proof (induction cs)
  case (Cons a cs)
  then obtain argv where a: "a = PList argv" "safe_argv argv" by (cases a) auto
  have "py_iter a = ret argv" by (simp add: py_iter_def a(1))
  then have "flush_commands env (a # cs) = bind_eff (run_apple env argv)
       (\<lambda>(code, payload).
          if code = APPLE_EXIT_NOT_RUNNING then ret False
          else if code = APPLE_EXIT_AUTOMATION_DENIED then raise_exc (ApplyError ''automation_denied'' [])
          else if code \<noteq> 0 \<or> \<not> truthy (dget_or payload ''ok'' (PBool True))
          then raise_exc (ApplyError (gets_or payload ''error'' ''queued apply failed'') [])
          else flush_commands env cs)"
    by (simp add: bind_eff_def ret_def)
  then show ?case using Cons a by (auto intro!: keeps_intros run_apple_safe)
qed (simp add: keeps_ret)

lemma flush_rows_safe:
  "(\<forall>r \<in> set rows. dget (outbox_command r) ''provider'' = PStr ''apple_mail'' \<longrightarrow>
      safe_commands (dget (outbox_command r) ''commands'')) \<Longrightarrow> keeps safe_world (flush_rows env rows)"
proof (induction rows)
  case (Cons r rows)
  show ?case
  proof (cases "dget (outbox_command r) ''provider'' = PStr ''apple_mail''")
    case True
    with Cons.prems obtain cs where cs: "dget (outbox_command r) ''commands'' = PList cs"
        "list_all (\<lambda>a. case a of PList argv \<Rightarrow> safe_argv argv | _ \<Rightarrow> False) cs"
      by (auto simp: safe_commands_def split: pyval.splits)
    have "py_iter (py_or (PList cs) (PList [])) = ret cs"
      by (simp add: py_iter_def py_or_def)
    then show ?thesis using Cons cs True
      by (auto simp: Let_def bind_ret intro!: keeps_intros flush_commands_safe on_ledger_safe delete_safe)
  qed (use Cons in \<open>auto simp: Let_def\<close>)
qed (simp add: keeps_ret)

lemma flush_outbox_safe: "keeps safe_world (flush_outbox env)"
proof (unfold keeps_def, intro allI impI)
  fix w assume w: "safe_world w"
  show "safe_world (snd (flush_outbox env w))"
  proof (cases "w_ledger w")
    case (Some l)
    then have "safe_outbox l" using w by (simp add: safe_world_def)
    then have "keeps safe_world (flush_rows env (list_outbox l))"
      by (intro flush_rows_safe) (simp add: safe_outbox_def list_outbox_def list_all_iff)
    with Some w show ?thesis by (simp add: flush_outbox_def eff_defs keeps_def)
  qed (use w in \<open>simp add: flush_outbox_def eff_defs\<close>)
qed

lemma apple_commands_safe:
  "\<forall>argv \<in> set cs. safe_argv (map PStr argv) \<Longrightarrow> \<forall>argv \<in> set rest. safe_argv (map PStr argv) \<Longrightarrow>
   keeps safe_world (apple_commands env d cs rest ps)"
  by (induction rest arbitrary: ps) (auto intro!: keeps_intros run_apple_safe queue_safe)

lemma find_safe: "safe_argv (map PStr [''find'', i])"
  by (simp add: safe_argv_def str_in_def APPLE_COMMANDS_def)

lemma perform_apple_safe:
  "\<forall>c \<in> set (ap_calls plan). safe_argv (map PStr (argv_of c)) \<Longrightarrow> keeps safe_world (perform_apple env d plan)"
  unfolding perform_apple_def apple_find_def Let_def
  by (intro keeps_intros run_apple_safe queue_safe apple_commands_safe flush_outbox_safe on_ledger_safe find_safe)
    (auto simp: set_mailbox_before_def intro: outbox_same)

lemma record_outcome_safe: "keeps safe_world (record_outcome d st rc)"
  unfolding record_outcome_def
  by (intro keeps_intros on_ledger_safe) (auto simp: record_decision_def intro: outbox_same)

lemma store_cursor_safe: "keeps safe_world (store_cursor d)"
  unfolding store_cursor_def Let_def
  by (intro keeps_intros on_ledger_safe) (auto simp: set_sync_cursor_def intro: outbox_same)

text \<open>A planned Mail command is the argument vector it names.\<close>

definition apple_shape :: "planned_call \<Rightarrow> bool" where
  "apple_shape c = (\<exists>argv. c = apple_call argv \<and> 2 \<le> length argv \<and> (hd argv = ''move'' \<longrightarrow> length argv = 3))"

lemma apple_shape_call: "2 \<le> length argv \<Longrightarrow> (hd argv = ''move'' \<longrightarrow> length argv = 3) \<Longrightarrow> apple_shape (apple_call argv)"
  by (auto simp: apple_shape_def)

lemma apple_message_shape: "c \<in> set (apple_message_calls a cat fs s b m i) \<Longrightarrow> apple_shape c"
  by (auto simp: apple_message_calls_def intro!: apple_shape_call split: if_splits)

lemma plan_apple_shape:
  assumes "gets2 d ''provider'' ''source'' = ''apple_mail''" "c \<in> set (ap_calls (plan_apply d))"
  shows "apple_shape c"
  using assms
  by (auto simp: plan_apply_def apple_plan_def Let_def plan_defs intro: apple_message_shape split: if_splits)

lemma refused_safe:
  assumes "refused_call ''apple_mail'' c = []" "apple_shape c"
  shows "safe_argv (map PStr (argv_of c))"
proof -
  from assms(2) obtain argv where c: "c = apple_call argv" "2 \<le> length argv" "hd argv = ''move'' \<longrightarrow> length argv = 3"
    by (auto simp: apple_shape_def)
  have argv: "argv_of c = argv" by (simp add: c argv_of_def names_at_def apple_call_def dget_Cons strs_def comp_def)
  from c obtain x xs where x: "argv = x # xs" "xs \<noteq> []" by (cases argv; cases "tl argv") auto
  from assms(1) c x have "x \<in> set APPLE_COMMANDS"
    by (auto simp: refused_call_def apple_call_def Let_def provider_tools_def PROVIDER_TOOLS_def tab_def split: if_splits)
  moreover from assms(1) c x have "x = ''move'' \<longrightarrow> \<not> banned_mailbox (last xs)"
    by (auto simp: refused_call_def apple_call_def Let_def dget_Cons strs_def last_map split: if_splits)
  ultimately show ?thesis using x by (simp add: argv safe_argv_def str_in_def last_map)
qed

lemma checked_not_refused:
  assumes "checked_plan p d plan = None" "c \<in> set (ap_calls plan)"
  shows "refused_call p c = []"
proof -
  have "refused_tool p plan = []" using assms(1) by (simp add: checked_plan_def Let_def split: if_splits)
  moreover have "refused_tool p plan \<noteq> []" if "find (\<lambda>c. refused_call p c \<noteq> []) (ap_calls plan) = Some e" for e
    using find_SomeD [OF that] by (simp add: refused_tool_def that)
  ultimately have "find (\<lambda>c. refused_call p c \<noteq> []) (ap_calls plan) = None" by (metis option.exhaust)
  with assms(2) show ?thesis by (auto simp: find_None_iff)
qed

lemma apply_live_safe:
  assumes "p = ''apple_mail'' \<Longrightarrow> \<forall>c \<in> set (ap_calls plan). safe_argv (map PStr (argv_of c))"
  shows "keeps safe_world (apply_live env p d plan)"
  unfolding apply_live_def perform_def using assms
  by (intro keeps_intros perform_apple_safe gmail_safe outlook_safe record_outcome_safe store_cursor_safe) auto

lemma apply_prepared_safe: "keeps safe_world (apply_prepared env dry d)"
proof -
  let ?p = "gets2 d ''provider'' ''source''"
  have L: "keeps safe_world (apply_live env ?p d (plan_apply d))" if "checked_plan ?p d (plan_apply d) = None"
    by (rule apply_live_safe) (metis checked_not_refused plan_apple_shape refused_safe that)
  have C: "keeps safe_world (case checked_plan ?p d (plan_apply d) of Some r \<Rightarrow> ret r | None \<Rightarrow> m)"
    if "checked_plan ?p d (plan_apply d) = None \<Longrightarrow> keeps safe_world m" for m
    using that by (auto split: option.split intro: keeps_ret)
  show ?thesis
    unfolding apply_prepared_def apply_planned_def Let_def
    by (intro keeps_intros C L record_outcome_safe store_cursor_safe)
qed

lemma apply_decision_safe: "keeps safe_world (apply_decision env dry en d)"
  unfolding apply_decision_def Let_def by (intro keeps_intros apply_prepared_safe)

text \<open>
  C1. Whatever the decision, the flag and the replies of the mail siblings, an apply made where everything
  called and queued before was allowed only appends to the calls, and each call it adds goes to the
  decision's own provider and is allowed there: a tool of that provider's allowlist and never a forbidden one;
  for Mail's helper, also when the outbox is flushed, one of its known commands, and never a move to a junk or
  trash mailbox.
\<close>
theorem apply_events_allowed:
  assumes "safe_world w"
  shows "\<exists>es. w_trace (snd (apply_decision env dry en d w)) = w_trace w @ es
     \<and> list_all (\<lambda>e. own_event (gets2 d ''provider'' ''source'') e \<and> safe_event e) es"
proof -
  obtain es where es: "w_trace (snd (apply_decision env dry en d w)) = w_trace w @ es"
      "list_all (own_event (gets2 d ''provider'' ''source'')) es"
    using apply_own_events [of d env dry en] unfolding emits_def by blast
  have "safe_world (snd (apply_decision env dry en d w))"
    using apply_decision_safe [of env dry en d] assms unfolding keeps_def by blast
  then have "list_all safe_event es" by (simp add: safe_world_def es(1))
  with es show ?thesis by (auto simp: list_all_iff)
qed

theorem apply_events_allowed_witness:
  "\<exists>es. w_trace (snd (apply_decision sample_env False None [(''decision_id'', PStr ''d1''), (''provider'', PStr ''apple_mail'')] sample_world)) = es
     \<and> list_all (\<lambda>e. own_event ''apple_mail'' e \<and> safe_event e) es"
proof -
  have "safe_world sample_world" by code_simp
  moreover have "gets2 [(''decision_id'', PStr ''d1''), (''provider'', PStr ''apple_mail'')] ''provider'' ''source'' = ''apple_mail''"
    by code_simp
  ultimately show ?thesis
    using apply_events_allowed [where w = sample_world and d = "[(''decision_id'', PStr ''d1''), (''provider'', PStr ''apple_mail'')]"
      and env = sample_env and dry = False and en = None]
    by (simp add: sample_world_def)
qed

subsection \<open>An applied result is on record\<close>

definition recorded :: "pdict \<Rightarrow> string \<Rightarrow> pdict \<Rightarrow> ledger \<Rightarrow> bool" where
  "recorded d status receipt l =
     (\<forall>r \<in> set (decisions l). dr_id r = py_str (dget d ''decision_id'') \<longrightarrow>
        dr_status r = status \<and> dr_receipt_json r = json_dumps (PDict (kept_receipt d receipt)))"

lemma record_outcome_recorded:
  assumes "truthy (dget d ''decision_id'')" "record_outcome d st rc w = (Inr u, w')" "w_ledger w = Some l"
  shows "\<exists>l'. w_ledger w' = Some l' \<and> recorded d st rc l'"
  using assms by (auto simp: record_outcome_def on_ledger_def modify_eff_def record_decision_def recorded_def
      update_where_def)

lemma led_some:
  assumes "keeps (led (\<lambda>_. True)) m" "m w = (x, w1)" "w_ledger w = Some l"
  shows "\<exists>l1. w_ledger w1 = Some l1"
proof -
  have "led (\<lambda>_. True) w" using assms(3) by (simp add: led_def)
  then have "led (\<lambda>_. True) w1" using assms(1,2) by (metis keeps_def snd_conv)
  then show ?thesis by (auto simp: led_def split: option.splits)
qed

interpretation apply_some: apply_invariant "\<lambda>_. True" did
  by unfold_locales auto

lemma perform_some: "perform env p d plan w = (x, w1) \<Longrightarrow> w_ledger w = Some l \<Longrightarrow> \<exists>l1. w_ledger w1 = Some l1"
  by (rule led_some [where m = "perform env p d plan"])
    (auto simp: perform_def intro!: keeps_intros apply_some.perform_apple_I apply_some.gmail_I apply_some.outlook_I)

lemma apply_live_outcome:
  assumes did: "truthy (dget d ''decision_id'')" and run: "apply_live env p d plan w = (Inr r, w')" and l: "w_ledger w = Some l"
  shows "\<exists>l'. w_ledger w' = Some l' \<and>
     (ar_status r = ''applied'' \<and> ar_ok r \<and> recorded d ''applied'' (applied_receipt p plan (ar_calls r)) l'
      \<or> ar_status r = ''failed'' \<and> \<not> ar_ok r
        \<and> recorded d ''failed'' [(''error'', PStr (ar_reason r)), (''calls'', PList (map PDict (ar_calls r)))] l'
      \<or> ar_status r = ''queued'')"
proof -
  from run consider
      (a) ps st rs w1 where "perform env p d plan w = (Inr (ps, st, rs), w1)"
        "(if st = ''queued'' then ret (result True ''queued'' ps rs [])
          else then_eff (store_cursor d)
                 (then_eff (record_outcome d ''applied'' (applied_receipt p plan ps))
                    (ret (result True ''applied'' ps [] [])))) w1 = (Inr r, w')"
    | (b) rs cs w1 u where "perform env p d plan w = (Inl (ApplyError rs cs), w1)"
        "record_outcome d ''failed'' [(''error'', PStr rs), (''calls'', PList (map PDict cs))] w1 = (Inr u, w')"
        "r = result False ''failed'' cs rs []"
    by (auto simp: apply_live_def ok_simps split: exc.splits) (metis exc.exhaust)
  then show ?thesis
  proof cases
    case a
    show ?thesis
    proof (cases "st = ''queued''")
      case True
      with a perform_some [OF a(1) l] show ?thesis by (auto simp: ret_ok result_def)
    next
      case False
      with a obtain x w2 y where w2: "store_cursor d w1 = (Inr x, w2)"
          "record_outcome d ''applied'' (applied_receipt p plan ps) w2 = (Inr y, w')" "r = result True ''applied'' ps [] []"
        by (auto simp: ok_simps)
      obtain l1 where "w_ledger w1 = Some l1" using perform_some [OF a(1) l] by blast
      with w2(1) obtain l2 where l2: "w_ledger w2 = Some l2"
        using led_some [OF apply_some.store_cursor_I] by blast
      show ?thesis using record_outcome_recorded [OF did w2(2) l2] w2(3) by (auto simp: result_def)
    qed
  next
    case b
    obtain l1 where l1: "w_ledger w1 = Some l1" using perform_some [OF b(1) l] by blast
    show ?thesis using record_outcome_recorded [OF did b(2) l1] b(3) by (auto simp: result_def)
  qed
qed

text \<open>
  A live apply of a checked plan that returns settles its row: it reports applied and the row is
  applied with the performed calls and the labels left behind, or it reports failed and the row is failed with
  the error and the calls, or it reports queued and the row waits.
\<close>
theorem apply_live_settles:
  assumes "truthy (dget d ''decision_id'')" and "apply_live env p d plan w = (Inr r, w')" and "w_ledger w = Some l"
  shows "\<exists>l'. w_ledger w' = Some l' \<and>
     (ar_status r = ''applied'' \<and> ar_ok r \<and> recorded d ''applied'' (applied_receipt p plan (ar_calls r)) l'
      \<or> ar_status r = ''failed'' \<and> \<not> ar_ok r
        \<and> recorded d ''failed'' [(''error'', PStr (ar_reason r)), (''calls'', PList (map PDict (ar_calls r)))] l'
      \<or> ar_status r = ''queued'')"
  using apply_live_outcome [OF assms] .

theorem apply_live_settles_witness:
  "fst (apply_live sample_env ''gmail'' [(''decision_id'', PStr ''d1'')]
          \<lparr>ap_calls = [], ap_move = False, ap_noop = False, ap_error = [], ap_labels_after = None\<rparr> sample_world)
     = Inr (result True ''applied'' [] [] [])
   \<and> (\<exists>l'. w_ledger (snd (apply_live sample_env ''gmail'' [(''decision_id'', PStr ''d1'')]
          \<lparr>ap_calls = [], ap_move = False, ap_noop = False, ap_error = [], ap_labels_after = None\<rparr> sample_world)) = Some l'
        \<and> recorded [(''decision_id'', PStr ''d1'')] ''applied'' [(''calls'', PList [])] l')"
proof -
  let ?d = "[(''decision_id'', PStr ''d1'')]"
  let ?p = "\<lparr>ap_calls = [], ap_move = False, ap_noop = False, ap_error = [], ap_labels_after = None\<rparr>"
  have r: "fst (apply_live sample_env ''gmail'' ?d ?p sample_world) = Inr (result True ''applied'' [] [] [])"
    by code_simp
  then obtain w' where w: "apply_live sample_env ''gmail'' ?d ?p sample_world = (Inr (result True ''applied'' [] [] []), w')"
    by (metis prod.collapse)
  have "truthy (dget ?d ''decision_id'')" by code_simp
  moreover have "w_ledger sample_world = Some sample_ledger" by (simp add: sample_world_def)
  ultimately show ?thesis
    using r w apply_live_settles [OF _ w, where l = sample_ledger] by (simp add: result_def applied_receipt_def)
qed

end
