(* ===== verification/LedgerRuns.thy ===== *)
theory LedgerRuns
  imports InboxLearn
begin

text \<open>
  Runs of the ledger: every write as one operation, the invariant over any sequence of them, the
  open proposals as an abstract map that the rows refine, and how corrections become pins.
\<close>

subsection \<open>Operations\<close>

datatype row_status = RsApplied | RsFailed | RsDropped | RsSkipped | RsUndone

fun status_text :: "row_status \<Rightarrow> string" where
  "status_text RsApplied = ''applied''"
| "status_text RsFailed = ''failed''"
| "status_text RsDropped = ''dropped''"
| "status_text RsSkipped = ''skipped''"
| "status_text RsUndone = ''undone''"

datatype ledger_op =
    OpUpsertAccount string string string bool bool "string list" string
  | OpUpdateAccount string string pdict
  | OpPropose string string proposal
  | OpRecord string row_status pdict
  | OpSetMailboxBefore string string
  | OpSetCursor string string string
  | OpEnqueue string string string pdict
  | OpDeleteOutbox string
  | OpNoteCorrection string string string string string string string
  | OpPinSender string string string string string string
  | OpUpsertRule string string string pyval string string bool

definition written :: "ledger \<Rightarrow> ledger_error + ('a \<times> ledger) \<Rightarrow> ledger" where
  \<comment> \<open>an error rolls the transaction back\<close>
  "written l r = (case r of Inl _ \<Rightarrow> l | Inr (_, l') \<Rightarrow> l')"

fun ledger_step :: "ledger_op \<Rightarrow> ledger \<Rightarrow> ledger" where
  "ledger_step (OpUpsertAccount p a d i f aa c) l = upsert_account p a d i f aa c l"
| "ledger_step (OpUpdateAccount p a fs) l = written l (update_account p a fs l)"
| "ledger_step (OpPropose now i p) l = written l (propose now i p l)"
| "ledger_step (OpRecord d st rc) l = record_decision d (status_text st) rc l"
| "ledger_step (OpSetMailboxBefore d m) l = set_mailbox_before d m l"
| "ledger_step (OpSetCursor p a c) l = set_sync_cursor p a c l"
| "ledger_step (OpEnqueue now i d c) l = written l (enqueue_outbox now i d c l)"
| "ledger_step (OpDeleteOutbox i) l = delete_outbox i l"
| "ledger_step (OpNoteCorrection now s t c a dm d) l = written l (note_correction now s t c a dm d l)"
| "ledger_step (OpPinSender now s t c a dm) l = written l (pin_sender now s t c a dm l)"
| "ledger_step (OpUpsertRule f i s c a g e) l = written l (upsert_rule f i s c a g e l)"

lemma written_inv: "ledger_inv l \<Longrightarrow> (\<And>a l'. r = Inr (a, l') \<Longrightarrow> ledger_inv l') \<Longrightarrow> ledger_inv (written l r)"
  by (auto simp: written_def split: sum.split)

lemma status_text_closed: "status_text st \<noteq> ''proposed''"
  by (cases st) auto

lemma ledger_step_inv: "ledger_inv l \<Longrightarrow> ledger_inv (ledger_step op l)"
  by (cases op)
    (auto intro!: written_inv intro: upsert_account_inv update_account_inv propose_inv set_mailbox_before_inv
      set_sync_cursor_inv enqueue_outbox_inv delete_outbox_inv note_correction_inv pin_sender_inv upsert_rule_inv
      record_decision_inv [OF _ status_text_closed])

interpretation ledger_runs: machine ledger_step "\<lambda>l. l = empty_ledger" ledger_inv
  by unfold_locales (auto intro: ledger_step_inv ledger_inv_empty)

subsection \<open>Open proposals as a map\<close>

definition open_map :: "ledger \<Rightarrow> (string \<times> string) \<Rightarrow> string option" where
  "open_map l = map_of (map (\<lambda>r. (thread_key r, dr_id r)) (filter is_open (decisions l)))"

lemma open_map_keys: "fst ` set (map (\<lambda>r. (thread_key r, dr_id r)) rs) = thread_key ` set rs"
  by force

lemma open_map_propose:
  assumes "propose now i p l = Inr (d, l')"
  shows "open_map l' = (open_map l)((pr_source p, pr_thread_id p) \<mapsto> i)"
proof -
  let ?k = "(pr_source p, pr_thread_id p)"
  have l': "decisions l' = update_where (open_for (pr_source p) (pr_thread_id p)) (\<lambda>r. r\<lparr>dr_status := ''superseded''\<rparr>) (decisions l)
      @ [proposed_row now i p]"
    using assms by (auto simp: propose_def Let_def split: if_splits)
  have "filter is_open (update_where (open_for s t) (\<lambda>r. r\<lparr>dr_status := ''superseded''\<rparr>) ds)
      = filter (\<lambda>r. thread_key r \<noteq> (s, t)) (filter is_open ds)" for s t ds
    by (induction ds) (auto simp: update_where_def open_for_def is_open_def thread_key_def)
  then have "filter is_open (decisions l') = filter (\<lambda>r. thread_key r \<noteq> ?k) (filter is_open (decisions l)) @ [proposed_row now i p]"
    by (simp add: l' is_open_def proposed_row_def)
  then have A: "open_map l' = map_of (map (\<lambda>r. (thread_key r, dr_id r)) (filter (\<lambda>r. thread_key r \<noteq> ?k) (filter is_open (decisions l)))
      @ [(?k, i)])"
    by (simp add: open_map_def proposed_row_def thread_key_def)
  have "map_of (map (\<lambda>r. (thread_key r, dr_id r)) (filter (\<lambda>r. thread_key r \<noteq> ?k) rs) @ [(?k, i)])
      = (map_of (map (\<lambda>r. (thread_key r, dr_id r)) rs))(?k \<mapsto> i)" for rs
    by (induction rs) (auto simp: fun_eq_iff)
  from this [of "filter is_open (decisions l)"] show ?thesis unfolding A open_map_def [of l] .
qed

lemma map_of_distinct_vals:
  assumes "distinct (map fst xs)" "distinct (map snd xs)"
  shows "map_of (filter (\<lambda>kv. snd kv \<noteq> v) xs) k = (if map_of xs k = Some v then None else map_of xs k)"
proof (cases "map_of xs k")
  case None
  then have "k \<notin> fst ` set xs" by (simp add: map_of_eq_None_iff)
  then have "k \<notin> fst ` set (filter (\<lambda>kv. snd kv \<noteq> v) xs)" by auto
  then show ?thesis using None by (metis map_of_eq_None_iff)
next
  case (Some w)
  have d: "distinct (map fst (filter (\<lambda>kv. snd kv \<noteq> v) xs))" using assms(1) by (simp add: distinct_map_filter)
  have kw: "(k, w) \<in> set xs" using Some by (rule map_of_SomeD)
  show ?thesis
  proof (cases "w = v")
    case True
    have "(k, u) \<in> set xs \<Longrightarrow> u = v" for u using kw assms(1) True by (auto dest: eq_key_imp_eq_value)
    then have "k \<notin> fst ` set (filter (\<lambda>kv. snd kv \<noteq> v) xs)" by auto
    then show ?thesis using Some True by (metis map_of_eq_None_iff)
  next
    case False
    then have "(k, w) \<in> set (filter (\<lambda>kv. snd kv \<noteq> v) xs)" using kw by simp
    then show ?thesis using d Some False by simp
  qed
qed

lemma open_map_record:
  assumes "ledger_inv l" "st \<noteq> ''proposed''"
  shows "open_map (record_decision d st rc l) k = (if open_map l k = Some d then None else open_map l k)"
proof -
  let ?xs = "map (\<lambda>r. (thread_key r, dr_id r)) (filter is_open (decisions l))"
  have "filter is_open (decisions (record_decision d st rc l)) = filter (\<lambda>r. is_open r \<and> dr_id r \<noteq> d) (decisions l)"
    using assms(2) by (simp add: record_decision_def filter_update_where is_open_def)
  then have e: "map (\<lambda>r. (thread_key r, dr_id r)) (filter is_open (decisions (record_decision d st rc l)))
      = filter (\<lambda>kv. snd kv \<noteq> d) ?xs"
    by (simp add: filter_map comp_def conj_commute)
  have "distinct (map fst ?xs)" "distinct (map snd ?xs)"
    using assms(1) by (simp_all add: ledger_inv_def open_keys_def comp_def distinct_map_filter)
  then show ?thesis unfolding open_map_def e by (rule map_of_distinct_vals)
qed

lemma open_map_find:
  "map_option dr_id (find (open_for s t) ds) = map_of (map (\<lambda>r. (thread_key r, dr_id r)) (filter is_open ds)) (s, t)"
  by (induction ds) (auto simp: open_for_def is_open_def thread_key_def)

subsection \<open>Corrections and pins\<close>

lemma note_correction_once:
  assumes "note_correction now s t c a dm i l = Inr (r, l')" "i \<noteq> []"
  shows "note_correction now' s t c' a' dm' i l' = Inr (r, l')"
proof -
  have t: "fold_sender t \<noteq> []" using assms(1) by (auto simp: note_correction_eq Let_def)
  let ?e = "find_sender (strip s) (fold_sender t) l"
  have "find_sender (strip s) (fold_sender t) l' = Some r \<and> sm_last_decision r = i"
  proof (cases "counted_already i ?e")
    case True
    then show ?thesis using assms t by (auto simp: note_correction_eq counted_already_def split: option.splits)
  next
    case False
    then have r: "r = correction_row now (strip s) (fold_sender t) c a dm i ?e" and l': "l' = write_sender r l"
      using assms(1) t by (auto simp: note_correction_eq Let_def)
    have "find_sender (strip s) (fold_sender t) l' = Some r"
      unfolding l' using find_sender_write [of r "fold_sender t" l] by (simp add: r)
    moreover have "sm_last_decision r = i" by (simp add: r correction_row_def Let_def)
    ultimately show ?thesis by simp
  qed
  then show ?thesis using t assms(2) by (simp add: note_correction_eq counted_already_def)
qed

lemma note_correction_hits:
  assumes "note_correction now s t c a dm i l = Inr (r, l')"
    and "\<not> counted_already i (find_sender (strip s) (fold_sender t) l)"
  shows "sm_hits r = (case find_sender (strip s) (fold_sender t) l of
           Some e \<Rightarrow> if sm_action e = a \<and> sm_category e = c then sm_hits e + 1 else 1 | None \<Rightarrow> 1)
     \<and> sm_action r = a \<and> sm_category r = c \<and> (sm_pinned r = 1 \<longleftrightarrow> sm_hits r \<ge> PIN_HITS)
     \<and> find_sender (strip s) (fold_sender t) l' = Some r"
proof -
  have t: "fold_sender t \<noteq> []" using assms(1) by (auto simp: note_correction_eq Let_def)
  let ?e = "find_sender (strip s) (fold_sender t) l"
  have r: "r = correction_row now (strip s) (fold_sender t) c a dm i ?e" and l': "l' = write_sender r l"
    using assms t by (auto simp: note_correction_eq Let_def)
  have "find_sender (strip s) (fold_sender t) l' = Some r"
    unfolding l' using find_sender_write [of r "fold_sender t" l] by (simp add: r)
  then show ?thesis by (simp add: r correction_row_def Let_def of_bool_int_def)
qed

lemma note_correction_last:
  assumes "note_correction now s t c a dm i l = Inr (r, l')"
    and "\<not> counted_already i (find_sender (strip s) (fold_sender t) l)"
  shows "sm_last_decision r = i"
  using assms by (auto simp: note_correction_eq Let_def correction_row_def split: if_splits)

lemma note_correction_returns: "fold_sender t \<noteq> [] \<Longrightarrow> \<exists>r l'. note_correction now s t c a dm i l = Inr (r, l')"
  by (simp add: note_correction_eq Let_def)

lemma memory_confidence_pin:
  assumes "sender_ok r"
  shows "memory_confidence r \<ge> PIN_CONFIDENCE \<longleftrightarrow> sm_hits r \<ge> PIN_HITS"
  using assms by (auto simp: memory_confidence_def sender_ok_def of_bool_int_def PIN_CONFIDENCE_def)

end
