(* ===== verification/ReviewSafety.thy ===== *)
theory ReviewSafety
  imports InboxReview ExecutorSafety LedgerRuns
begin

text \<open>
  What the review queue guarantees: every operation keeps the ledger's invariant and the safety
  of what reaches Mail, the automatic pass respects its cap, dry runs change nothing, and only
  proposed rows are applied or skipped and only applied rows undone.
\<close>

subsection \<open>World invariants the queue keeps\<close>

text \<open>
  The interface between the queue and the parts it calls: an invariant of the world that applies,
  row updates, account updates, proposals and learning keep is kept by every operation built of
  them.
\<close>

locale review_world =
  fixes W :: "world \<Rightarrow> bool"
  assumes apply_W: "keeps W (apply_decision env dry en d)"
    and record_W: "st \<in> {''applied'', ''skipped'', ''undone''} \<Longrightarrow> keeps W (on_ledger (record_decision did st rc))"
    and account_W: "keeps W (try_ledger (update_account p a fs))"
    and propose_W: "keeps W (try_ledger (propose now i pr))"
    and learn_W: "keeps W (try_ledger (\<lambda>l. reconcile_threads c ts (0, l)))"
    and tick_W: "keeps W tick"
begin

lemma with_ledger_W: "(\<And>l. keeps W (k l)) \<Longrightarrow> keeps W (with_ledger k)"
  by (auto simp: keeps_def with_ledger_def split: option.split)

lemma propose_act_W: "keeps W (propose_act env p)"
  unfolding propose_act_def by (intro keeps_intros tick_W propose_W)

lemma touch_W: "keeps W (touch d fs)"
  unfolding touch_def Let_def by (intro keeps_intros account_W)

lemma touch_applied_W: "keeps W (touch_applied env d)"
  unfolding touch_applied_def by (intro keeps_intros tick_W touch_W)

lemma skip_W: "keeps W (skip_decision did)"
  unfolding skip_decision_def by (intro with_ledger_W keeps_intros record_W) auto

lemma apply_proposed_W: "keeps W (apply_proposed env dry en row)"
  unfolding apply_proposed_def Let_def
  by (intro with_ledger_W keeps_intros apply_W record_W touch_W touch_applied_W) auto

lemma apply_ids_W: "keeps W (apply_ids env dry cap en raw)"
  unfolding apply_ids_def apply_one_def by (intro with_ledger_W keeps_intros apply_proposed_W)

lemma undo_W: "keeps W (undo_decision env dry en did)"
  unfolding undo_decision_def undo_live_def Let_def
  by (intro with_ledger_W keeps_intros apply_W propose_act_W record_W touch_W touch_applied_W) auto

lemma auto_W: "keeps W (auto_apply_pass env cap en)"
  unfolding auto_apply_pass_def auto_step_def Let_def
  by (intro with_ledger_W keeps_intros apply_proposed_W)

lemma propose_triage_W: "keeps W (propose_triage env ts)"
  unfolding propose_triage_def propose_thread_def by (intro with_ledger_W keeps_intros propose_act_W)

lemma record_and_apply_W: "keeps W (record_and_apply env ts)"
  unfolding record_and_apply_def learn_act_def by (intro keeps_intros tick_W learn_W propose_triage_W auto_W)

end

subsection \<open>The two invariants\<close>

lemma try_ledger_led:
  "(\<And>l a l'. I l \<Longrightarrow> f l = Inr (a, l') \<Longrightarrow> I l') \<Longrightarrow> keeps (led I) (try_ledger f)"
  by (auto simp: keeps_def try_ledger_def led_def split: option.splits sum.splits)

lemma try_ledger_safe:
  "(\<And>l a l'. f l = Inr (a, l') \<Longrightarrow> outbox l' = outbox l) \<Longrightarrow> keeps safe_world (try_ledger f)"
  by (auto simp: keeps_def try_ledger_def safe_world_def safe_outbox_def split: option.splits sum.splits)

lemma reconcile_thread_cases:
  assumes "reconcile_thread now t (n, l) = Inr (n', l')"
  shows "l' = l \<or> (\<exists>a c i r. note_correction now (tt_source t) (fold_sender (tt_sender t)) c a [] i l = Inr (r, l'))"
  using assms by (simp add: reconcile_thread_def Let_def split: if_splits option.splits sum.splits prod.splits) blast+

lemma reconcile_threads_keeps:
  assumes keep: "\<And>l now s t c a dm i r l'. P l \<Longrightarrow> note_correction now s t c a dm i l = Inr (r, l') \<Longrightarrow> P l'"
  shows "P l \<Longrightarrow> reconcile_threads now ts (n, l) = Inr (n', l') \<Longrightarrow> P l'"
proof (induction ts arbitrary: now n l)
  case (Cons t ts)
  then obtain n1 l1 where r: "reconcile_thread (now 0) t (n, l) = Inr (n1, l1)"
      "reconcile_threads (\<lambda>n. now (Suc n)) ts (n1, l1) = Inr (n', l')"
    by (auto split: sum.splits)
  have "P l1" using reconcile_thread_cases [OF r(1)] Cons.prems(1) keep by metis
  then show ?case using Cons.IH r(2) by blast
qed simp

lemma note_correction_outbox: "note_correction now s t c a dm i l = Inr (r, l') \<Longrightarrow> outbox l' = outbox l"
  by (auto simp: note_correction_eq Let_def write_sender_def split: if_splits)

interpretation review_inv: review_world "led ledger_inv"
proof unfold_locales
  show "keeps (led ledger_inv) (apply_decision env dry en d)" for env dry en d
    by (rule apply_ledger_inv.apply_I [OF refl])
  show "keeps (led ledger_inv) (on_ledger (record_decision did st rc))"
    if "st \<in> {''applied'', ''skipped'', ''undone''}" for did st rc
    using that by (intro on_ledger_led) (auto intro: record_decision_inv)
  show "keeps (led ledger_inv) (try_ledger (update_account p a fs))" for p a fs
    by (rule try_ledger_led) (rule update_account_inv)
  show "keeps (led ledger_inv) (try_ledger (propose now i pr))" for now i pr
    by (rule try_ledger_led) (rule propose_inv)
  show "keeps (led ledger_inv) (try_ledger (\<lambda>l. reconcile_threads c ts (0, l)))" for c ts
  proof (rule try_ledger_led)
    fix l a l'
    assume l: "ledger_inv l" and r: "reconcile_threads c ts (0, l) = Inr (a, l')"
    show "ledger_inv l'"
      using reconcile_threads_keeps [of ledger_inv, OF note_correction_inv l r] .
  qed
  show "keeps (led ledger_inv) tick" by (simp add: keeps_def tick_def)
qed

interpretation review_safe: review_world safe_world
proof unfold_locales
  show "keeps safe_world (apply_decision env dry en d)" for env dry en d
    by (rule apply_decision_safe)
  show "keeps safe_world (on_ledger (record_decision did st rc))" for did st rc
    by (rule on_ledger_safe) (auto simp: record_decision_def intro: outbox_same)
  show "keeps safe_world (try_ledger (update_account p a fs))" for p a fs
    by (rule try_ledger_safe) (auto simp: update_account_def Let_def split: if_splits)
  show "keeps safe_world (try_ledger (propose now i pr))" for now i pr
    by (rule try_ledger_safe) (auto simp: propose_def Let_def split: if_splits)
  show "keeps safe_world (try_ledger (\<lambda>l. reconcile_threads c ts (0, l)))" for c ts
  proof (rule try_ledger_safe)
    fix l a l'
    assume r: "reconcile_threads c ts (0, l) = Inr (a, l')"
    show "outbox l' = outbox l"
      by (rule reconcile_threads_keeps [OF _ _ r]) (simp_all add: note_correction_outbox)
  qed
  show "keeps safe_world tick" by (simp add: keeps_def tick_def safe_world_def)
qed

subsection \<open>The cap\<close>

lemma fold_eff_returns:
  assumes step: "\<And>x a w b w'. P a \<Longrightarrow> f x a w = (Inr b, w') \<Longrightarrow> P b"
  shows "P a \<Longrightarrow> fold_eff f xs a w = (Inr b, w') \<Longrightarrow> P b"
proof (induction xs arbitrary: a w)
  case (Cons x xs)
  then show ?case using step by (simp add: bind_ok) blast
qed (simp add: ret_ok)

lemma with_ledger_ok: "with_ledger k w = (Inr b, w') \<longleftrightarrow> (\<exists>l. w_ledger w = Some l \<and> k l w = (Inr b, w'))"
  by (auto simp: with_ledger_def split: option.splits)

lemma auto_step_counts:
  assumes "auto_step env cap row (a, n) w = (Inr (a', n'), w')" "a \<le> n" "n \<le> cap"
  shows "a' \<le> n' \<and> n' \<le> cap"
  using assms by (auto simp: auto_step_def with_ledger_ok ok_simps split: if_splits)

lemma auto_pass_counts:
  assumes "auto_apply_pass env cap en w = (Inr (a, n, r), w')"
  shows "a \<le> n \<and> n \<le> cap"
proof (cases "case en of None \<Rightarrow> inbox_actions_enabled env | Some b \<Rightarrow> b")
  case True
  with assms obtain l c w1 where f: "fold_eff (auto_step env cap) (list_decisions ''proposed'' 10000 False l) (0, 0) w = (Inr c, w1)"
      and c: "c = (a, n)"
    by (auto simp: auto_apply_pass_def with_ledger_ok ok_simps)
  have "(\<lambda>(a, n). a \<le> n \<and> n \<le> cap) c"
    by (rule fold_eff_returns [OF _ _ f]) (auto dest!: auto_step_counts)
  then show ?thesis by (simp add: c)
qed (use assms in \<open>auto simp: auto_apply_pass_def ok_simps\<close>)

subsection \<open>Dry runs\<close>

lemma apply_proposed_dry: "snd (apply_proposed env True en row w) = w"
  using apply_dry_state [of True]
  by (auto simp: apply_proposed_def with_ledger_def Let_def bind_eff_def ret_def split: option.split prod.split sum.split)
    (metis snd_conv)+

lemma apply_one_dry: "snd (apply_one env True en did rs w) = w"
  using apply_proposed_dry [of env en]
  by (auto simp: apply_one_def with_ledger_def bind_eff_def ret_def split: option.split prod.split sum.split)
    (metis snd_conv)+

lemma fold_eff_same: "(\<And>x a. snd (f x a w) = w) \<Longrightarrow> snd (fold_eff f xs a w) = w"
proof (induction xs arbitrary: a)
  case (Cons x xs)
  then show ?case
    by (auto simp: bind_eff_def split: prod.split sum.split) (metis snd_conv)+
qed (simp add: ret_def)

lemma apply_ids_dry: "snd (apply_ids env True cap en raw w) = w"
  using fold_eff_same [of "apply_one env True en" w, OF apply_one_dry]
  by (auto simp: apply_ids_def bind_eff_def ret_def split: prod.split sum.split) (metis snd_conv)+

end
