(* ===== verification/ReviewRules.thy ===== *)
theory ReviewRules
  imports ReviewSafety
begin

text \<open>
  Rules of the review queue that follow single decisions through it: an account that is not open
  is not touched, a decision is performed at most once, skipping leaves the outbox alone, and what
  a proposal stores is what the executor later reads.
\<close>

subsection \<open>Accounts that are not open\<close>

lemma has_key_setdefault: "has_key d k \<Longrightarrow> has_key (setdefault d k' v) k"
  by (simp add: setdefault_def has_key_dset)

lemma prepare_keeps_account:
  assumes "has_key d ''account_known''"
  shows "dget (prepare l d) ''account_known'' = dget d ''account_known''"
    and "dget (prepare l d) ''account_included'' = dget d ''account_included''"
    and "has_key (prepare l d) ''account_known''"
    and "gets (prepare l d) ''action'' = gets d ''action''"
    and "has_key (prepare l d) ''account_included'' = has_key d ''account_included''"
  using assms
  by (auto simp: prepare_def prepare_account_def setdefault_def Let_def dict_simps gets_def split: option.split)

definition account_closed :: "pdict \<Rightarrow> bool" where
  "account_closed d =
     (\<not> truthy (dget d ''account_known'')
      \<or> gets d ''action'' \<noteq> ''undo'' \<and> has_key d ''account_included'' \<and> \<not> truthy (dget d ''account_included''))"

lemma prepare_closed: "has_key d ''account_known'' \<Longrightarrow> account_closed (prepare l d) = account_closed d"
  by (simp add: account_closed_def prepare_keeps_account)

lemma closed_fails: "account_closed d \<Longrightarrow> checked_plan p d plan \<noteq> None"
proof -
  assume c: "account_closed d"
  have "account_closed (hook_decision d plan)"
    using c by (simp add: account_closed_def hook_decision_def Let_def dict_simps)
  then have "\<not> passes (account_hook (hook_decision d plan))"
    by (auto simp: account_closed_def account_hook_def passes_def hook_fail_def dget_or_def has_key_def dget_def
        split: option.splits)
  then have "\<not> hr_ok (run_hooks (hook_decision d plan) True)" by (simp add: run_hooks_ok_iff)
  then show ?thesis by (simp add: checked_plan_def Let_def split: option.split)
qed

lemma closed_silent: "account_closed d \<Longrightarrow> emits w_trace (\<lambda>_. False) (apply_prepared env dry d)"
proof -
  assume c: "account_closed d"
  have p: "apply_planned env dry p d plan =
     (if ap_error plan \<noteq> []
      then then_eff (if dry then ret () else record_outcome d ''failed'' [(''error'', PStr (ap_error plan))])
             (ret (result False ''failed'' [] (ap_error plan) []))
      else ret (the (checked_plan p d plan)))" for p plan
    using closed_fails [OF c, of p plan] by (auto simp: apply_planned_def)
  show ?thesis unfolding apply_prepared_def p by (intro emits_intros)
qed

lemma emits_nothing: "emits trc (\<lambda>_. False) m \<Longrightarrow> trc (snd (m s)) = trc s"
  by (auto simp: emits_def) (metis append_Nil2 list.exhaust list.pred_inject(2))

lemma apply_closed_silent:
  assumes "has_key d ''account_known''" "account_closed d"
  shows "emits w_trace (\<lambda>_. False) (apply_decision env dry en d)"
  unfolding apply_decision_def Let_def
  by (intro emits_read emits_intros closed_silent) (simp_all add: prepare_closed prepare_keeps_account assms)

lemma decision_account:
  "dget (decision_from_row env row a) ''account_known'' = PBool (a \<noteq> None)"
  "has_key (decision_from_row env row a) ''account_known''"
  "dget (decision_from_row env row a) ''account_included''
     = PBool (truthy_at a ''included'' \<and> \<not> truthy_at a ''removed'')"
  "has_key (decision_from_row env row a) ''account_included''"
  "dget (decision_from_row env row a) ''action'' = py_or (dget row ''action'') (PStr ''keep'')"
  by (simp_all add: decision_from_row_def Let_def dget_Cons has_key_def)

lemma record_silent: "emits w_trace ok (on_ledger f)"
  by (rule on_ledger_silent)

lemma try_silent [emits_intros]: "emits w_trace ok (try_ledger f)"
  by (auto simp: emits_def try_ledger_def split: option.split sum.split)

lemma tick_silent [emits_intros]: "emits w_trace ok tick"
  by (simp add: emits_def tick_def)

lemma touch_silent [emits_intros]: "emits w_trace ok (touch d fs)" "emits w_trace ok (touch_applied env d)"
  unfolding touch_applied_def touch_def Let_def by (intro emits_intros)+

lemma with_ledger_at: "w_ledger w = Some l \<Longrightarrow> with_ledger k w = k l w"
  by (simp add: with_ledger_def)

definition closed_ledger :: "ledger \<Rightarrow> ledger" where
  \<comment> \<open>the ledger with every account excluded\<close>
  "closed_ledger l = l\<lparr>accounts := map (\<lambda>a. a\<lparr>acc_included := 0\<rparr>) (accounts l)\<rparr>"

text \<open>
  C11. Mail of an account that is not open is not touched: applying a proposal whose account is
  unknown, or a proposal other than an undo whose account is excluded or removed, makes no call at
  all, live or dry. An undo is let through for an account that was excluded or removed since.
\<close>
theorem closed_account_untouched:
  assumes "w_ledger w = Some l"
    and "row_account row l = None \<or> gets row ''action'' \<noteq> ''undo''
      \<and> \<not> (truthy_at (row_account row l) ''included'' \<and> \<not> truthy_at (row_account row l) ''removed'')"
  shows "w_trace (snd (apply_proposed env dry en row w)) = w_trace w"
proof -
  let ?d = "decision_from_row env row (row_account row l)"
  have "gets row ''action'' \<noteq> ''undo'' \<Longrightarrow> gets ?d ''action'' \<noteq> ''undo''"
    by (cases "dget row ''action''") (auto simp: gets_def decision_account py_or_def)
  then have "account_closed ?d"
    using assms(2) by (auto simp: account_closed_def decision_account)
  note silent = apply_closed_silent [OF decision_account(2) this]
  show ?thesis
    unfolding apply_proposed_def with_ledger_at [OF assms(1)] Let_def
    by (rule emits_nothing) (intro emits_intros silent)
qed

theorem closed_account_untouched_witness:
  "w_trace (snd (apply_proposed sample_env False (Some True)
     [(''source'', PStr ''gmail''), (''account_address'', PStr ''me@x.org''), (''action'', PStr ''archive'')]
     (sample_world\<lparr>w_ledger := Some (closed_ledger sample_ledger)\<rparr>))) = []"
proof -
  let ?row = "[(''source'', PStr ''gmail''), (''account_address'', PStr ''me@x.org''), (''action'', PStr ''archive'')]"
  let ?w = "sample_world\<lparr>w_ledger := Some (closed_ledger sample_ledger)\<rparr>"
  have r: "row_account ?row (closed_ledger sample_ledger) \<noteq> None"
    "gets ?row ''action'' \<noteq> ''undo'' \<and> \<not> (truthy_at (row_account ?row (closed_ledger sample_ledger)) ''included''
       \<and> \<not> truthy_at (row_account ?row (closed_ledger sample_ledger)) ''removed'')" by code_simp+
  have "w_trace (snd (apply_proposed sample_env False (Some True) ?row ?w)) = w_trace ?w"
    by (rule closed_account_untouched [where l = "closed_ledger sample_ledger"]) (simp_all add: r)
  then show ?thesis by (simp add: sample_world_def)
qed

subsection \<open>At most once\<close>

definition no_open :: "string \<Rightarrow> ledger \<Rightarrow> bool" where
  \<comment> \<open>no row of this id is an open proposal\<close>
  "no_open did l = (\<forall>r \<in> set (decisions l). dr_id r = did \<longrightarrow> dr_status r \<noteq> ''proposed'')"

lemma no_open_record: "st \<noteq> ''proposed'' \<Longrightarrow> no_open did (record_decision did st rc l)"
  unfolding no_open_def
proof (intro ballI impI)
  fix r assume st: "st \<noteq> ''proposed''" and r: "r \<in> set (decisions (record_decision did st rc l))" "dr_id r = did"
  obtain q where "r = (if dr_id q = did then q\<lparr>dr_status := st, dr_receipt_json := json_dumps (PDict rc)\<rparr> else q)"
    using r(1) unfolding record_decision_def by (auto dest: set_update_where)
  then show "dr_status r \<noteq> ''proposed''" using st r(2) by (cases "dr_id q = did") simp_all
qed

lemma no_open_refused:
  assumes "w_ledger w = Some l" "no_open did l"
  shows "apply_one env dry en did rs w = (Inr (rs @ [refusal did ''not proposed'']), w)"
proof (cases "find_decision did l")
  case (Some r)
  then have "r \<in> set (decisions l)" "dr_id r = did" by (auto simp: find_decision_def dest: find_SomeD)
  then have "dr_status r \<noteq> ''proposed''" using assms(2) by (simp add: no_open_def)
  then show ?thesis
    using Some by (simp add: apply_one_def with_ledger_at [OF assms(1)] get_decision_def row_dict_def dget_Cons ret_def)
qed (simp add: apply_one_def with_ledger_at [OF assms(1)] get_decision_def ret_def)

lemma prepared_applied:
  assumes "apply_prepared env False d w = (Inr r, w')" "ar_status r = ''applied''"
  shows "apply_live env (gets2 d ''provider'' ''source'') d (plan_apply d) w = (Inr r, w')"
  using assms
  by (auto simp: apply_prepared_def apply_planned_def result_def checked_plan_def Let_def ok_simps
      split: if_splits option.splits)

lemma live_applied_closes:
  assumes "apply_live env p d plan w = (Inr r, w')" "ar_status r = ''applied''"
    "truthy (dget d ''decision_id'')" "w_ledger w = Some l"
  shows "\<exists>l'. w_ledger w' = Some l' \<and> no_open (py_str (dget d ''decision_id'')) l'"
  using apply_live_outcome [OF assms(3,1,4)] assms(2) by (auto simp: recorded_def no_open_def)

lemma prepare_id: "dget (prepare l d) ''decision_id'' = dget d ''decision_id''"
  by (simp add: prepare_def Let_def dget_setdefault dget_prepare_account)

lemma decision_applied_closes:
  assumes "apply_decision env False en d w = (Inr r, w')" "ar_status r = ''applied''"
    "truthy (dget d ''decision_id'')" "w_ledger w = Some l"
  shows "\<exists>l'. w_ledger w' = Some l' \<and> no_open (py_str (dget d ''decision_id'')) l'"
proof -
  let ?p = "prepare (w_ledger w) d"
  have "apply_prepared env False ?p w = (Inr r, w')"
    using assms(1,2) by (auto simp: apply_decision_def gets_eff_def Let_def ok_simps result_def split: if_splits)
  from live_applied_closes [OF prepared_applied [OF this assms(2)] assms(2)] assms(3,4)
  show ?thesis by (simp add: prepare_id)
qed

lemma touch_decisions: "keeps (led (\<lambda>l. decisions l = D)) (touch d fs)"
    "keeps (led (\<lambda>l. decisions l = D)) (touch_applied env d)"
proof -
  have u: "keeps (led (\<lambda>l. decisions l = D)) (try_ledger (update_account p a fs))" for p a fs
    by (rule try_ledger_led) (auto simp: update_account_def Let_def split: if_splits)
  have t: "keeps (led (\<lambda>l. decisions l = D)) tick" by (simp add: keeps_def tick_def)
  show a: "keeps (led (\<lambda>l. decisions l = D)) (touch d fs)" for d fs
    unfolding touch_def Let_def by (intro keeps_intros u)
  show "keeps (led (\<lambda>l. decisions l = D)) (touch_applied env d)"
    unfolding touch_applied_def by (intro keeps_intros t a)
qed

lemma led_at: "led I w \<Longrightarrow> w_ledger w \<noteq> None \<Longrightarrow> \<exists>l. w_ledger w = Some l \<and> I l"
  by (auto simp: led_def)

lemma touch_no_open:
  assumes "w_ledger w = Some l" "no_open did l" "m w = (Inr x, w')" "\<And>D. keeps (led (\<lambda>l. decisions l = D)) m"
  shows "\<exists>l'. w_ledger w' = Some l' \<and> no_open did l'"
proof -
  have "led (\<lambda>k. decisions k = decisions l) w'"
    using assms(1,3) assms(4) [of "decisions l"] by (auto simp: keeps_def led_def dest!: spec [of _ w])
  then obtain l' where "w_ledger w' = Some l'" "decisions l' = decisions l"
    by (auto simp: led_def split: option.splits)
  then show ?thesis using assms(2) by (auto simp: no_open_def)
qed

lemma result_status: "dget (result_dict r) ''status'' = PStr (ar_status r)"
  by (simp add: result_dict_def dget_Cons)

lemma proposed_applied_closes:
  assumes run: "apply_proposed env False en row w = (Inr out, w')" and st: "dget out ''status'' = PStr ''applied''"
    and id: "dget row ''id'' = PStr did" "did \<noteq> []" and l: "w_ledger w = Some l"
  shows "\<exists>l'. w_ledger w' = Some l' \<and> no_open did l'"
proof -
  let ?d = "decision_from_row env row (row_account row l)"
  have did: "dget ?d ''decision_id'' = PStr did"
    using id by (simp add: decision_from_row_def Let_def dget_Cons py_or_def)
  from run obtain r w1 where r: "apply_decision env False en ?d w = (Inr r, w1)"
    and k: "(if ar_status r = ''noop''
             then then_eff (on_ledger (record_decision (py_str (dget row ''id'')) ''applied'' (noop_receipt row r)))
                    (then_eff (touch_applied env ?d)
                      (ret (dset (dset (result_dict r) ''status'' (PStr ''applied'')) ''noop'' (PBool True))))
             else if ar_status r = ''applied'' then then_eff (touch_applied env ?d) (ret (result_dict r))
             else if ar_status r = ''failed''
             then then_eff (touch ?d [(''last_rejection'', PStr (ar_reason r))]) (ret (result_dict r))
             else ret (result_dict r)) w1 = (Inr out, w')"
    by (auto simp: apply_proposed_def with_ledger_at [OF l] Let_def bind_ok)
  obtain l1 where l1: "w_ledger w1 = Some l1"
    using led_some [OF apply_some.apply_I [OF refl] r l] by blast
  consider (noop) "ar_status r = ''noop''" | (applied) "ar_status r = ''applied''"
    using k st by (auto simp: ok_simps result_status split: if_splits)
  then show ?thesis
  proof cases
    case noop
    then obtain u w2 v where w2: "on_ledger (record_decision did ''applied'' (noop_receipt row r)) w1 = (Inr u, w2)"
        and t: "touch_applied env ?d w2 = (Inr v, w')"
      using k id by (auto simp: ok_simps)
    have "w_ledger w2 = Some (record_decision did ''applied'' (noop_receipt row r) l1)"
      using w2 l1 by (auto simp: on_ledger_def modify_eff_def)
    from touch_no_open [OF this no_open_record t touch_decisions(2)] show ?thesis by simp
  next
    case applied
    then obtain v where t: "touch_applied env ?d w1 = (Inr v, w')" using k by (auto simp: ok_simps)
    obtain l2 where "w_ledger w1 = Some l2" "no_open did l2"
      using decision_applied_closes [OF r applied] l did id by auto
    from touch_no_open [OF this t touch_decisions(2)] show ?thesis .
  qed
qed

definition sample_read_row :: decision_row where
  \<comment> \<open>a proposal to mark the sample thread read\<close>
  "sample_read_row = proposed_row ''0'' ''d1'' (thread_proposal (sample_thread\<lparr>tt_action := ''mark_read''\<rparr>) ''me@x.org'' [''m1''])"

definition sample_read_world :: world where
  "sample_read_world = sample_world\<lparr>w_ledger := Some (sample_ledger\<lparr>decisions := [sample_read_row]\<rparr>)\<rparr>"

definition sample_read_decision :: pdict where
  "sample_read_decision =
     [(''decision_id'', PStr ''d1''), (''provider'', PStr ''gmail''), (''source'', PStr ''gmail''),
      (''account'', PStr ''me@x.org''), (''account_address'', PStr ''me@x.org''),
      (''provider_thread_id'', PStr ''t1''), (''message_ids'', PList [PStr ''m1'']),
      (''category'', PStr ''newsletter''), (''utility'', PStr ''none''), (''action'', PStr ''mark_read''),
      (''band'', PStr ''local-small''), (''model'', PStr ''inbox_triage''), (''confidence'', PFloat (9 / 10)),
      (''mailbox_before'', PStr []), (''account_known'', PBool True), (''account_included'', PBool True),
      (''folder_sort'', PBool False), (''current_labels'', PList []), (''subject'', PStr ''Weekly''),
      (''configured_address'', PStr ''me@x.org'')]"

lemma touch_returns: "w_ledger w = Some l \<Longrightarrow> \<exists>w'. touch_applied env d w = (Inr (), w')"
  by (auto simp: touch_applied_def touch_def tick_def try_ledger_def update_account_def Let_def eff_defs dget_Cons
      ACCOUNT_FIELDS_def has_key_def split: sum.split option.split)

lemma proposed_noop:
  assumes l: "w_ledger w = Some l"
    and r: "apply_decision env False en (decision_from_row env row (row_account row l)) w = (Inr r, w1)" "ar_status r = ''noop''"
  shows "\<exists>out w'. apply_proposed env False en row w = (Inr out, w') \<and> dget out ''status'' = PStr ''applied''"
proof -
  obtain l1 where "w_ledger w1 = Some l1" using led_some [OF apply_some.apply_I [OF refl] r(1) l] by blast
  then obtain w2 l2 where w2: "on_ledger (record_decision (py_str (dget row ''id'')) ''applied'' (noop_receipt row r)) w1 = (Inr (), w2)"
      "w_ledger w2 = Some l2"
    by (simp add: on_ledger_def modify_eff_def)
  obtain w' where "touch_applied env (decision_from_row env row (row_account row l)) w2 = (Inr (), w')"
    using touch_returns [OF w2(2)] by blast
  then show ?thesis
    using r w2(1) by (simp add: apply_proposed_def with_ledger_at [OF l] Let_def then_eff_def bind_eff_def ret_def dget_dset)
qed

lemma dget_dmerge: "distinct (map fst e) \<Longrightarrow> dget (dmerge d e) k = (if has_key e k then dget e k else dget d k)"
proof (induction e arbitrary: d)
  case (Cons kv e)
  obtain x v where kv: "kv = (x, v)" by fastforce
  with Cons.prems have x: "has_key e x = False" by (auto simp: has_key_def map_of_eq_None_iff)
  have "dget (dmerge d (kv # e)) k = dget (dmerge (dset d x v) e) k" by (simp add: dmerge_def kv)
  also have "\<dots> = (if has_key e k then dget e k else dget (dset d x v) k)" using Cons by simp
  finally show ?case using x by (auto simp: kv dget_dset dget_Cons has_key_def)
qed (simp add: dmerge_def has_key_def)

lemma result_keys: "distinct (map fst (result_dict r))"
  by (simp add: result_dict_def)

lemma dset_keys: "distinct (map fst d) \<Longrightarrow> distinct (map fst (dset d k v))"
  by (simp add: dset_def distinct_update)

lemma proposed_keys: "apply_proposed env False en row w = (Inr out, w') \<Longrightarrow> distinct (map fst out)"
  by (auto simp: apply_proposed_def with_ledger_ok Let_def ok_simps result_keys dset_keys split: if_splits)

lemma dget_dmerge_status: "distinct (map fst out) \<Longrightarrow> dget (dmerge [(''decision_id'', v)] out) ''status'' = dget out ''status''"
  by (simp add: dget_dmerge dget_Cons) (auto simp: has_key_def dget_def split: option.split)

text \<open>A row that is there and not open stays so: no operation reopens it, and its id is not given again.\<close>

definition has_row :: "string \<Rightarrow> ledger \<Rightarrow> bool" where
  "has_row did l = (did \<in> dr_id ` set (decisions l))"

definition closed_row :: "string \<Rightarrow> ledger \<Rightarrow> bool" where
  "closed_row did l = (has_row did l \<and> no_open did l)"

lemma has_row_map: "has_row did l \<longleftrightarrow> did \<in> set (map dr_id (decisions l))"
  by (simp add: has_row_def)

lemma closed_row_same: "decisions l' = decisions l \<Longrightarrow> closed_row did l' = closed_row did l"
  by (simp add: closed_row_def has_row_def no_open_def)

lemma has_row_record: "has_row did (record_decision d st rc l) = has_row did l"
  by (simp add: has_row_map record_decision_def map_update_where)

lemma closed_row_record: "st \<noteq> ''proposed'' \<Longrightarrow> closed_row did l \<Longrightarrow> closed_row did (record_decision d st rc l)"
proof -
  assume st: "st \<noteq> ''proposed''" and c: "closed_row did l"
  have "no_open did (record_decision d st rc l)" unfolding no_open_def
  proof (intro ballI impI)
    fix r assume r: "r \<in> set (decisions (record_decision d st rc l))" "dr_id r = did"
    obtain q where "q \<in> set (decisions l)" "r = (if dr_id q = d then q\<lparr>dr_status := st, dr_receipt_json := json_dumps (PDict rc)\<rparr> else q)"
      using r(1) unfolding record_decision_def by (auto dest: set_update_where)
    then show "dr_status r \<noteq> ''proposed''" using st c r(2) by (auto simp: closed_row_def no_open_def split: if_splits)
  qed
  then show "closed_row did (record_decision d st rc l)" using c by (simp add: closed_row_def has_row_record)
qed

lemma closed_row_mailbox: "closed_row did l \<Longrightarrow> closed_row did (set_mailbox_before d m l)"
  by (auto simp: closed_row_def has_row_map no_open_def set_mailbox_before_def map_update_where update_where_def)

lemma closed_row_propose: "closed_row did l \<Longrightarrow> propose now i p l = Inr (d, l') \<Longrightarrow> closed_row did l'"
proof -
  assume c: "closed_row did l" and p: "propose now i p l = Inr (d, l')"
  from p have new: "i \<notin> dr_id ` set (decisions l)"
    and l': "decisions l' = update_where (open_for (pr_source p) (pr_thread_id p)) (\<lambda>r. r\<lparr>dr_status := ''superseded''\<rparr>) (decisions l)
        @ [proposed_row now i p]"
    by (auto simp: propose_def Let_def list_ex_iff split: if_splits)
  have "did \<noteq> i" using c new by (auto simp: closed_row_def has_row_def)
  then show "closed_row did l'"
    using c by (auto simp: closed_row_def has_row_map no_open_def l' map_update_where update_where_def proposed_row_def)
qed

lemma note_correction_decisions: "note_correction now s t c a dm i l = Inr (r, l') \<Longrightarrow> decisions l' = decisions l"
  by (auto simp: note_correction_eq Let_def write_sender_def split: if_splits)

interpretation apply_stays: apply_invariant "closed_row did" d
proof unfold_locales
  show "st \<in> set APPLY_STATUSES \<Longrightarrow> closed_row did l \<Longrightarrow> closed_row did (record_decision d st rc l)" for st l rc
    by (rule closed_row_record) (auto simp: APPLY_STATUSES_def)
  show "closed_row did l \<Longrightarrow> closed_row did (set_mailbox_before d m l)" for m l
    by (rule closed_row_mailbox)
qed (auto simp: closed_row_def has_row_def no_open_def delete_outbox_def enqueue_outbox_def
      set_sync_cursor_def Let_def split: if_splits)

interpretation apply_row: apply_invariant "has_row did" d
  by unfold_locales (auto simp: has_row_map record_decision_def set_mailbox_before_def map_update_where delete_outbox_def
      enqueue_outbox_def set_sync_cursor_def Let_def split: if_splits)

lemma account_decisions: "update_account p a fs l = Inr (b, l') \<Longrightarrow> decisions l' = decisions l"
  by (auto simp: update_account_def Let_def split: if_splits)

lemma reconcile_decisions: "reconcile_threads c ts (n, l) = Inr (n', l') \<Longrightarrow> decisions l' = decisions l"
  by (rule reconcile_threads_keeps [where P = "\<lambda>k. decisions k = decisions l"])
    (auto dest: note_correction_decisions)

interpretation review_stays: review_world "led (closed_row did)"
proof unfold_locales
  show "keeps (led (closed_row did)) (apply_decision env dry en d)" for env dry en d
    by (rule apply_stays.apply_I [OF refl])
  show "keeps (led (closed_row did)) (on_ledger (record_decision d st rc))"
    if "st \<in> {''applied'', ''skipped'', ''undone''}" for d st rc
    using that by (intro on_ledger_led closed_row_record) auto
  show "keeps (led (closed_row did)) (try_ledger (update_account p a fs))" for p a fs
    by (rule try_ledger_led) (metis closed_row_same account_decisions)
  show "keeps (led (closed_row did)) (try_ledger (propose now i pr))" for now i pr
    by (rule try_ledger_led) (rule closed_row_propose)
  show "keeps (led (closed_row did)) (try_ledger (\<lambda>l. reconcile_threads c ts (0, l)))" for c ts
    by (rule try_ledger_led) (metis closed_row_same reconcile_decisions)
  show "keeps (led (closed_row did)) tick" by (simp add: keeps_def tick_def)
qed

lemma written_same: "(\<And>a l'. r = Inr (a, l') \<Longrightarrow> decisions l' = decisions l) \<Longrightarrow> decisions (written l r) = decisions l"
  by (cases r) (auto simp: written_def)

lemma written_decisions:
  "decisions (written l (update_account p a fs l)) = decisions l"
  "decisions (written l (enqueue_outbox now i d c l)) = decisions l"
  "decisions (written l (note_correction now s t ca ac dm d l)) = decisions l"
  "decisions (written l (pin_sender now s t ca ac dm l)) = decisions l"
  "decisions (written l (upsert_rule f i s cd ac ca e l)) = decisions l"
proof -
  show "decisions (written l (update_account p a fs l)) = decisions l"
    by (rule written_same) (rule account_decisions)
  show "decisions (written l (enqueue_outbox now i d c l)) = decisions l"
    by (rule written_same) (auto simp: enqueue_outbox_def Let_def split: if_splits)
  show "decisions (written l (note_correction now s t ca ac dm d l)) = decisions l"
    by (rule written_same) (rule note_correction_decisions)
  show "decisions (written l (pin_sender now s t ca ac dm l)) = decisions l"
    by (rule written_same) (auto simp: pin_sender_eq write_sender_def Let_def split: if_splits)
  show "decisions (written l (upsert_rule f i s cd ac ca e l)) = decisions l"
    by (rule written_same) (auto simp: upsert_rule_def Let_def split: if_splits pyval.splits list.splits)
qed

lemma ledger_step_closed: "closed_row did l \<Longrightarrow> closed_row did (ledger_step op l)"
proof (cases op)
  case (OpPropose now i p)
  then show "closed_row did l \<Longrightarrow> ?thesis" by (auto simp: written_def intro: closed_row_propose split: sum.split)
next
  case (OpRecord d st rc)
  then show "closed_row did l \<Longrightarrow> ?thesis" using status_text_closed by (simp add: closed_row_record)
next
  case (OpSetMailboxBefore d m)
  then show "closed_row did l \<Longrightarrow> ?thesis" by (simp add: closed_row_mailbox)
qed (simp_all add: closed_row_def has_row_def no_open_def written_decisions upsert_account_def set_sync_cursor_def
    delete_outbox_def Let_def)

text \<open>Anything that may run between two applies: the operations of the queue and every write of the ledger.\<close>

datatype review_op =
    RoSkip string
  | RoApply env bool nat "bool option" pyval
  | RoUndo env bool "bool option" string
  | RoPass env "triaged_thread list"
  | RoLedger ledger_op

fun review_step :: "review_op \<Rightarrow> world \<Rightarrow> world" where
  "review_step (RoSkip did) w = snd (skip_decision did w)"
| "review_step (RoApply env dry cap en raw) w = snd (apply_ids env dry cap en raw w)"
| "review_step (RoUndo env dry en did) w = snd (undo_decision env dry en did w)"
| "review_step (RoPass env threads) w = snd (record_and_apply env threads w)"
| "review_step (RoLedger op) w = w\<lparr>w_ledger := map_option (ledger_step op) (w_ledger w)\<rparr>"

lemma review_step_closed: "led (closed_row did) w \<Longrightarrow> led (closed_row did) (review_step op w)"
proof (cases op)
  case (RoLedger o)
  then show "led (closed_row did) w \<Longrightarrow> ?thesis" by (auto simp: led_def ledger_step_closed split: option.splits)
qed (use review_stays.skip_W review_stays.apply_ids_W review_stays.undo_W review_stays.record_and_apply_W in
      \<open>simp_all add: keeps_def\<close>)

lemma review_steps_closed: "led (closed_row did) w \<Longrightarrow> led (closed_row did) (fold review_step ops w)"
  by (induction ops arbitrary: w) (simp_all add: review_step_closed)

lemma apply_proposed_row: "keeps (led (has_row did)) (apply_proposed env dry en row)"
proof -
  have t: "keeps (led (has_row did)) (try_ledger (update_account p a fs))" for p a fs
    by (rule try_ledger_led) (simp add: has_row_def account_decisions)
  have wl: "keeps (led (has_row did)) (with_ledger k)" if "\<And>l. keeps (led (has_row did)) (k l)" for k :: "ledger \<Rightarrow> pdict act"
    using that by (auto simp: keeps_def with_ledger_def split: option.split)
  have "keeps (led (has_row did)) tick" by (simp add: keeps_def tick_def)
  then show ?thesis
    unfolding apply_proposed_def touch_applied_def touch_def Let_def
    by (intro wl keeps_intros apply_row.apply_I [OF refl] on_ledger_led t) (simp_all add: has_row_record)
qed

lemma one_applied_closes:
  assumes "apply_one env False en did [] w = (Inr rs, w')" "did \<noteq> []" "w_ledger w = Some l"
    and "dget (last rs) ''status'' = PStr ''applied''"
  shows "\<exists>l'. w_ledger w' = Some l' \<and> closed_row did l'"
proof -
  have "dget (refusal did x) ''status'' \<noteq> PStr ''applied''" for x by (simp add: refusal_def dget_Cons)
  then obtain row out where row: "get_decision did l = Some row" "apply_proposed env False en row w = (Inr out, w')"
      and rs: "rs = [dmerge [(''decision_id'', PStr did)] out]"
    using assms(1,4) by (auto simp: apply_one_def with_ledger_at [OF assms(3)] ok_simps split: option.splits if_splits)
  have "dget row ''id'' = PStr did" and "has_row did l"
    using row(1) by (auto simp: get_decision_def find_decision_def row_dict_def dget_Cons has_row_def dest: find_SomeD)
  then obtain l' where l': "w_ledger w' = Some l'" "no_open did l'"
    using proposed_applied_closes [OF row(2)] assms(2,3,4) proposed_keys [OF row(2)] by (auto simp: rs dget_dmerge_status)
  have "led (has_row did) w" using assms(3) \<open>has_row did l\<close> by (simp add: led_def)
  then have "led (has_row did) w'"
    using row(2) apply_proposed_row [of did env False en row] unfolding keeps_def by (metis snd_conv)
  with l' show ?thesis by (simp add: led_def closed_row_def)
qed

text \<open>
  C10. At most once: when applying a decision reported applied, then after any sequence of
  operations of the queue (skips, applies, undos, full passes) and writes of the ledger, on any
  environments, applying it again, live or dry, is refused and changes nothing and calls nothing.
\<close>
theorem applied_at_most_once:
  assumes "apply_one env False en did [] w = (Inr rs, w')" "did \<noteq> []" "w_ledger w = Some l"
    and "dget (last rs) ''status'' = PStr ''applied''"
  shows "apply_one env' dry en' did rs' (fold review_step ops w')
     = (Inr (rs' @ [refusal did ''not proposed'']), fold review_step ops w')"
proof -
  obtain l' where "w_ledger w' = Some l'" "closed_row did l'"
    using one_applied_closes [OF assms] by blast
  then have "led (closed_row did) (fold review_step ops w')"
    by (intro review_steps_closed) (simp add: led_def)
  then obtain l2 where "w_ledger (fold review_step ops w') = Some l2" "no_open did l2"
    by (auto simp: led_def closed_row_def split: option.splits)
  then show ?thesis by (rule no_open_refused)
qed

theorem applied_at_most_once_witness:
  "\<exists>rs w'. apply_one sample_env False None ''d1'' [] sample_read_world = (Inr rs, w')
     \<and> dget (last rs) ''status'' = PStr ''applied''
     \<and> apply_one sample_env False None ''d1'' [] (review_step (RoUndo sample_env False None ''d1'') w')
        = (Inr [refusal ''d1'' ''not proposed''], review_step (RoUndo sample_env False None ''d1'') w')"
proof -
  let ?l = "sample_ledger\<lparr>decisions := [sample_read_row]\<rparr>" and ?row = "row_dict sample_read_row"
  have l: "w_ledger sample_read_world = Some ?l" by (simp add: sample_read_world_def)
  have g: "get_decision ''d1'' ?l = Some ?row" "dget ?row ''status'' = PStr ''proposed''"
    by (simp_all add: get_decision_def find_decision_def sample_read_row_def proposed_row_def row_dict_def dget_Cons)
  have d: "decision_from_row sample_env ?row (row_account ?row ?l) = sample_read_decision" by code_simp
  obtain x w1 where x: "apply_decision sample_env False None sample_read_decision sample_read_world = (x, w1)" by fastforce
  have "map_sum id ar_status (fst (apply_decision sample_env False None sample_read_decision sample_read_world)) = Inr ''noop''"
    by code_simp
  then obtain r where "x = Inr r" "ar_status r = ''noop''"
    unfolding x fst_conv by (cases x) auto
  with x have r: "apply_decision sample_env False None sample_read_decision sample_read_world = (Inr r, w1)"
      "ar_status r = ''noop''" by simp_all
  obtain out w' where out: "apply_proposed sample_env False None ?row sample_read_world = (Inr out, w')"
      "dget out ''status'' = PStr ''applied''"
    using proposed_noop [where row = ?row and env = sample_env and en = None, OF l, unfolded d, OF r] by blast
  let ?rs = "[dmerge [(''decision_id'', PStr ''d1'')] out]"
  have run: "apply_one sample_env False None ''d1'' [] sample_read_world = (Inr ?rs, w')"
    using out(1) g by (simp add: apply_one_def with_ledger_at [OF l] bind_eff_def ret_def)
  have st: "dget (last ?rs) ''status'' = PStr ''applied''"
    using out(2) dget_dmerge_status [OF proposed_keys [OF out(1)]] by simp
  have "apply_one sample_env False None ''d1'' [] (fold review_step [RoUndo sample_env False None ''d1''] w')
      = (Inr ([] @ [refusal ''d1'' ''not proposed'']), fold review_step [RoUndo sample_env False None ''d1''] w')"
    by (rule applied_at_most_once [OF run _ l st]) simp
  with run st show ?thesis
    by (intro exI [of _ ?rs] exI [of _ w'] conjI) (simp_all only: append_Nil fold.simps id_def o_apply)
qed

subsection \<open>What a proposal stores\<close>

lemma strip_ne: "\<not> py_isspace c \<Longrightarrow> strip (c # cs) \<noteq> []"
  by (simp add: strip_def dropWhile_eq_Nil_conv)

lemma stored_receipt: "json_ok (PDict d) \<Longrightarrow> receipt_dict (PStr (json_dumps (PDict d))) = d"
proof -
  assume ok: "json_ok (PDict d)"
  have "\<exists>cs. json_dumps (PDict d) = CHR 0x7B # cs" by (simp add: json_dumps.simps)
  then obtain cs where j: "json_dumps (PDict d) = CHR 0x7B # cs" by blast
  have "strip (json_dumps (PDict d)) \<noteq> []" unfolding j by (rule strip_ne) (simp add: py_isspace_def)
  then show ?thesis using json_roundtrip [OF ok] by (simp add: receipt_dict_def del: json_dumps.simps)
qed

lemma proposal_receipt_ok: "json_ok (PDict (proposal_receipt p))"
  by (auto simp: proposal_receipt_def Let_def list_all_iff split: option.split)

lemma proposal_row_receipt: "row_receipt (row_dict (proposed_row now i p)) = proposal_receipt p"
  by (simp add: row_receipt_def row_dict_def dget_Cons proposed_row_def stored_receipt [OF proposal_receipt_ok])

lemma row_decision:
  assumes "dget row ''source'' = PStr p" "p \<noteq> []" "dget (row_receipt row) ''current_labels'' = PList xs"
  shows "gets2 (decision_from_row env row acc) ''provider'' ''source'' = p"
    and "current_labels (decision_from_row env row acc) = map py_str xs"
  using assms
  by (auto simp: decision_from_row_def Let_def gets2_def gets_def dget_Cons py_or_def current_labels_def has_key_def
      dget_def strs_def comp_def)

lemma proposal_source:
  "dget (row_dict (proposed_row now i p)) ''source'' = PStr (pr_source p)"
  "dget (row_dict (proposed_row now i p)) ''action'' = PStr (pr_action p)"
  by (simp_all add: row_dict_def proposed_row_def dget_Cons)

lemma proposal_labels:
  "tt_source t = ''gmail'' \<Longrightarrow> dget (row_receipt (row_dict (proposed_row now i (thread_proposal t a ids)))) ''current_labels'' = PList []"
  by (simp add: proposal_row_receipt) (simp add: proposal_receipt_def thread_proposal_def dget_Cons nonblank_parts_def)

lemma no_labels_no_removal:
  assumes "current_labels d = []" "c \<in> set (ap_calls (gmail_plan d ids))"
  shows "\<not> has_key (pc_args c) ''remove_label_ids''"
proof -
  have "r = []" if "gmail_delta act cat fs [] u = Some (ad, r)" for act cat fs u ad r
    using that by (auto simp: gmail_delta_def Let_def sorted_set_def split: if_splits option.splits prod.splits)
  then show ?thesis
    using assms by (auto simp: gmail_plan_def Let_def plan_defs has_key_def split: if_splits option.splits prod.splits)
qed

text \<open>
  What the review queue proposes for Gmail never takes a message out of the inbox: the stored
  label list is empty, so the plan of a proposed archive or sorted keep removes no label.
\<close>
theorem gmail_proposals_keep_inbox:
  assumes "tt_source t = ''gmail''"
  shows "\<not> list_ex (\<lambda>c. has_key (pc_args c) ''remove_label_ids'')
     (ap_calls (plan_apply (decision_from_row env (row_dict (proposed_row now i (thread_proposal t a ids))) acc)))"
proof -
  let ?row = "row_dict (proposed_row now i (thread_proposal t a ids))"
  let ?d = "decision_from_row env ?row acc"
  have s: "dget ?row ''source'' = PStr ''gmail''" using assms by (simp add: proposal_source thread_proposal_def)
  note rd = row_decision [OF s _ proposal_labels [OF assms]]
  have "gets2 ?d ''provider'' ''source'' = ''gmail''" "current_labels ?d = []" using rd by simp_all
  then have "\<forall>c \<in> set (ap_calls (plan_apply ?d)). \<not> has_key (pc_args c) ''remove_label_ids''"
    using no_labels_no_removal [of ?d] by (auto simp: plan_apply_def Let_def plan_error_def)
  then show ?thesis by (simp add: list_ex_iff)
qed

theorem gmail_proposals_keep_inbox_witness:
  "\<not> list_ex (\<lambda>c. has_key (pc_args c) ''remove_label_ids'') (ap_calls (plan_apply (decision_from_row sample_env
       (row_dict (proposed_row ''0'' ''d1'' (thread_proposal sample_thread ''me@x.org'' [''m1'']))) None)))"
  by (rule gmail_proposals_keep_inbox) (simp add: sample_thread_def)

lemma category_mark:
  assumes "c \<in> set CATEGORIES"
  shows "tab LABEL_NAME c [] \<noteq> []" "casefold (tab LABEL_NAME c []) \<noteq> ''inbox''"
proof -
  have "list_all (\<lambda>c. tab LABEL_NAME c [] \<noteq> [] \<and> casefold (tab LABEL_NAME c []) \<noteq> ''inbox'') CATEGORIES" by code_simp
  with assms show "tab LABEL_NAME c [] \<noteq> []" "casefold (tab LABEL_NAME c []) \<noteq> ''inbox''" by (simp_all add: list_all_iff)
qed

text \<open>
  A thread marked read and left where it is reads as a correction by the user: with the message
  still in the inbox and unlabelled, which is what marking read leaves, the outcome learned is keep
  and actionable, whatever the category was.
\<close>
theorem mark_read_reads_as_correction:
  assumes "dget row ''action'' = PStr ''mark_read''" "dget row ''category'' = PStr c" "c \<in> set CATEGORIES"
  shows "operator_outcome (PDict (compared ''gmail'' row @ [(''receipt'', PDict rc)]))
           (PDict [(''labels'', PStr ''INBOX'')]) = Some (''keep'', ''actionable'')"
proof -
  let ?d = "compared ''gmail'' row @ [(''receipt'', PDict rc)]"
  have c: "c \<noteq> []" using assms(3) by (auto simp: CATEGORIES_def)
  have g: "gets2 ?d ''provider'' ''source'' = ''gmail''" "gets ?d ''action'' = ''mark_read''" "gets ?d ''category'' = c"
    using assms(1,2) c by (simp_all add: compared_def gets2_def gets_def dget_Cons py_or_def)
  have n: "names_of [(''labels'', PStr ''INBOX'')] ''labels'' = Some [''INBOX'']" by code_simp
  have m: "casefold ''INBOX'' = ''inbox''" "cerid_categories [''INBOX''] = []" by code_simp+
  have r: "reversed_by ''gmail'' ?d [(''labels'', PStr ''INBOX'')]"
    using category_mark [OF assms(3)] by (simp add: reversed_by_def g n m Let_def)
  have v: "visible_outcome ''gmail'' ?d [(''labels'', PStr ''INBOX'')] = Some (''keep'', ''actionable'')"
    by (simp add: visible_outcome_def visible_marks_def in_inbox_def n m Let_def)
  show ?thesis by (simp add: operator_outcome_def g r v Let_def MODEL_ACTIONS_def CATEGORIES_def)
qed

theorem mark_read_reads_as_correction_witness:
  "operator_outcome (PDict (compared ''gmail'' [(''action'', PStr ''mark_read''), (''category'', PStr ''promo'')] @ [(''receipt'', PDict [])]))
     (PDict [(''labels'', PStr ''INBOX'')]) = Some (''keep'', ''actionable'')"
  by (rule mark_read_reads_as_correction [where c = "''promo''"]) (simp_all add: dget_Cons CATEGORIES_def)

subsection \<open>Skipping and the outbox\<close>

lemma skip_outbox:
  assumes "skip_decision did w = (Inr r, w')" "w_ledger w = Some l"
  shows "\<exists>l'. w_ledger w' = Some l' \<and> outbox l' = outbox l"
  using assms
  by (auto simp: skip_decision_def with_ledger_at ok_simps on_ledger_def modify_eff_def record_decision_def
      split: option.splits if_splits)

text \<open>
  Skipping a decision does not cancel its queued commands: the next flush reads the same
  outbox rows and, when Mail runs again, performs them.
\<close>
theorem skip_keeps_queued_commands:
  assumes "skip_decision did w = (Inr r, w')" "w_ledger w = Some l"
  shows "\<exists>l'. w_ledger w' = Some l' \<and> list_outbox l' = list_outbox l
    \<and> flush_outbox env w' = flush_rows env (list_outbox l) w'"
  using skip_outbox [OF assms] by (auto simp: list_outbox_def flush_outbox_def bind_eff_def gets_eff_def)

lemma skip_returns: "w_ledger w = Some l \<Longrightarrow> \<exists>r w'. skip_decision did w = (Inr r, w')"
  by (auto simp: skip_decision_def with_ledger_at on_ledger_def eff_defs split: option.split)

theorem skip_keeps_queued_commands_witness:
  "\<exists>r w' l'. skip_decision ''d1'' sample_world = (Inr r, w') \<and> w_ledger w' = Some l'
     \<and> list_outbox l' = list_outbox sample_ledger"
proof -
  have l: "w_ledger sample_world = Some sample_ledger" by (simp add: sample_world_def)
  obtain r w' where r: "skip_decision ''d1'' sample_world = (Inr r, w')" using skip_returns [OF l] by blast
  from skip_keeps_queued_commands [OF r l, of sample_env] r show ?thesis by blast
qed

subsection \<open>Streaks\<close>

text \<open>
  Corrections are told apart only from the last one: two decisions that keep showing the same
  outcome, taken in turn, reach the pin threshold although the user corrected only two threads.
\<close>
theorem alternating_corrections_pin:
  assumes "i \<noteq> j" "i \<noteq> []" "j \<noteq> []"
    and "note_correction n1 s t c a dm i l = Inr (r1, l1)" "find_sender (strip s) (fold_sender t) l = None"
    and "note_correction n2 s t c a dm j l1 = Inr (r2, l2)"
    and "note_correction n3 s t c a dm i l2 = Inr (r3, l3)"
  shows "sm_hits r3 = 3 \<and> sm_pinned r3 = 1 \<and> memory_confidence r3 \<ge> PIN_CONFIDENCE"
proof -
  have c1: "\<not> counted_already i (find_sender (strip s) (fold_sender t) l)"
    by (simp add: assms(5) counted_already_def)
  from note_correction_hits [OF assms(4) c1]
  have h1: "sm_hits r1 = 1" "sm_action r1 = a" "sm_category r1 = c" "find_sender (strip s) (fold_sender t) l1 = Some r1"
    by (simp_all add: assms(5))
  have d1: "sm_last_decision r1 = i" by (rule note_correction_last [OF assms(4) c1])
  have c2: "\<not> counted_already j (find_sender (strip s) (fold_sender t) l1)"
    using assms(1) by (simp add: h1 d1 counted_already_def)
  from note_correction_hits [OF assms(6) c2]
  have h2: "sm_hits r2 = 2" "sm_action r2 = a" "sm_category r2 = c" "find_sender (strip s) (fold_sender t) l2 = Some r2"
    by (simp_all add: h1)
  have d2: "sm_last_decision r2 = j" by (rule note_correction_last [OF assms(6) c2])
  have c3: "\<not> counted_already i (find_sender (strip s) (fold_sender t) l2)"
    using assms(1) by (simp add: h2 d2 counted_already_def)
  from note_correction_hits [OF assms(7) c3]
  have "sm_hits r3 = 3" "sm_pinned r3 = 1" by (simp_all add: h2 PIN_HITS_def)
  then show ?thesis by (simp add: memory_confidence_def PIN_CONFIDENCE_def)
qed

end
