(* ===== verification/PlanRules.thy ===== *)
theory PlanRules
  imports Samples
begin

text \<open>
  What the planner and the filter guarantee on their own: a plan obeys the folder policy, names
  only the decision's messages, reaches the labels the action promises, keeps the user's own
  categories and can be undone; a verdict is typed, sure when it sticks, and spares bills.
\<close>

subsection \<open>Plans\<close>

lemma gets_py_str: "gets d k \<noteq> [] \<Longrightarrow> py_str (dget d k) = gets d k"
  by (auto simp: gets_def Let_def)

lemma gmail_inbox_moves:
  assumes "gmail_delta a c fs cur u = Some (ad, r)" "''INBOX'' \<in> set ad \<or> ''INBOX'' \<in> set r" "c \<in> set CATEGORIES"
  shows "moves a fs"
proof -
  have "label_name c \<noteq> ''INBOX''" using label_name_cerid [OF assms(3)] by (auto simp: is_cerid_def starts_with_def)
  with assms(1,2) show ?thesis
    by (auto simp: gmail_delta_def Let_def moves_def split: if_splits option.splits)
qed

lemma outlook_call_moves:
  "c \<in> set (outlook_message_calls a ua f lab fs cur cs i) \<Longrightarrow> pc_tool c = ''move-mail-message'' \<Longrightarrow> moves a fs"
  by (auto simp: outlook_message_calls_def outlook_move_def outlook_update_def moves_def split: if_splits)

lemma plan_move_policy:
  assumes "ap_move (plan_apply d)"
  shows "moves (gets d ''action'') (truthy (dget d ''folder_sort''))"
proof -
  let ?ids = "message_ids d"
  have cats: "map fst LABEL_NAME = CATEGORIES" by (simp add: LABEL_NAME_def CATEGORIES_def)
  from assms have c: "gets d ''category'' \<in> set CATEGORIES" and a: "gets d ''action'' \<in> set ACTIONS"
    by (auto simp: plan_apply_def Let_def plan_defs cats split: if_splits)
  have "gets d ''action'' \<noteq> []" "gets d ''category'' \<noteq> []" using a c by (auto simp: ACTIONS_def CATEGORIES_def)
  then have pa: "py_str (dget d ''action'') = gets d ''action''" "py_str (dget d ''category'') = gets d ''category''"
    by (simp_all add: gets_py_str)
  consider "ap_move (gmail_plan d ?ids)" | "ap_move (outlook_plan d ?ids)" | "ap_move (apple_plan d ?ids)"
    using assms by (auto simp: plan_apply_def Let_def plan_defs split: if_splits)
  then show ?thesis
  proof cases
    case 1
    then show ?thesis using gmail_inbox_moves [OF _ _ c]
      by (auto simp: gmail_plan_def Let_def plan_defs pa split: if_splits option.splits)
  next
    case 2
    then show ?thesis
      by (auto simp: outlook_plan_def Let_def plan_defs pa list_ex_iff dest: outlook_call_moves split: if_splits)
  next
    case 3
    then show ?thesis
      by (auto simp: apple_plan_def Let_def plan_defs pa list_ex_iff apple_message_calls_def apple_call_def moves_def split: if_splits)
  qed
qed

text \<open>
  C31. The planner obeys the folder policy: whatever the decision, the hook that rejects a move the
  action does not allow accepts every plan, so a message leaves its folder only on archive, undo,
  or a keep of an account that sorts into folders.
\<close>
theorem plan_obeys_folder_policy: "passes (folder_policy_hook (hook_decision d (plan_apply d)))"
  using plan_move_policy [of d]
  by (auto simp: folder_policy_hook_def hook_decision_def Let_def passes_def dict_simps gets_def)

definition call_targets :: "planned_call \<Rightarrow> string list" where
  \<comment> \<open>the messages a planned call names\<close>
  "call_targets c =
     (let a = pc_args c
      in (case dget a ''message_ids'' of PList xs \<Rightarrow> map py_str xs | _ \<Rightarrow> [])
         @ (case dget a ''messageId'' of PStr i \<Rightarrow> [i] | _ \<Rightarrow> [])
         @ (case dget a ''argv'' of PList (_ # i # _) \<Rightarrow> [py_str i] | _ \<Rightarrow> []))"

definition own_plan :: "string list \<Rightarrow> apply_plan \<Rightarrow> bool" where
  "own_plan ids p = (\<forall>c \<in> set (ap_calls p). set (call_targets c) \<subseteq> set ids)"

lemma own_if: "own_plan ids p \<Longrightarrow> own_plan ids q \<Longrightarrow> own_plan ids (if b then p else q)"
  by simp

lemma own_option: "own_plan ids p \<Longrightarrow> (\<And>a. own_plan ids (f a)) \<Longrightarrow> own_plan ids (case x of None \<Rightarrow> p | Some a \<Rightarrow> f a)"
  by (cases x) simp_all

lemma own_pair: "(\<And>a b. own_plan ids (f a b)) \<Longrightarrow> own_plan ids (case x of (a, b) \<Rightarrow> f a b)"
  by (cases x) simp

lemma own_error: "own_plan ids (plan_error e)" "own_plan ids plan_noop"
  by (simp_all add: own_plan_def plan_defs)

lemma own_one: "set (call_targets c) \<subseteq> set ids \<Longrightarrow> own_plan ids (plan_calls [c] m l)"
  by (simp add: own_plan_def plan_defs)

lemma own_concat: "(\<And>i. i \<in> set ids \<Longrightarrow> list_all (\<lambda>c. call_targets c = [i]) (f i)) \<Longrightarrow> own_plan ids (plan_calls (concat (map f ids)) m l)"
  by (auto simp: own_plan_def plan_defs list_all_iff)

lemmas own_intros = own_if own_option own_pair own_error own_one own_concat

lemma gmail_own: "own_plan ids (gmail_plan d ids)"
proof -
  have "call_targets (PlannedCall t ([(''user_google_email'', a), (''message_ids'', strs ids)]
      @ (if x \<noteq> [] then [(''add_label_ids'', strs x)] else []) @ (if y \<noteq> [] then [(''remove_label_ids'', strs y)] else []))) = ids"
    for t a x y
    by (simp add: call_targets_def dget_Cons strs_def comp_def)
  moreover have "call_targets (PlannedCall t [(''user_google_email'', a), (''subject'', b), (''body'', c),
      (''thread_id'', e), (''include_signature'', f), (''quote_original'', g)]) = []" for t a b c e f g
    by (simp add: call_targets_def dget_Cons)
  ultimately show ?thesis unfolding gmail_plan_def Let_def by (intro own_intros) simp_all
qed

lemma call_targets_outlook: "call_targets (outlook_move i x) = [i]" "call_targets (outlook_update i f v) = [i]"
  by (simp_all add: outlook_move_def outlook_update_def call_targets_def dget_Cons)

lemma outlook_message_targets: "list_all (\<lambda>c. call_targets c = [i]) (outlook_message_calls a ua f lab fs cur cs i)"
  by (simp add: outlook_message_calls_def call_targets_outlook)

lemma outlook_own: "ids \<noteq> [] \<Longrightarrow> own_plan ids (outlook_plan d ids)"
  unfolding outlook_plan_def Let_def
  by (intro own_intros outlook_message_targets) (simp add: call_targets_def dget_Cons)

lemma apple_message_targets: "list_all (\<lambda>c. call_targets c = [i]) (apple_message_calls a cat fs s b m i)"
  by (simp add: apple_message_calls_def apple_call_def call_targets_def dget_Cons strs_def)

lemma apple_own: "own_plan ids (apple_plan d ids)"
  unfolding apple_plan_def Let_def by (intro own_intros apple_message_targets)

text \<open>
  A plan touches only the decision's own messages: every message named by any of its calls, on
  every provider and for every action, is one of the decision's message ids.
\<close>
theorem plan_targets_own_messages:
  "set (concat (map call_targets (ap_calls (plan_apply d)))) \<subseteq> set (message_ids d)"
proof -
  have "own_plan (message_ids d) (plan_apply d)"
    using gmail_own outlook_own apple_own own_error by (simp add: plan_apply_def Let_def)
  then show ?thesis by (auto simp: own_plan_def)
qed

subsection \<open>Labels\<close>

text \<open>
  Performing a Gmail plan reaches exactly the labels its action promises: archive files the
  message under its own label and out of the inbox, keep labels it and leaves the inbox only when
  folders sort, marking read takes the unread mark alone, and undo takes every Cerid label off.
\<close>
theorem gmail_reaches_goal:
  assumes "c \<in> set CATEGORIES"
  shows "set (gmail_after cur (gmail_delta a c fs cur u)) = gmail_goal a c fs u (set cur)"
  by (rule gmail_delta_effect [OF assms])

theorem gmail_reaches_goal_witness:
  "set (gmail_after [''INBOX'', ''UNREAD'', ''Cerid/Promo''] (gmail_delta ''archive'' ''newsletter'' False [''INBOX'', ''UNREAD'', ''Cerid/Promo''] []))
     = gmail_goal ''archive'' ''newsletter'' False [] {''INBOX'', ''UNREAD'', ''Cerid/Promo''}"
proof -
  have "''newsletter'' \<in> set CATEGORIES" by (simp add: CATEGORIES_def)
  from gmail_reaches_goal [OF this, of "[''INBOX'', ''UNREAD'', ''Cerid/Promo'']" "''archive''" False "[]"]
  show ?thesis unfolding list.set .
qed

text \<open>
  Undo restores: on a message in the inbox that carries no Cerid label, applying keep, archive
  or mark read (of an unread message) and then the undo of that action gives back exactly the
  labels it had.
\<close>
theorem gmail_undo_restores:
  assumes "c \<in> set CATEGORIES" "a \<in> {''keep'', ''archive'', ''mark_read''}"
    and "''INBOX'' \<in> set cur" "a = ''mark_read'' \<longrightarrow> ''UNREAD'' \<in> set cur" "\<not> list_ex is_cerid cur"
  shows "let after = gmail_after cur (gmail_delta a c fs cur [])
         in set (gmail_after after (gmail_delta ''undo'' c fs after a)) = set cur"
proof -
  have n: "{x \<in> set cur. \<not> is_cerid x} = set cur" using assms(5) by (auto simp: list_ex_iff)
  have l: "is_cerid (label_name c)" by (rule label_name_cerid [OF assms(1)])
  consider "a = ''keep''" | "a = ''archive''" | "a = ''mark_read''" using assms(2) by blast
  then show ?thesis
  proof cases
    case 1
    have "{x \<in> {x \<in> set cur. \<not> is_cerid x \<and> (x = ''INBOX'' \<longrightarrow> \<not> fs)} \<union> {label_name c}. \<not> is_cerid x} \<union> {''INBOX''} = set cur"
      using n l assms(3) by blast
    then show ?thesis by (simp add: 1 Let_def gmail_delta_effect [OF assms(1)] gmail_goal_def)
  next
    case 2
    have "{x \<in> {x \<in> set cur. \<not> is_cerid x \<and> x \<noteq> ''INBOX''} \<union> {label_name c}. \<not> is_cerid x} \<union> {''INBOX''} = set cur"
      using n l assms(3) by blast
    then show ?thesis by (simp add: 2 Let_def gmail_delta_effect [OF assms(1)] gmail_goal_def)
  next
    case 3
    have "{x \<in> set cur - {''UNREAD''}. \<not> is_cerid x} \<union> {''INBOX''} \<union> {''UNREAD''} = set cur"
      using n assms(3,4) 3 by blast
    then show ?thesis by (simp add: 3 Let_def gmail_delta_effect [OF assms(1)] gmail_goal_def)
  qed
qed

theorem gmail_undo_restores_witness:
  "let after = gmail_after [''INBOX'', ''UNREAD''] (gmail_delta ''archive'' ''promo'' False [''INBOX'', ''UNREAD''] [])
   in set (gmail_after after (gmail_delta ''undo'' ''promo'' False after ''archive'')) = {''INBOX'', ''UNREAD''}"
proof -
  have "''promo'' \<in> set CATEGORIES" by (simp add: CATEGORIES_def)
  from gmail_undo_restores [OF this, of "''archive''" "[''INBOX'', ''UNREAD'']" False]
  show ?thesis by (simp add: is_cerid_def starts_with_def del: Let_def)
qed

lemma foreign_kept: "is_cerid lab \<Longrightarrow> filter (\<lambda>n. \<not> is_cerid n) (filter (\<lambda>n. \<not> is_cerid n) xs @ [lab]) = filter (\<lambda>n. \<not> is_cerid n) xs"
  by simp

text \<open>
  An Outlook plan keeps the user's own categories: what it leaves on the message differs from
  what was there in Cerid categories alone, in the same order.
\<close>
theorem outlook_keeps_foreign_categories:
  assumes "gets2 d ''provider'' ''source'' = ''outlook''" "ap_labels_after (plan_apply d) = Some after"
  shows "filter (\<lambda>n. \<not> is_cerid n) after = filter (\<lambda>n. \<not> is_cerid n) (outlook_categories d)"
proof -
  have cats: "map fst LABEL_NAME = CATEGORIES" by (simp add: LABEL_NAME_def CATEGORIES_def)
  have p: "plan_apply d = outlook_plan d (message_ids d)" and c: "gets d ''category'' \<in> set CATEGORIES"
    using assms by (auto simp: plan_apply_def Let_def plan_defs cats split: if_splits)
  have "gets d ''category'' \<noteq> []" using c by (auto simp: CATEGORIES_def)
  then have "is_cerid (label_name (py_str (dget d ''category'')))" using label_name_cerid [OF c] by (simp add: gets_py_str)
  note fk = foreign_kept [OF this]
  have "Some after = ap_labels_after (outlook_plan d (message_ids d))" using assms(2) p by simp
  then show ?thesis
    by (simp only: outlook_plan_def Let_def plan_defs) (auto simp: fk simp del: filter_append split: if_splits)
qed

definition sample_outlook :: pdict where
  "sample_outlook = [(''provider'', PStr ''outlook''), (''action'', PStr ''archive''), (''category'', PStr ''promo''),
     (''message_ids'', PList [PStr ''m1'']), (''current_labels'', PList [PStr ''Blue category'', PStr ''Cerid/Action''])]"

theorem outlook_keeps_foreign_categories_witness:
  "ap_labels_after (plan_apply sample_outlook) = Some [''Blue category'', ''Cerid/Promo'']
   \<and> filter (\<lambda>n. \<not> is_cerid n) [''Blue category'', ''Cerid/Promo''] = filter (\<lambda>n. \<not> is_cerid n) (outlook_categories sample_outlook)"
proof -
  have p: "gets2 sample_outlook ''provider'' ''source'' = ''outlook''" by code_simp
  have a: "ap_labels_after (plan_apply sample_outlook) = Some [''Blue category'', ''Cerid/Promo'']" by code_simp
  from outlook_keeps_foreign_categories [OF p a] a show ?thesis by blast
qed

subsection \<open>Verdicts of the filter\<close>

definition sure :: "filter_verdict_t \<Rightarrow> bool" where
  "sure v = (fv_sticks v \<longrightarrow> fv_confidence v \<ge> TIER_CONFIDENCE)"

lemma sure_if: "(b \<Longrightarrow> sure p) \<Longrightarrow> (\<not> b \<Longrightarrow> sure q) \<Longrightarrow> sure (if b then p else q)"
  by simp

lemma sure_verdict: "(s \<Longrightarrow> c \<ge> TIER_CONFIDENCE) \<Longrightarrow> sure (FilterVerdict k c s r)"
  by (simp add: sure_def)

lemma folder_sure:
  assumes "fst cc \<noteq> ''actionable'' \<Longrightarrow> snd cc \<ge> TIER_CONFIDENCE"
  shows "sure (folder_verdict t s h r ls p u cc)"
proof -
  have c: "STRUCTURAL_CONFIDENCE \<ge> TIER_CONFIDENCE" "LIST_CONFIDENCE \<ge> TIER_CONFIDENCE" by (simp_all add: confidence_defs)
  show ?thesis unfolding folder_verdict_def Let_def
    by (intro sure_if sure_verdict) (auto simp: c intro: assms split: if_splits)
qed

lemma spam_sure:
  "(fst cc \<noteq> ''actionable'' \<Longrightarrow> snd cc \<ge> TIER_CONFIDENCE) \<Longrightarrow> spam_verdict t h r ls cc = Some v \<Longrightarrow>
   fv_confidence v \<ge> TIER_CONFIDENCE"
  by (auto simp: spam_verdict_def confidence_defs split: if_splits)

text \<open>
  A verdict that overrides the model is sure: its category is one of the enumeration and its
  confidence reaches the tier that skips the model.
\<close>
theorem sticking_verdict_sure:
  assumes "fv_sticks (filter_verdict t s h r)"
  shows "fv_category (filter_verdict t s h r) \<in> set CATEGORIES
    \<and> fv_confidence (filter_verdict t s h r) \<ge> TIER_CONFIDENCE"
proof -
  let ?cc = "phrase_category t (promo_marker t s)"
  note p = phrase_sure [of t "promo_marker t s"]
  have "fv_confidence (filter_verdict t s h r) \<ge> TIER_CONFIDENCE"
    using assms spam_sure [OF p] folder_sure [OF p]
    by (simp add: filter_verdict_def Let_def sure_def split: option.splits)
  then show ?thesis by (simp add: filter_cat)
qed

theorem sticking_verdict_sure_witness:
  "fv_sticks (filter_verdict ''hi'' ''w'' [(''spam_flag'', ''yes'')] PNone)
   \<and> fv_confidence (filter_verdict ''hi'' ''w'' [(''spam_flag'', ''yes'')] PNone) \<ge> TIER_CONFIDENCE"
proof -
  have "fv_sticks (filter_verdict ''hi'' ''w'' [(''spam_flag'', ''yes'')] PNone)" by code_simp
  with sticking_verdict_sure [OF this] show ?thesis by blast
qed

lemma folder_not_spam: "fst cc \<noteq> ''spam'' \<Longrightarrow> fv_category (folder_verdict t s h r ls p u cc) \<noteq> ''spam''"
  by (simp add: folder_verdict_def Let_def)

text \<open>
  A bill is not lost to the spam scanner: mail that names a bill and carries no spam phrase and
  no provider spam mark is not called spam, whatever the scanner scored.
\<close>
theorem bill_survives_scanner:
  assumes "bill t" "fst (phrase_category t (promo_marker t s)) \<noteq> ''spam''" "\<not> spam_flag h"
    and "''spam'' \<notin> set (label_set (hget h ''labels''))"
  shows "fv_category (filter_verdict t s h r) \<noteq> ''spam''"
proof -
  have "spam_verdict t h r (label_set (hget h ''labels'')) (phrase_category t (promo_marker t s)) = None"
    using assms by (simp add: spam_verdict_def)
  then show ?thesis using folder_not_spam [OF assms(2)] by (simp add: filter_verdict_def Let_def)
qed

theorem bill_survives_scanner_witness:
  "fv_category (filter_verdict ''invoice'' ''w'' [] (PDict [(''action'', PStr ''reject'')])) \<noteq> ''spam''"
  by (rule bill_survives_scanner) code_simp+

end
