(* ===== verification/TriageLadder.thy ===== *)
theory TriageLadder
  imports Samples
begin

text \<open>
  What categorizing one thread guarantees: a typed result, a bounded number of model calls that
  stay local under the local-only profile, and no draft that did not pass the checklist.
\<close>

subsection \<open>Every categorization is typed\<close>

definition typed_cat :: "pdict \<Rightarrow> bool" where
  "typed_cat d = (str_in (dget d ''category'') CATEGORIES \<and> str_in (dget d ''action'') MODEL_ACTIONS
                  \<and> str_in (dget d ''utility'') UTILITIES)"

lemma str_in_PStr [simp]: "str_in (PStr s) xs = (s \<in> set xs)"
  by (simp add: str_in_def)

lemma category_action_model: "tab CATEGORY_ACTION c ''keep'' \<in> set MODEL_ACTIONS"
  using category_action_typed [of c] by (auto simp: MODEL_ACTIONS_def)

lemma typed_dset: "k \<notin> {''category'', ''action'', ''utility''} \<Longrightarrow> typed_cat (dset d k v) = typed_cat d"
  by (auto simp: typed_cat_def dget_dset)

lemma typed_dpop: "k \<notin> {''category'', ''action'', ''utility''} \<Longrightarrow> typed_cat (dpop d k) = typed_cat d"
  by (auto simp: typed_cat_def dget_dpop)

lemma heuristic_typed: "typed_cat (heuristic_categorize ms t)"
  by (simp add: heuristic_categorize_def Let_def typed_cat_def dget_Cons filter_cat category_action_model
      utility_for_typed)

lemma sanitize_typed: "typed_cat (sanitize_categorization p ms t e)"
  by (auto simp: sanitize_categorization_def Let_def heuristic_typed)
    (auto simp: typed_cat_def dget_Cons clamp_action_typed utility_for_typed)

lemma apply_verdict_typed: "typed_cat d \<Longrightarrow> fv_category v \<in> set CATEGORIES \<Longrightarrow> typed_cat (apply_verdict d v t)"
  by (simp add: apply_verdict_def Let_def typed_dset)
    (simp add: typed_cat_def dget_dset category_action_model utility_for_typed)

lemma route_typed:
  "rt_action (route_thread s) \<in> set MODEL_ACTIONS" "rt_category (route_thread s) \<in> set CATEGORIES"
  "rt_utility (route_thread s) \<in> set UTILITIES" "rt_band (route_thread s) \<in> {''skip'', ''local-small''}"
proof -
  have "''actionable'' \<in> set CATEGORIES" by (simp add: CATEGORIES_def)
  then show "rt_action (route_thread s) \<in> set MODEL_ACTIONS" "rt_category (route_thread s) \<in> set CATEGORIES"
      "rt_utility (route_thread s) \<in> set UTILITIES" "rt_band (route_thread s) \<in> {''skip'', ''local-small''}"
    using clamp_action_typed str_in_str_of utility_for_typed by (simp_all add: route_thread_def Let_def)
qed

lemma model_actions: "set MODEL_ACTIONS = {''keep'', ''archive'', ''mark_read'', ''draft''}"
  by (simp add: MODEL_ACTIONS_def)

lemma skipped_typed: "typed_cat (skipped (route_thread s) t subj)"
  using route_typed [of s] by (simp add: skipped_def Let_def typed_cat_def dget_Cons model_actions)

lemma cloud_draft_typed: "typed_cat d \<Longrightarrow> typed_cat (fst (cloud_draft env d e calls))"
  by (simp add: cloud_draft_def typed_dset split: prod.split option.split)

lemma attach_draft_typed: "typed_cat d \<Longrightarrow> typed_cat (fst (attach_draft env d e b calls))"
  by (simp add: attach_draft_def Let_def typed_dset typed_dpop cloud_draft_typed split: prod.split)

lemma with_band_typed: "typed_cat (with_band d b m) = typed_cat d"
  by (simp add: with_band_def typed_dset)

lemma note_pin_typed: "typed_cat (note_pin f d) = typed_cat d"
  by (simp add: note_pin_def typed_dset)

lemma finish_typed: "typed_cat d \<Longrightarrow> fv_category (tf_verdict f) \<in> set CATEGORIES \<Longrightarrow> typed_cat (fst (finish env f d b calls))"
  by (simp add: finish_def Let_def attach_draft_typed note_pin_typed typed_dset apply_verdict_typed)

lemma read_reply_typed: "rg_parsed (read_reply f ms t v) = Some p \<Longrightarrow> typed_cat p"
  by (auto simp: read_reply_def sanitize_typed split: option.splits)

lemma read_reply_failed: "rg_failed (read_reply f ms t v) \<longleftrightarrow> rg_parsed (read_reply f ms t v) = None"
  by (auto simp: read_reply_def split: option.splits)

lemma climb_rung_reply:
  assumes "climb_rung env f ms t band stage calls = ((r, b), calls')"
  shows "\<exists>v. r = read_reply f ms t v"
proof -
  have A: "\<exists>v. fst (read_rung env f ms t stage c) = read_reply f ms t v" for c
    by (auto simp: read_rung_def split: prod.split)
  have B: "\<exists>v. fst (repair_category env f ms t c) = read_reply f ms t v" for c
    by (auto simp: repair_category_def split: prod.split)
  from assms have "r \<in> range (\<lambda>c. fst (read_rung env f ms t stage c)) \<union> range (\<lambda>c. fst (repair_category env f ms t c))"
    by (auto simp: climb_rung_def Let_def image_def split: prod.splits if_splits) (metis fst_conv)+
  with A B show ?thesis by auto
qed

lemma next_band_stays: "next_band env band r repaired = band \<Longrightarrow> map_of CLASSIFICATION_LADDER band \<noteq> None \<Longrightarrow>
    (repaired \<Longrightarrow> band = ''local-small'') \<Longrightarrow> \<not> rg_failed r"
  by (auto simp: next_band_def climb_at band_stages Let_def split: if_splits)

lemma ladder_loop_rule:
  assumes init: "I band held calls"
    and exit_held: "\<And>band p st calls. I band (Some (p, st)) calls \<Longrightarrow> map_of CLASSIFICATION_LADDER band = None \<Longrightarrow>
      Q (finish env f (with_band p ''needs_review'' st) ''needs_review'' calls)"
    and exit_none: "\<And>band calls. I band None calls \<Longrightarrow> map_of CLASSIFICATION_LADDER band = None \<Longrightarrow>
      Q (finish env f (with_band (heuristic_categorize ms t) ''needs_review'' []) ''needs_review'' calls)"
    and stay: "\<And>band held calls stage r repaired calls' p. I band held calls \<Longrightarrow>
      map_of CLASSIFICATION_LADDER band = Some stage \<Longrightarrow>
      climb_rung env f ms t band stage calls = ((r, repaired), calls') \<Longrightarrow> rg_parsed r = Some p \<Longrightarrow>
      next_band env band r repaired = band \<Longrightarrow> Q (finish env f (with_band p band stage) band calls')"
    and step: "\<And>band held calls stage r repaired calls'. I band held calls \<Longrightarrow>
      map_of CLASSIFICATION_LADDER band = Some stage \<Longrightarrow>
      climb_rung env f ms t band stage calls = ((r, repaired), calls') \<Longrightarrow> next_band env band r repaired \<noteq> band \<Longrightarrow>
      I (next_band env band r repaired) (case rg_parsed r of Some p \<Rightarrow> Some (p, stage) | None \<Rightarrow> held) calls'"
  shows "Q (ladder_loop env f ms t band held calls)"
  using init
proof (induction "ladder_rank band" arbitrary: band held calls rule: less_induct)
  case less
  show ?case
  proof (cases "map_of CLASSIFICATION_LADDER band")
    case None
    show ?thesis
    proof (cases held)
      case None
      then show ?thesis using \<open>map_of CLASSIFICATION_LADDER band = None\<close> less.prems exit_none
        by (subst ladder_loop.simps) simp
    next
      case (Some a)
      then show ?thesis using \<open>map_of CLASSIFICATION_LADDER band = None\<close> less.prems exit_held
        by (subst ladder_loop.simps) (cases a, simp)
    qed
  next
    case (Some stage)
    obtain r repaired calls' where c: "climb_rung env f ms t band stage calls = ((r, repaired), calls')"
      by (metis surj_pair)
    have small: "repaired \<Longrightarrow> band = ''local-small''" using c climb_rung_repaired by fastforce
    show ?thesis
    proof (cases "next_band env band r repaired = band")
      case True
      then have "\<not> rg_failed r" using next_band_stays [OF True] Some small by simp
      moreover obtain v where "r = read_reply f ms t v" using climb_rung_reply [OF c] by blast
      ultimately obtain p where p: "rg_parsed r = Some p" using read_reply_failed by fastforce
      then show ?thesis using Some c True stay [OF less.prems Some c p True]
        by (subst ladder_loop.simps) simp
    next
      case False
      have "ladder_rank (next_band env band r repaired) < ladder_rank band"
        using next_band_cases Some False small by blast
      from less.hyps [OF this step [OF less.prems Some c False]] show ?thesis
        using Some c False by (subst ladder_loop.simps) simp
    qed
  qed
qed

lemma ladder_typed:
  assumes "fv_category (tf_verdict f) \<in> set CATEGORIES"
  shows "typed_cat (fst (ladder_loop env f ms t band None calls))"
proof (rule ladder_loop_rule [where I = "\<lambda>b held c. \<forall>p s. held = Some (p, s) \<longrightarrow> typed_cat p"
      and Q = "\<lambda>r. typed_cat (fst r)"])
  fix b and held :: "(pdict \<times> string) option" and cs stage r repaired cs'
  assume h: "\<forall>p s. held = Some (p, s) \<longrightarrow> typed_cat p"
    and c: "climb_rung env f ms t b stage cs = ((r, repaired), cs')"
  show "\<forall>p s. (case rg_parsed r of Some p \<Rightarrow> Some (p, stage) | None \<Rightarrow> held) = Some (p, s) \<longrightarrow> typed_cat p"
    using h climb_rung_reply [OF c] read_reply_typed by (auto split: option.splits)
next
  fix b :: string and cs stage r repaired cs' p
  assume c: "climb_rung env f ms t b stage cs = ((r, repaired), cs')" and "rg_parsed r = Some p"
  then have "typed_cat p" using climb_rung_reply [OF c] read_reply_typed by blast
  then show "typed_cat (fst (finish env f (with_band p b stage) b cs'))"
    by (simp add: finish_typed with_band_typed assms)
qed (auto simp: with_band_typed heuristic_typed assms intro!: finish_typed)

lemma facts_verdict: "fv_category (tf_verdict (thread_facts_of env ms s)) \<in> set CATEGORIES"
  by (simp add: thread_facts_of_def Let_def filter_cat split: prod.split)

lemma facts_route: "\<exists>sig. tf_route (thread_facts_of env ms s) = route_thread sig"
  by (simp add: thread_facts_of_def Let_def split: prod.split) blast

text \<open>
  C28. Whatever the model replies, a categorized thread carries a category, an action and a utility of the
  closed enumerations.
\<close>
theorem categorize_typed: "typed_cat (fst (categorize_thread env t ms s))"
proof -
  obtain sig where sig: "tf_route (thread_facts_of env ms s) = route_thread sig" using facts_route by blast
  have "typed_cat (fst (skip_result env (thread_facts_of env ms s) t []))"
    by (simp add: skip_result_def Let_def attach_draft_typed note_pin_typed typed_dset skipped_typed sig)
  moreover have "typed_cat (fst (ladder_loop env (thread_facts_of env ms s) ms t b None []))" for b
    by (rule ladder_typed) (simp_all add: facts_verdict)
  ultimately show ?thesis by (simp add: categorize_thread_def Let_def)
qed

subsection \<open>Which models are asked, and how often\<close>

definition LOCAL_STAGES :: "string list" where
  "LOCAL_STAGES = [''inbox_triage'', ''inbox_triage_review'']"

definition local_calls :: "model_call list \<Rightarrow> bool" where
  "local_calls calls = list_all (\<lambda>c. mc_stage c \<in> set LOCAL_STAGES) calls"

lemma snd_draft_try: "snd (draft_try env e stage calls) = calls @ [\<lparr>mc_stage = stage, mc_prompt = draft_prompt env e\<rparr>]"
  by (simp add: draft_try_def call_model_def split: option.split)

lemma snd_cloud_draft: "snd (cloud_draft env d e calls) = calls @ [\<lparr>mc_stage = ''inbox_triage_draft'', mc_prompt = draft_prompt env e\<rparr>]"
  using snd_draft_try [of env e "''inbox_triage_draft''" calls]
  by (auto simp: cloud_draft_def split: prod.split option.split)

lemma escalate_local: "escalate b ''local-only'' lf c df \<noteq> ''cloud'' \<or> escalate b ''local-only'' lf c df = b"
  by (simp add: escalate_def Let_def PROFILES_def)

lemma attach_calls_length: "length (snd (attach_draft env d e b calls)) \<le> Suc (Suc (length calls))"
proof -
  obtain lt c where d: "draft_try env e ''inbox_triage_review'' calls = (lt, c)" by fastforce
  have "length c = Suc (length calls)" using snd_draft_try [of env e "''inbox_triage_review''" calls, unfolded d] by simp
  then show ?thesis by (simp add: attach_draft_def d Let_def snd_cloud_draft)
qed

lemma attach_calls_local:
  assumes "profile env = ''local-only''" "b \<noteq> ''cloud''" "local_calls calls"
  shows "local_calls (snd (attach_draft env d e b calls))"
proof -
  obtain lt c where d: "draft_try env e ''inbox_triage_review'' calls = (lt, c)" by fastforce
  have "local_calls c"
    using assms(3) snd_draft_try [of env e "''inbox_triage_review''" calls, unfolded d]
    by (simp add: local_calls_def LOCAL_STAGES_def)
  moreover have "escalate b ''local-only'' lf q True \<noteq> ''cloud''" for lf q
    using escalate_local [of b lf q True] assms(2) by auto
  ultimately show ?thesis using assms by (simp add: attach_draft_def d Let_def)
qed

lemma finish_calls_length: "length (snd (finish env f d b calls)) \<le> Suc (Suc (length calls))"
  by (simp add: finish_def Let_def attach_calls_length)

lemma finish_calls_local:
  "profile env = ''local-only'' \<Longrightarrow> b \<noteq> ''cloud'' \<Longrightarrow> local_calls calls \<Longrightarrow> local_calls (snd (finish env f d b calls))"
  by (simp add: finish_def Let_def attach_calls_local)

lemma snd_read_rung: "snd (read_rung env f ms t stage calls) = calls @ [\<lparr>mc_stage = stage, mc_prompt = triage_prompt env (tf_shown f)\<rparr>]"
  by (simp add: read_rung_def call_model_def)

lemma snd_repair: "snd (repair_category env f ms t calls) =
    calls @ [\<lparr>mc_stage = ''inbox_triage'', mc_prompt = category_repair_prompt (tf_shown f)\<rparr>]"
  by (simp add: repair_category_def call_model_def)

lemma climb_rung_calls:
  assumes "climb_rung env f ms t band stage calls = ((r, repaired), calls')"
  shows "(if band = ''local-small'' then length calls' \<le> length calls + (if repaired then 3 else 2)
          else length calls' = length calls + 1)"
    and "local_calls calls \<Longrightarrow> stage \<in> set LOCAL_STAGES \<Longrightarrow> local_calls calls'"
proof -
  obtain r0 c0 where 0: "read_rung env f ms t stage calls = (r0, c0)" by fastforce
  obtain r1 c1 where 1: "read_rung env f ms t stage c0 = (r1, c1)" by fastforce
  obtain r3 c3 where 3: "repair_category env f ms t c1 = (r3, c3)" by fastforce
  from assms consider "calls' = c0" "\<not> repaired" | "calls' = c1" "band = ''local-small''" "\<not> repaired"
      | "calls' = c3" "band = ''local-small''" "repaired"
    by (auto simp: climb_rung_def 0 1 3 small_band_def split: if_splits)
  note cases = this
  note snds = snd_read_rung [of env f ms t stage calls, unfolded 0] snd_read_rung [of env f ms t stage c0, unfolded 1]
    snd_repair [of env f ms t c1, unfolded 3]
  show "(if band = ''local-small'' then length calls' \<le> length calls + (if repaired then 3 else 2)
          else length calls' = length calls + 1)"
    using snds by (cases rule: cases) auto
  show "local_calls calls \<Longrightarrow> stage \<in> set LOCAL_STAGES \<Longrightarrow> local_calls calls'"
    using snds by (cases rule: cases) (auto simp: local_calls_def LOCAL_STAGES_def)
qed

lemma next_band_where:
  assumes "map_of CLASSIFICATION_LADDER band = Some stage" "next_band env band r repaired \<noteq> band"
    and "repaired \<Longrightarrow> band = ''local-small''"
  shows "next_band env band r repaired =
    (if band = ''local-small'' \<and> \<not> repaired then ''local-chat''
     else if band \<noteq> ''cloud'' \<and> profile env \<noteq> ''local-only'' then ''cloud'' else ''needs_review'')"
proof -
  from assms(1) consider "band = ''local-small''" | "band = ''local-chat''" | "band = ''cloud''"
    by (auto simp: band_stages)
  then show ?thesis
    using assms(2,3) by cases (auto simp: next_band_def climb_at Let_def split: if_splits)
qed

definition rung_budget :: "string \<Rightarrow> nat" where
  \<comment> \<open>how many calls a band is reached with at most\<close>
  "rung_budget band =
     (if band = ''local-small'' then 0 else if band = ''local-chat'' then 2 else if band = ''cloud'' then 3 else 4)"

lemma ladder_calls_bounded: "length (snd (ladder_loop env f ms t ''local-small'' None [])) \<le> 6"
proof (rule ladder_loop_rule [where I = "\<lambda>b held c. length c \<le> rung_budget b" and Q = "\<lambda>r. length (snd r) \<le> 6"])
  fix b and held :: "(pdict \<times> string) option" and cs stage r repaired cs'
  assume h: "length cs \<le> rung_budget b" and L: "map_of CLASSIFICATION_LADDER b = Some stage"
    and c: "climb_rung env f ms t b stage cs = ((r, repaired), cs')" and n: "next_band env b r repaired \<noteq> b"
  have small: "repaired \<Longrightarrow> b = ''local-small''" using c climb_rung_repaired by fastforce
  show "length cs' \<le> rung_budget (next_band env b r repaired)"
    using h next_band_where [OF L n small] climb_rung_calls(1) [OF c] L small
    by (auto simp: rung_budget_def band_stages split: if_splits)
next
  fix b and held :: "(pdict \<times> string) option" and cs stage r repaired cs' p
  assume h: "length cs \<le> rung_budget b" and L: "map_of CLASSIFICATION_LADDER b = Some stage"
    and c: "climb_rung env f ms t b stage cs = ((r, repaired), cs')"
  have "length cs' \<le> 4" using h climb_rung_calls(1) [OF c] L by (auto simp: rung_budget_def band_stages split: if_splits)
  then show "length (snd (finish env f (with_band p b stage) b cs')) \<le> 6"
    using finish_calls_length [of env f "with_band p b stage" b cs'] by linarith
next
  fix b p st and cs :: "model_call list"
  assume "length cs \<le> rung_budget b"
  then have "length cs \<le> 4" by (auto simp: rung_budget_def split: if_splits)
  then show "length (snd (finish env f (with_band p ''needs_review'' st) ''needs_review'' cs)) \<le> 6"
    using finish_calls_length [of env f "with_band p ''needs_review'' st" "''needs_review''" cs] by linarith
next
  fix b and cs :: "model_call list"
  assume "length cs \<le> rung_budget b"
  then have "length cs \<le> 4" by (auto simp: rung_budget_def split: if_splits)
  then show "length (snd (finish env f (with_band (heuristic_categorize ms t) ''needs_review'' []) ''needs_review'' cs)) \<le> 6"
    using finish_calls_length [of env f "with_band (heuristic_categorize ms t) ''needs_review'' []" "''needs_review''" cs] by linarith
qed simp

lemma ladder_calls_local:
  assumes "profile env = ''local-only''"
  shows "local_calls (snd (ladder_loop env f ms t ''local-small'' None []))"
proof (rule ladder_loop_rule [where I = "\<lambda>b held c. b \<noteq> ''cloud'' \<and> local_calls c" and Q = "\<lambda>r. local_calls (snd r)"])
  fix b and held :: "(pdict \<times> string) option" and cs stage r repaired cs'
  assume h: "b \<noteq> ''cloud'' \<and> local_calls cs" and L: "map_of CLASSIFICATION_LADDER b = Some stage"
    and c: "climb_rung env f ms t b stage cs = ((r, repaired), cs')" and n: "next_band env b r repaired \<noteq> b"
  have small: "repaired \<Longrightarrow> b = ''local-small''" using c climb_rung_repaired by fastforce
  have "stage \<in> set LOCAL_STAGES" using L h by (auto simp: band_stages LOCAL_STAGES_def)
  then show "next_band env b r repaired \<noteq> ''cloud'' \<and> local_calls cs'"
    using h next_band_where [OF L n small] climb_rung_calls(2) [OF c] assms by auto
next
  fix b and held :: "(pdict \<times> string) option" and cs stage r repaired cs' p
  assume h: "b \<noteq> ''cloud'' \<and> local_calls cs" and L: "map_of CLASSIFICATION_LADDER b = Some stage"
    and c: "climb_rung env f ms t b stage cs = ((r, repaired), cs')"
  have "stage \<in> set LOCAL_STAGES" using L h by (auto simp: band_stages LOCAL_STAGES_def)
  then show "local_calls (snd (finish env f (with_band p b stage) b cs'))"
    using h climb_rung_calls(2) [OF c] assms by (auto intro: finish_calls_local)
qed (auto simp: assms local_calls_def [of "[]"] intro!: finish_calls_local)

lemma skip_calls: "length (snd (skip_result env f t [])) \<le> 2"
    "profile env = ''local-only'' \<Longrightarrow> local_calls (snd (skip_result env f t []))"
proof -
  have "length (snd (attach_draft env d (tf_excerpt f) ''skip'' [])) \<le> 2" for d
    using attach_calls_length [of env d "tf_excerpt f" "''skip''" "[]"] by simp
  then show "length (snd (skip_result env f t [])) \<le> 2"
    by (simp add: skip_result_def Let_def)
  show "profile env = ''local-only'' \<Longrightarrow> local_calls (snd (skip_result env f t []))"
    using attach_calls_local [of env "''skip''" "[]"] by (simp add: skip_result_def Let_def local_calls_def)
qed

lemma facts_band: "rt_band (tf_route (thread_facts_of env ms s)) \<in> {''skip'', ''local-small''}"
  using facts_route [of env ms s] route_typed(4) by fastforce

text \<open>
  C27. Categorizing one thread makes at most six model calls: the rungs, one repair and two draft attempts.
\<close>
theorem categorize_calls_bounded: "length (snd (categorize_thread env t ms s)) \<le> 6"
  using facts_band [of env ms s] skip_calls(1) [of env "thread_facts_of env ms s" t]
    ladder_calls_bounded [of env "thread_facts_of env ms s" ms t]
  by (auto simp: categorize_thread_def Let_def)

text \<open>
  C26. Under the local-only profile no call of a categorization leaves the local stages, whatever the
  replies and however the ladder climbs.
\<close>
theorem categorize_local_only:
  assumes "te_profile env = ''local-only''"
  shows "local_calls (snd (categorize_thread env t ms s))"
proof -
  have "profile env = ''local-only''" using assms by (simp add: profile_def or_else_def)
  then show ?thesis
    using facts_band [of env ms s] skip_calls(2) [of env "thread_facts_of env ms s" t]
      ladder_calls_local [of env "thread_facts_of env ms s" ms t]
    by (auto simp: categorize_thread_def Let_def)
qed

theorem categorize_local_only_witness:
  "te_profile sample_triage = ''local-only''
   \<and> local_calls (snd (categorize_thread sample_triage ''t1'' [sample_mail] ''gmail''))"
proof (intro conjI)
  show p: "te_profile sample_triage = ''local-only''" by (simp add: sample_triage_def)
  show "local_calls (snd (categorize_thread sample_triage ''t1'' [sample_mail] ''gmail''))"
    by (rule categorize_local_only [OF p])
qed

subsection \<open>Drafts that are kept passed the checklist\<close>

definition draft_ok :: "string \<Rightarrow> pdict \<Rightarrow> bool" where
  "draft_ok e d = (case map_of d ''draft_body'' of
     None \<Rightarrow> True | Some v \<Rightarrow> \<exists>b. v = PStr b \<and> draft_problems b e = [] \<and> dget d ''action'' = PStr ''draft'')"

lemma map_of_dset: "map_of (dset d k v) k' = (if k' = k then Some v else map_of d k')"
  by (simp add: dset_def update_conv)

lemma draft_ok_dset [simp]: "k \<notin> {''draft_body'', ''action''} \<Longrightarrow> draft_ok e (dset d k v) = draft_ok e d"
  by (auto simp: draft_ok_def map_of_dset dget_dset split: option.splits)

lemma draft_ok_none: "map_of d ''draft_body'' = None \<Longrightarrow> draft_ok e d"
  by (simp add: draft_ok_def)

lemma no_draft_dset: "k \<noteq> ''draft_body'' \<Longrightarrow> map_of (dset d k v) ''draft_body'' = map_of d ''draft_body''"
  by (simp add: dset_def update_conv)

lemma no_draft_dpop: "map_of (dpop d ''draft_body'') ''draft_body'' = None"
  by (simp add: dpop_def delete_conv)

lemma draft_set_ok: "dget d ''action'' = PStr ''draft'' \<Longrightarrow> draft_problems b e = [] \<Longrightarrow> draft_ok e (dset d ''draft_body'' (PStr b))"
  by (simp add: draft_ok_def map_of_dset dget_dset)

lemma dpop_action: "dget (dpop d ''draft_body'') ''action'' = dget d ''action''"
  by (simp add: dget_dpop)

lemma cloud_draft_ok: "map_of d ''draft_body'' = None \<Longrightarrow> dget d ''action'' = PStr ''draft'' \<Longrightarrow> draft_ok e (fst (cloud_draft env d e calls))"
  by (simp add: cloud_draft_def draft_set_ok draft_ok_none split: prod.split option.split)

lemma attach_draft_ok:
  assumes n: "map_of d ''draft_body'' = None"
  shows "draft_ok e (fst (attach_draft env d e b calls))"
proof (cases "dget d ''action'' = PStr ''draft''")
  case True
  obtain lt c where t: "draft_try env e ''inbox_triage_review'' calls = (lt, c)" by fastforce
  let ?d = "dpop d ''draft_body''"
  have a: "draft_ok e ?d"
    by (rule draft_ok_none) (simp add: no_draft_dpop)
  have c: "draft_ok e (fst (cloud_draft env ?d e c))" for c
    by (rule cloud_draft_ok) (simp_all add: no_draft_dpop dpop_action True)
  have s: "draft_problems x e = [] \<Longrightarrow> draft_ok e (dset d ''draft_body'' (PStr x))" for x
    using draft_set_ok [OF True] by simp
  show ?thesis
    by (simp only: attach_draft_def t Let_def prod.case) (auto intro: a c s simp: True)
qed (simp add: attach_draft_def draft_ok_none n)

lemma no_draft_verdict: "map_of d ''draft_body'' = None \<Longrightarrow> map_of (apply_verdict d v t) ''draft_body'' = None"
  by (simp add: apply_verdict_def Let_def no_draft_dset)

lemma no_draft_heuristic: "map_of (heuristic_categorize ms t) ''draft_body'' = None"
  by (simp add: heuristic_categorize_def Let_def)

lemma no_draft_sanitize: "map_of (sanitize_categorization p ms t e) ''draft_body'' = None"
  by (simp add: sanitize_categorization_def Let_def no_draft_heuristic split: option.split)

lemma no_draft_note: "map_of (note_pin f d) ''draft_body'' = map_of d ''draft_body''"
  by (simp add: note_pin_def no_draft_dset)

lemma no_draft_with_band: "map_of (with_band d b m) ''draft_body'' = map_of d ''draft_body''"
  by (simp add: with_band_def no_draft_dset)

lemma finish_draft_ok: "map_of d ''draft_body'' = None \<Longrightarrow> draft_ok (tf_excerpt f) (fst (finish env f d b calls))"
  by (simp add: finish_def Let_def attach_draft_ok no_draft_note no_draft_dset no_draft_verdict)

lemma read_reply_no_draft: "rg_parsed (read_reply f ms t v) = Some p \<Longrightarrow> map_of p ''draft_body'' = None"
  by (auto simp: read_reply_def no_draft_sanitize split: option.splits)

lemma ladder_draft_ok: "draft_ok (tf_excerpt f) (fst (ladder_loop env f ms t band None calls))"
proof (rule ladder_loop_rule [where I = "\<lambda>b held c. \<forall>p s. held = Some (p, s) \<longrightarrow> map_of p ''draft_body'' = None"
      and Q = "\<lambda>r. draft_ok (tf_excerpt f) (fst r)"])
  fix b and held :: "(pdict \<times> string) option" and cs stage r repaired cs'
  assume h: "\<forall>p s. held = Some (p, s) \<longrightarrow> map_of p ''draft_body'' = None"
    and c: "climb_rung env f ms t b stage cs = ((r, repaired), cs')"
  show "\<forall>p s. (case rg_parsed r of Some p \<Rightarrow> Some (p, stage) | None \<Rightarrow> held) = Some (p, s) \<longrightarrow> map_of p ''draft_body'' = None"
    using h climb_rung_reply [OF c] read_reply_no_draft by (auto split: option.splits)
next
  fix b :: string and cs stage r repaired cs' p
  assume c: "climb_rung env f ms t b stage cs = ((r, repaired), cs')" and "rg_parsed r = Some p"
  then have "map_of p ''draft_body'' = None" using climb_rung_reply [OF c] read_reply_no_draft by blast
  then show "draft_ok (tf_excerpt f) (fst (finish env f (with_band p b stage) b cs'))"
    by (simp add: finish_draft_ok no_draft_with_band)
qed (auto simp: no_draft_with_band no_draft_heuristic intro!: finish_draft_ok)

lemma facts_excerpt: "tf_excerpt (thread_facts_of env ms s) = build_thread_excerpt ms"
  by (simp add: thread_facts_of_def Let_def split: prod.split)

text \<open>
  C29. A draft body in a categorization passed the checklist against the thread's excerpt and comes with
  the draft action; every other categorization carries no draft.
\<close>
theorem categorize_draft_ok: "draft_ok (build_thread_excerpt ms) (fst (categorize_thread env t ms s))"
proof -
  let ?f = "thread_facts_of env ms s"
  have "map_of (skipped r t' s') ''draft_body'' = None" for r t' s' by (simp add: skipped_def Let_def)
  then have "draft_ok (tf_excerpt ?f) (fst (skip_result env ?f t []))"
    by (simp add: skip_result_def Let_def attach_draft_ok draft_ok_none no_draft_note no_draft_dset)
  then show ?thesis using ladder_draft_ok [of ?f env ms t] by (simp add: categorize_thread_def Let_def facts_excerpt)
qed

end
