(* ===== verification/TriagePass.thy ===== *)
theory TriagePass
  imports TriageLadder
begin

text \<open>
  What a triage pass guarantees: pins are honoured only when no structural signal contradicts
  them, grouping is a partition, the store receives what the hook accepts, counts are right, and
  every thread belongs to an included account.
\<close>

subsection \<open>Pins\<close>

lemma route_pinned:
  "rt_rationale (route_thread s) \<in> {''sender memory'', ''rule''} \<Longrightarrow>
   (str_in (sig_memory_action s) MODEL_ACTIONS \<and> sig_memory_confidence s \<ge> PIN_CONFIDENCE)
   \<or> (str_in (sig_rule_action s) MODEL_ACTIONS \<and> sig_rule_confidence s \<ge> PIN_CONFIDENCE)"
  by (auto simp: route_thread_def Let_def split: if_splits)

lemma pinned_Nil: "\<not> pinned []"
  by (simp add: pinned_def str_in_def)

lemma pin_honoured_uncontradicted:
  assumes "rt_rationale (route_thread (signals_of e n v (if ig \<noteq> [] then [] else d))) \<in> {''sender memory'', ''rule''}"
    and "ig = pin_contradicted d v auth miss"
  shows "\<not> (fv_category v = ''spam'' \<and> fv_sticks v) \<and> \<not> contains ''dmarc=fail'' (casefold auth) \<and> \<not> miss"
proof -
  have p: "pinned (if ig \<noteq> [] then [] else d)"
    using route_pinned [OF assms(1)] by (simp only: signals_of_def pinned_def thread_signals.simps)
  then have ig: "ig = []" by (metis pinned_Nil)
  with p have "pinned d" by simp
  then show ?thesis using ig assms(2) by (auto simp: pin_contradicted_def or_else_def split: if_splits)
qed

text \<open>
  C30. A thread that is routed by sender memory or a rule had no sticking spam verdict, no failed DMARC on the
  one message its sender was read from (the code does not look at the other messages of the thread), and no
  reason to ignore the pin was found.
\<close>
theorem pin_gate:
  assumes "rt_rationale (tf_route (thread_facts_of env ms s)) \<in> {''sender memory'', ''rule''}"
  shows "\<not> (fv_category (tf_verdict (thread_facts_of env ms s)) = ''spam''
            \<and> fv_sticks (tf_verdict (thread_facts_of env ms s)))
    \<and> \<not> contains ''dmarc=fail'' (casefold (snd (first_sender (te_parseaddr env) ms)))
    \<and> tf_pin_ignored (thread_facts_of env ms s) = []"
proof -
  obtain sender auth where fs: "first_sender (te_parseaddr env) ms = (sender, auth)" by fastforce
  let ?f = "thread_facts_of env ms s"
  obtain d miss where
    ig: "tf_pin_ignored ?f = pin_contradicted d (tf_verdict ?f) auth miss" and
    rt: "tf_route ?f = route_thread (signals_of (build_thread_excerpt ms) (length ms) (tf_verdict ?f)
           (if tf_pin_ignored ?f \<noteq> [] then [] else d))"
    by (simp add: thread_facts_of_def Let_def fs)
  have A: "rt_rationale (route_thread (signals_of (build_thread_excerpt ms) (length ms) (tf_verdict ?f)
           (if tf_pin_ignored ?f \<noteq> [] then [] else d))) \<in> {''sender memory'', ''rule''}"
    using assms unfolding rt .
  have "pinned (if tf_pin_ignored ?f \<noteq> [] then [] else d)"
    using route_pinned [OF A] by (simp only: signals_of_def pinned_def thread_signals.simps)
  then have "tf_pin_ignored ?f = []" by (metis pinned_Nil)
  with pin_honoured_uncontradicted [OF A ig] show ?thesis by (simp add: fs)
qed

theorem pin_gate_witness:
  "rt_rationale (tf_route (thread_facts_of sample_pinned [sample_mail] ''gmail'')) = ''sender memory''
   \<and> tf_pin_ignored (thread_facts_of sample_pinned [sample_mail] ''gmail'') = []"
proof -
  let ?mem = "[(''memory_action'', PStr ''archive''), (''memory_category'', PStr ''newsletter''),
      (''memory_confidence'', PFloat (95 / 100))]"
  let ?v = "filter_verdict (build_thread_excerpt [sample_mail]) ''w'' [] PNone"
  have t: "mr_title sample_mail = ''w''" by (simp add: sample_mail_def)
  have hb: "header_bag [sample_mail] = []" by code_simp
  have fs: "first_sender (te_parseaddr sample_pinned) [sample_mail] = (''a@b.co'', [])" by code_simp
  have mem: "memory_signals sample_pinned src ''a@b.co'' sub li = ?mem" for src sub li
    by (simp add: memory_signals_def sample_pinned_def sample_triage_def)
  have scan: "scan_rspamd sample_pinned a b c d e f = PNone" for a b c d e f
    by (simp add: scan_rspamd_def sample_pinned_def sample_triage_def)
  have ig: "pin_contradicted ?mem ?v [] (te_scan_expected sample_pinned) = []" by code_simp
  have "rt_rationale (route_thread (signals_of (build_thread_excerpt [sample_mail]) (length [sample_mail]) ?v ?mem)) = ''sender memory''"
    by code_simp
  then have r: "rt_rationale (tf_route (thread_facts_of sample_pinned [sample_mail] ''gmail'')) = ''sender memory''"
    by (simp only: thread_facts_of_def Let_def list.case t hb fs prod.case mem scan ig thread_facts.simps simp_thms if_False)
  then have "rt_rationale (tf_route (thread_facts_of sample_pinned [sample_mail] ''gmail'')) \<in> {''sender memory'', ''rule''}"
    by (rule ssubst) blast
  from pin_gate [OF this] r show ?thesis by blast
qed

subsection \<open>Grouping\<close>

lemma map_of_group_fold:
  "map_of (fold group_add rs g) k =
     (let ms = (case map_of g k of None \<Rightarrow> [] | Some ms \<Rightarrow> ms) @ filter (\<lambda>r. extract_thread_id r = k) rs
      in if ms = [] \<and> map_of g k = None then None else Some ms)"
  by (induction rs arbitrary: g)
    (auto simp: group_add_def update_conv Let_def split: option.splits)

lemma distinct_group_fold: "distinct (map fst g) \<Longrightarrow> distinct (map fst (fold group_add rs g))"
  by (induction rs arbitrary: g) (auto simp: group_add_def Let_def distinct_update)

text \<open>
  Grouping is a partition: every thread id occurs once and holds exactly its messages, in order.
\<close>
theorem group_by_thread_spec:
  "distinct (map fst (group_by_thread rs))
   \<and> map_of (group_by_thread rs) k =
       (let ms = filter (\<lambda>r. extract_thread_id r = k) rs in if ms = [] then None else Some ms)"
  by (simp add: group_by_thread_def map_of_group_fold distinct_group_fold Let_def)

lemma group_member:
  assumes "(k, ms) \<in> set (group_by_thread rs)"
  shows "ms \<noteq> [] \<and> ms = filter (\<lambda>r. extract_thread_id r = k) rs"
proof -
  have "distinct (map fst (group_by_thread rs))" by (simp add: group_by_thread_def distinct_group_fold)
  then have "map_of (group_by_thread rs) k = Some ms" using assms by simp
  then show ?thesis
    by (auto simp: group_by_thread_def map_of_group_fold Let_def split: if_splits)
qed

subsection \<open>The Gmail query\<close>

lemma runs_word: "list_all P w \<Longrightarrow> \<not> P c \<Longrightarrow> runs P cur (w @ c # cs) = (if rev cur @ w = [] then runs P [] cs else (rev cur @ w) # runs P [] cs)"
  by (induction w arbitrary: cur) auto

lemma runs_end: "list_all P w \<Longrightarrow> runs P cur w = (if rev cur @ w = [] then [] else [rev cur @ w])"
  by (induction w arbitrary: cur) auto

lemma runs_all: "list_all P cur \<Longrightarrow> w \<in> set (runs P cur s) \<Longrightarrow> w \<noteq> [] \<and> list_all P w"
proof (induction s arbitrary: cur)
  case (Cons c s)
  have "list_all P []" by simp
  show ?case
  proof (cases "P c")
    case True
    then show ?thesis using Cons.prems Cons.IH [of "c # cur"] by simp
  next
    case False
    then show ?thesis using Cons.prems Cons.IH [OF \<open>list_all P []\<close>] by (auto simp: list_all_iff split: if_splits)
  qed
qed (auto split: if_splits)

lemma split_ws_words: "w \<in> set (split_ws s) \<Longrightarrow> w \<noteq> [] \<and> list_all (\<lambda>c. \<not> py_isspace c) w"
  using runs_all [of "\<lambda>c. \<not> py_isspace c" "[]" w s] by (simp add: split_ws_def)

lemma split_join_ws: "\<forall>w \<in> set ws. w \<noteq> [] \<and> list_all (\<lambda>c. \<not> py_isspace c) w \<Longrightarrow> split_ws (py_join '' '' ws) = ws"
proof (induction ws)
  case (Cons s ws)
  have sp: "py_isspace CHR '' ''" by (simp add: py_isspace_def)
  show ?case
  proof (cases ws)
    case Nil
    then show ?thesis using Cons.prems by (simp add: split_ws_def runs_end)
  next
    case (Cons t ts)
    then show ?thesis
      using Cons.IH Cons.prems runs_word [of "\<lambda>c. \<not> py_isspace c" s "CHR '' ''" "[]" "py_join '' '' (t # ts)"] sp
      by (simp add: split_ws_def)
  qed
qed (simp add: split_ws_def)

text \<open>
  Every Gmail query excludes the folders triage must not read, whatever the caller's query.
\<close>
theorem gmail_query_excludes: "set GMAIL_EXCLUDED \<subseteq> set (split_ws (source_query ''gmail'' q))"
proof -
  let ?ws = "split_ws q @ filter (\<lambda>t. t \<notin> set (split_ws q)) GMAIL_EXCLUDED"
  have "\<forall>w \<in> set GMAIL_EXCLUDED. w \<noteq> [] \<and> list_all (\<lambda>c. \<not> py_isspace c) w"
    by (simp add: GMAIL_EXCLUDED_def py_isspace_def)
  then have "split_ws (py_join '' '' ?ws) = ?ws" by (intro split_join_ws) (auto dest: split_ws_words)
  then show ?thesis by (auto simp: source_query_def Let_def)
qed

subsection \<open>Storing\<close>

lemma posts_accepted:
  "item \<in> set (posts_for t e) \<Longrightarrow> po_domain item = ''inbox'' \<and>
   rag_route_hook (po_decision item) = Some \<lparr>hr_ok = True, hr_hook = ''rag_route'', hr_reason = [], hr_domain = Some ''inbox''\<rparr>"
  by (auto simp: posts_for_def Let_def rag_route_hook_def dget_Cons py_or_def split: if_splits)

lemma persist_fold_posts:
  assumes "pe_gate env = Some rag_route_hook"
  shows "(\<And>i. i \<in> set items \<Longrightarrow> po_domain i = ''inbox'' \<and> rag_route_hook (po_decision i)
            = Some \<lparr>hr_ok = True, hr_hook = ''rag_route'', hr_reason = [], hr_domain = Some ''inbox''\<rparr>) \<Longrightarrow>
         snd (fold (post_step env) items (t, posts)) = posts @ items"
proof (induction items arbitrary: t posts)
  case (Cons i items)
  obtain t' where "post_step env i (t, posts) = (t', posts @ [i])"
    using Cons.prems [of i] assms by (simp add: post_step_def Let_def)
  then show ?case using Cons.IH [of t' "posts @ [i]"] Cons.prems by simp
qed simp

text \<open>
  With the routing hook as gate, what a thread stores is exactly its posts, and a thread that is not
  writable or has no id stores nothing.
\<close>
theorem persist_posts:
  assumes "pe_gate env = Some rag_route_hook"
  shows "snd (persist_to_kb env e (t, posts)) =
     posts @ (if tt_writable t \<and> tt_thread_id t \<noteq> [] then posts_for t e else [])"
  using persist_fold_posts [OF assms, of "posts_for t e" t posts] posts_accepted [of _ t e]
  by (simp add: persist_to_kb_def)

theorem persist_posts_witness:
  "snd (persist_to_kb sample_pass ''hello'' (sample_thread\<lparr>tt_utility := ''correspondence''\<rparr>, [])) =
     posts_for (sample_thread\<lparr>tt_utility := ''correspondence''\<rparr>) ''hello''
   \<and> length (posts_for (sample_thread\<lparr>tt_utility := ''correspondence''\<rparr>) ''hello'') = 1"
  using persist_posts [of sample_pass "''hello''" "sample_thread\<lparr>tt_utility := ''correspondence''\<rparr>" "[]"]
  by (simp add: sample_pass_def sample_thread_def posts_for_def Let_def)

subsection \<open>One pass\<close>

definition counts_ok :: "triage_result \<Rightarrow> bool" where
  "counts_ok r = (\<forall>c. (case map_of (tr_by_category r) c of None \<Rightarrow> 0 | Some n \<Rightarrow> n)
                      = length (filter (\<lambda>t. tt_category t = c) (tr_threads r)))"

lemma counts_bump: "(case map_of (bump k cs) c of None \<Rightarrow> 0 | Some n \<Rightarrow> n)
    = (case map_of cs c of None \<Rightarrow> 0 | Some n \<Rightarrow> n) + (if c = k then 1 else 0)"
  by (auto simp: bump_def update_conv split: option.splits)

lemma thread_step_counts: "counts_ok r \<Longrightarrow> counts_ok (thread_step env p s km r)"
  by (auto simp: counts_ok_def thread_step_def Let_def counts_bump split: prod.splits)

lemma fold_keeps: "(\<And>x s. x \<in> set xs \<Longrightarrow> P s \<Longrightarrow> P (f x s)) \<Longrightarrow> P s \<Longrightarrow> P (fold f xs s)"
  by (induction xs arbitrary: s) auto

lemma categorize_source_counts: "counts_ok r \<Longrightarrow> counts_ok (categorize_source env p sr r)"
proof -
  assume r: "counts_ok r"
  have "counts_ok (r\<lparr>tr_sources_queried := q\<rparr>)" "counts_ok (r\<lparr>tr_sources_queried := q, tr_skipped := k\<rparr>)" for q k
    using r by (simp_all add: counts_ok_def)
  then show ?thesis
    by (auto simp: categorize_source_def Let_def split: prod.split intro!: fold_keeps [where P = counts_ok] thread_step_counts)
qed

text \<open>
  The per-category counts of a pass are the numbers of its threads of each category.
\<close>
theorem triage_counts: "counts_ok (triage_inboxes env reg n q p)"
proof -
  have "counts_ok (empty_result\<lparr>tr_skipped := k\<rparr>)" for k by (simp add: counts_ok_def empty_result_def)
  then show ?thesis
    by (auto simp: triage_inboxes_def Let_def split: option.split prod.split
        intro!: fold_keeps [where P = counts_ok] categorize_source_counts)
qed

lemma field_steps_account: "tt_account (fold (field_step p) ms t) =
    (if tt_account t \<noteq> [] then tt_account t else thread_account ms)"
  by (induction ms arbitrary: t) (simp_all add: field_step_def thread_account_def Let_def)

lemma apply_fields_account: "tt_account (apply_fields p ms t) = thread_account ms"
  by (simp add: apply_fields_def field_steps_account)

lemma field_steps_source: "tt_source (fold (field_step p) ms t) = tt_source t"
  by (induction ms arbitrary: t) (simp_all add: field_step_def Let_def)

lemma apply_fields_source: "tt_source (apply_fields p ms t) = tt_source t"
  by (simp add: apply_fields_def field_steps_source)

lemma post_step_keeps: "tt_account (fst (post_step env i st)) = tt_account (fst st)
    \<and> tt_source (fst (post_step env i st)) = tt_source (fst st)"
  by (simp add: post_step_def Let_def split: prod.split option.split)

lemma posts_keep: "tt_account (fst (fold (post_step env) is st)) = tt_account (fst st)
    \<and> tt_source (fst (fold (post_step env) is st)) = tt_source (fst st)"
  by (induction "is" arbitrary: st) (simp_all add: post_step_keeps)

lemma persist_keeps: "tt_account (fst (persist_to_kb env e st)) = tt_account (fst st)
    \<and> tt_source (fst (persist_to_kb env e st)) = tt_source (fst st)"
  by (cases st) (simp add: persist_to_kb_def posts_keep)

definition account_ok :: "pass_env \<Rightarrow> triaged_thread \<Rightarrow> bool" where
  "account_ok env t =
     (case included_accounts (pe_accounts env) (tt_source t) of
        None \<Rightarrow> True | Some inc \<Rightarrow> tt_account t = [] \<or> casefold (tt_account t) \<in> set inc)"

lemma account_ok_same: "tt_account t' = tt_account t \<Longrightarrow> tt_source t' = tt_source t \<Longrightarrow> account_ok env t \<Longrightarrow> account_ok env t'"
  by (simp add: account_ok_def split: option.splits)

lemma make_account_ok:
  "account_included msgs (included_accounts (pe_accounts env) src) \<Longrightarrow>
   account_ok env (apply_fields q msgs (make_thread e src tid msgs cat))"
  by (simp add: account_ok_def apply_fields_account apply_fields_source make_thread_def account_included_def Let_def
      split: option.splits)

definition threads_ok :: "pass_env \<Rightarrow> triage_result \<Rightarrow> bool" where
  "threads_ok env r = list_all (account_ok env) (tr_threads r)"

lemma thread_step_ok:
  assumes "account_included (snd km) (included_accounts (pe_accounts env) src)" "threads_ok env r"
  shows "threads_ok env (thread_step env p src km r)"
proof -
  obtain tid msgs where km: "km = (tid, msgs)" by fastforce
  let ?cat = "fst (categorize_thread (pe_triage env) tid msgs src)"
  let ?t = "apply_fields (te_parseaddr (pe_triage env)) msgs (make_thread (pe_triage env) src tid msgs ?cat)"
  obtain t posts where tp: "(if p then persist_to_kb env (build_thread_excerpt msgs) (?t, tr_posts r) else (?t, tr_posts r)) = (t, posts)"
    by fastforce
  have "account_ok env ?t" using assms(1) km by (simp add: make_account_ok)
  then have "account_ok env t"
    using tp persist_keeps [of env "build_thread_excerpt msgs" "(?t, tr_posts r)"]
    by (auto intro: account_ok_same split: if_splits)
  then show ?thesis using assms(2) tp by (simp add: thread_step_def km threads_ok_def Let_def)
qed

lemma categorize_source_ok: "threads_ok env r \<Longrightarrow> threads_ok env (categorize_source env p sr r)"
proof -
  assume r: "threads_ok env r"
  then have "threads_ok env (r\<lparr>tr_sources_queried := q\<rparr>)" "threads_ok env (r\<lparr>tr_sources_queried := q, tr_skipped := k\<rparr>)" for q k
    by (simp_all add: threads_ok_def)
  then show ?thesis
    by (auto simp: categorize_source_def Let_def split: prod.split intro!: fold_keeps [where P = "threads_ok env"] thread_step_ok)
qed

text \<open>
  Every thread of a pass that names an account names one the accounts seam lists as included for its
  source.
\<close>
theorem triage_accounts: "threads_ok env (triage_inboxes env reg n q p)"
proof -
  have "threads_ok env (empty_result\<lparr>tr_skipped := k\<rparr>)" for k by (simp add: threads_ok_def empty_result_def)
  then show ?thesis
    by (auto simp: triage_inboxes_def Let_def split: option.split prod.split
        intro!: fold_keeps [where P = "threads_ok env"] categorize_source_ok)
qed

end
