(* ===== verification/CircuitBreaker.thy ===== *)
theory CircuitBreaker
  imports Prelude
begin

text \<open>
  The circuit breaker of \<^verbatim>\<open>core/utils/circuit_breaker.py\<close>. Clock readings are arguments, in the
  order the code takes them. A call is split where it awaits: admission, then the outcome; calls
  of several tasks interleave between the two, which the step relation allows.
\<close>

subsection \<open>States and errors\<close>

datatype circuit_state = CLOSED | OPEN | HALF_OPEN

record py_exception =
  px_mro :: "string list"
  px_text :: string

record breaker =
  cb_name :: string
  cb_threshold :: int
  cb_timeout :: rat
  cb_excluded :: "string list"
  cb_state :: circuit_state
  cb_failures :: int
  cb_last_failure :: rat

definition new_breaker :: "string \<Rightarrow> int \<Rightarrow> rat \<Rightarrow> string list \<Rightarrow> breaker" where
  "new_breaker name threshold timeout excluded =
     \<lparr>cb_name = name, cb_threshold = threshold, cb_timeout = timeout, cb_excluded = excluded,
      cb_state = CLOSED, cb_failures = 0, cb_last_failure = 0\<rparr>"

definition effective_state :: "rat \<Rightarrow> breaker \<Rightarrow> circuit_state" where
  \<comment> \<open>the property \<open>state\<close>\<close>
  "effective_state now b =
     (if cb_state b = OPEN \<and> now - cb_last_failure b \<ge> cb_timeout b then HALF_OPEN else cb_state b)"

fun client_status :: "char option \<Rightarrow> string \<Rightarrow> bool" where
  \<comment> \<open>\<open>re.search(r"\\b4\\d{2}\\b", text)\<close>\<close>
  "client_status p [] = False"
| "client_status p (c # cs) =
     ((c = CHR ''4'' \<and> boundary p (Some c)
       \<and> (case cs of
            d # e # rest \<Rightarrow> is_digit d \<and> is_digit e \<and> boundary (Some e) (char_at 0 rest)
          | _ \<Rightarrow> False))
      \<or> client_status (Some c) cs)"

definition is_client_error :: "py_exception \<Rightarrow> bool" where
  "is_client_error e = client_status None (px_text e)"

definition is_excluded :: "breaker \<Rightarrow> py_exception \<Rightarrow> bool" where
  \<comment> \<open>\<open>isinstance(exc, self.excluded_exceptions)\<close>\<close>
  "is_excluded b e = list_ex (\<lambda>k. k \<in> set (cb_excluded b)) (px_mro e)"

subsection \<open>Outcomes\<close>

definition on_success :: "rat \<Rightarrow> breaker \<Rightarrow> breaker" where
  "on_success now b =
     (if effective_state now b \<in> {HALF_OPEN, CLOSED} then b\<lparr>cb_failures := 0, cb_state := CLOSED\<rparr> else b)"

definition on_failure :: "rat \<Rightarrow> breaker \<Rightarrow> breaker" where
  "on_failure now b =
     (let b1 = b\<lparr>cb_failures := cb_failures b + 1, cb_last_failure := now\<rparr>
      in if cb_state b1 = HALF_OPEN then b1\<lparr>cb_state := OPEN\<rparr>
         else if cb_failures b1 \<ge> cb_threshold b1 then b1\<lparr>cb_state := OPEN\<rparr>
         else b1)"

definition on_success_sync :: "breaker \<Rightarrow> breaker" where
  "on_success_sync b =
     (if cb_state b \<in> {HALF_OPEN, CLOSED} then b\<lparr>cb_failures := 0, cb_state := CLOSED\<rparr> else b)"

definition on_failure_sync :: "rat \<Rightarrow> breaker \<Rightarrow> breaker" where
  "on_failure_sync now b =
     (let b1 = b\<lparr>cb_failures := cb_failures b + 1, cb_last_failure := now\<rparr>
      in if cb_state b1 = HALF_OPEN then b1\<lparr>cb_state := OPEN\<rparr>
         else if cb_failures b1 \<ge> cb_threshold b1 then b1\<lparr>cb_state := OPEN\<rparr>
         else b1)"

definition record_success :: "rat \<Rightarrow> breaker \<Rightarrow> breaker" where
  "record_success now b = on_success now b"

definition record_failure :: "py_exception \<Rightarrow> rat \<Rightarrow> breaker \<Rightarrow> breaker" where
  "record_failure e now b = (if is_excluded b e \<or> is_client_error e then b else on_failure now b)"

definition reset_breaker :: "breaker \<Rightarrow> breaker" where
  "reset_breaker b = b\<lparr>cb_state := CLOSED, cb_failures := 0\<rparr>"

subsection \<open>Calls\<close>

definition call_begin :: "rat \<Rightarrow> rat \<Rightarrow> breaker \<Rightarrow> (string \<times> rat) option" where
  \<comment> \<open>\<open>CircuitOpenError\<close> with its retry delay, or admission; \<open>now'\<close> is the second clock reading\<close>
  "call_begin now now' b =
     (if effective_state now b = OPEN
      then Some (cb_name b, max 0 (cb_timeout b - (now' - cb_last_failure b))) else None)"

definition call_end :: "py_exception + 'a \<Rightarrow> rat \<Rightarrow> breaker \<Rightarrow> breaker" where
  "call_end outcome now b =
     (case outcome of
        Inl e \<Rightarrow> if is_excluded b e then b else if is_client_error e then b else on_failure now b
      | Inr _ \<Rightarrow> on_success now b)"

definition call_end_sync :: "py_exception + 'a \<Rightarrow> rat \<Rightarrow> breaker \<Rightarrow> breaker" where
  "call_end_sync outcome now b =
     (case outcome of
        Inl e \<Rightarrow> if is_excluded b e then b else on_failure_sync now b
      | Inr _ \<Rightarrow> on_success_sync b)"

datatype 'a call_result = Rejected string rat | Raised py_exception | Returned 'a

definition finished_call :: "py_exception + 'a \<Rightarrow> 'a call_result" where
  "finished_call outcome = (case outcome of Inl e \<Rightarrow> Raised e | Inr a \<Rightarrow> Returned a)"

definition breaker_call :: "rat \<Rightarrow> rat \<Rightarrow> py_exception + 'a \<Rightarrow> rat \<Rightarrow> breaker \<Rightarrow> 'a call_result \<times> breaker" where
  "breaker_call now now' outcome done b =
     (case call_begin now now' b of
        Some (name, retry) \<Rightarrow> (Rejected name retry, b)
      | None \<Rightarrow> (finished_call outcome, call_end outcome done b))"

definition breaker_call_sync :: "rat \<Rightarrow> rat \<Rightarrow> py_exception + 'a \<Rightarrow> rat \<Rightarrow> breaker \<Rightarrow> 'a call_result \<times> breaker" where
  "breaker_call_sync now now' outcome done b =
     (case call_begin now now' b of
        Some (name, retry) \<Rightarrow> (Rejected name retry, b)
      | None \<Rightarrow> (finished_call outcome, call_end_sync outcome done b))"

definition backoff_delay :: "rat \<Rightarrow> nat \<Rightarrow> rat \<Rightarrow> rat \<Rightarrow> rat" where
  \<comment> \<open>\<open>exponential_backoff_with_jitter\<close>; \<open>random.uniform(0, d)\<close> is \<open>d\<close> times a draw \<open>u\<close> of the unit interval\<close>
  "backoff_delay u attempt base_delay max_delay = u * min max_delay (base_delay * 2 ^ attempt)"

subsection \<open>The registry\<close>

definition BREAKER_ROWS :: "(string \<times> int \<times> rat) list" where
  \<comment> \<open>name, failure threshold and recovery timeout of the shared instances\<close>
  "BREAKER_ROWS =
     [(''quenchforge-chat'', 5, 20), (''quenchforge-embed'', 5, 20), (''quenchforge-rerank'', 5, 20),
      (''chromadb'', 5, 30), (''datasource-wikipedia'', 3, 30), (''datasource-duckduckgo'', 3, 30),
      (''datasource-wolfram_alpha'', 3, 30), (''datasource-exchange_rates'', 3, 30),
      (''datasource-openlibrary'', 3, 30), (''datasource-pubchem'', 3, 30), (''datasource-bookmarks'', 3, 30),
      (''datasource-email-imap'', 3, 30), (''bifrost-rerank'', 3, 60), (''bifrost-claims'', 3, 60),
      (''bifrost-verify'', 5, 30), (''bifrost-synopsis'', 3, 60), (''bifrost-memory'', 3, 60),
      (''bifrost-compress'', 3, 60), (''bifrost-decompose'', 3, 60), (''web-search'', 3, 30),
      (''openrouter'', 5, 30), (''tavily'', 3, 30), (''searxng'', 3, 30), (''ragas_eval'', 3, 60),
      (''neo4j'', 5, 30), (''ollama'', 3, 30)]"

definition BREAKER_REGISTRY :: "(string \<times> breaker) list" where
  "BREAKER_REGISTRY =
     map (\<lambda>(name, threshold, timeout).
            (name, new_breaker name threshold timeout
                     (if name = ''bifrost-verify'' then [''NonTransientError''] else []))) BREAKER_ROWS"

definition get_breaker :: "string \<Rightarrow> (string \<times> breaker) list \<Rightarrow> breaker \<times> (string \<times> breaker) list" where
  "get_breaker name registry =
     (case map_of registry name of
        Some b \<Rightarrow> (b, registry)
      | None \<Rightarrow> (let b = new_breaker name 3 60 [] in (b, AList.update name b registry)))"

end
