(* ===== verification/BreakerRules.thy ===== *)
theory BreakerRules
  imports CircuitBreaker
begin

text \<open>
  Runs of one breaker shared by several tasks, as a step relation over its state and the number of
  admitted calls that have not returned, and what every reachable state satisfies.
\<close>

subsection \<open>Steps\<close>

datatype breaker_act =
    Begin rat rat
  | Finish "py_exception + unit" rat
  | RecordOk rat
  | RecordErr py_exception rat
  | CallSync rat rat "py_exception + unit" rat
  | Reset

inductive breaker_step :: "breaker \<times> nat \<Rightarrow> breaker_act \<Rightarrow> breaker \<times> nat \<Rightarrow> bool" where
  rejected: "call_begin t t' b \<noteq> None \<Longrightarrow> breaker_step (b, n) (Begin t t') (b, n)"
| admitted: "call_begin t t' b = None \<Longrightarrow> breaker_step (b, n) (Begin t t') (b, Suc n)"
| finished: "breaker_step (b, Suc n) (Finish r t) (call_end r t b, n)"
| record_ok: "breaker_step (b, n) (RecordOk t) (record_success t b, n)"
| record_err: "breaker_step (b, n) (RecordErr e t) (record_failure e t b, n)"
| call_sync: "breaker_step (b, n) (CallSync t t' r d) (snd (breaker_call_sync t t' r d b), n)"
| reset: "breaker_step (b, n) Reset (reset_breaker b, n)"

inductive_cases begin_stepE: "breaker_step (b, n) (Begin t t') s"
inductive_cases finish_stepE: "breaker_step (b, n) (Finish r t) s"
inductive_simps begin_step: "breaker_step (b, n) (Begin t t') s"

inductive breaker_run :: "breaker \<Rightarrow> breaker \<times> nat \<Rightarrow> bool" for b0 where
  start: "breaker_run b0 (b0, 0)"
| step: "breaker_run b0 s \<Longrightarrow> breaker_step s a s' \<Longrightarrow> breaker_run b0 s'"

subsection \<open>The invariant\<close>

definition breaker_inv :: "breaker \<Rightarrow> bool" where
  "breaker_inv b \<longleftrightarrow>
     1 \<le> cb_threshold b \<and> 0 \<le> cb_failures b \<and> cb_state b \<noteq> HALF_OPEN
     \<and> (cb_state b = OPEN \<longleftrightarrow> cb_failures b \<ge> cb_threshold b)"

lemmas breaker_defs = on_success_def on_failure_def on_success_sync_def on_failure_sync_def record_success_def
  record_failure_def reset_breaker_def call_end_def call_end_sync_def effective_state_def

lemma new_breaker_inv [inv_intros]: "1 \<le> k \<Longrightarrow> breaker_inv (new_breaker nm k w ex)"
  by (simp add: breaker_inv_def new_breaker_def)

lemma success_inv [inv_intros]: "breaker_inv b \<Longrightarrow> breaker_inv (on_success t b)"
  and failure_inv [inv_intros]: "breaker_inv b \<Longrightarrow> breaker_inv (on_failure t b)"
  and success_sync_inv [inv_intros]: "breaker_inv b \<Longrightarrow> breaker_inv (on_success_sync b)"
  and failure_sync_inv [inv_intros]: "breaker_inv b \<Longrightarrow> breaker_inv (on_failure_sync t b)"
  and reset_inv [inv_intros]: "breaker_inv b \<Longrightarrow> breaker_inv (reset_breaker b)"
  by (auto simp: breaker_inv_def breaker_defs Let_def)

lemma call_end_inv [inv_intros]: "breaker_inv b \<Longrightarrow> breaker_inv (call_end r t b)"
  and call_end_sync_inv [inv_intros]: "breaker_inv b \<Longrightarrow> breaker_inv (call_end_sync r t b)"
  by (auto simp: call_end_def call_end_sync_def intro: inv_intros split: sum.split)

lemma call_sync_inv [inv_intros]: "breaker_inv b \<Longrightarrow> breaker_inv (snd (breaker_call_sync t t' r d b))"
  by (auto simp: breaker_call_sync_def intro: inv_intros split: option.split)

lemma breaker_step_inv: "breaker_step s a s' \<Longrightarrow> breaker_inv (fst s) \<Longrightarrow> breaker_inv (fst s')"
  by (induction rule: breaker_step.induct)
    (auto simp: record_success_def record_failure_def intro: inv_intros)

lemma breaker_run_inv: "breaker_run b0 s \<Longrightarrow> breaker_inv b0 \<Longrightarrow> breaker_inv (fst s)"
  by (induction rule: breaker_run.induct) (auto intro: breaker_step_inv)

lemma breaker_config: "breaker_step s a s' \<Longrightarrow>
    cb_name (fst s') = cb_name (fst s) \<and> cb_threshold (fst s') = cb_threshold (fst s)
    \<and> cb_timeout (fst s') = cb_timeout (fst s) \<and> cb_excluded (fst s') = cb_excluded (fst s)"
  by (induction rule: breaker_step.induct)
    (auto simp: breaker_defs Let_def breaker_call_sync_def split: sum.split option.split)

subsection \<open>What every run satisfies\<close>

text \<open>
  C23. Whatever tasks share a breaker and however their calls interleave, it is open exactly when the
  failures counted since the last success or reset reached the threshold, and the half-open state
  is never stored: it exists only as an open breaker whose recovery time has passed.
\<close>
theorem breaker_open_iff_threshold:
  assumes "breaker_run (new_breaker nm k w ex) (b, n)" "1 \<le> k"
  shows "0 \<le> cb_failures b \<and> cb_state b \<noteq> HALF_OPEN \<and> (cb_state b = OPEN \<longleftrightarrow> cb_failures b \<ge> cb_threshold b)"
  using breaker_run_inv [OF assms(1) new_breaker_inv [OF assms(2)]] by (simp add: breaker_inv_def)

lemma call_begin_iff: "call_begin t t' b = None \<longleftrightarrow> cb_state b \<noteq> OPEN \<or> t - cb_last_failure b \<ge> cb_timeout b"
  by (cases "cb_state b") (simp_all add: call_begin_def effective_state_def)

lemma admits_any:
  assumes "breaker_run b0 (b, n)" "cb_state b = OPEN" "t - cb_last_failure b \<ge> cb_timeout b"
  shows "breaker_run b0 (b, n + m)"
proof (induction m)
  case (Suc m)
  have "call_begin t t b = None" using assms(2,3) by (simp add: call_begin_iff)
  then have "breaker_step (b, n + m) (Begin t t) (b, Suc (n + m))" by (rule admitted)
  with Suc show ?case by (metis add_Suc_right breaker_run.step)
qed (simp add: assms(1))


text \<open>
  The half-open state admits more than one probe: once the recovery time of a breaker has
  passed, any number of calls is admitted before the first of them returns.
\<close>
theorem probes_not_single:
  assumes "breaker_run b0 (b, n)" "cb_state b = OPEN" "t - cb_last_failure b \<ge> cb_timeout b"
  shows "effective_state t b = HALF_OPEN \<and> breaker_run b0 (b, n + m)"
  using admits_any [OF assms] assms(2,3) by (simp add: effective_state_def)

text \<open>
  A breaker that is used through its synchronous calls does not close again: whatever such
  calls return, an open breaker stays open and keeps its failure count, so the next counted
  failure rejects calls at once however many successes came before it.
\<close>
theorem sync_calls_never_close:
  assumes "cb_state b = OPEN"
  shows "cb_state (fold (\<lambda>(t, t', r, d) b. snd (breaker_call_sync t t' r d b)) calls b) = OPEN
    \<and> cb_failures (fold (\<lambda>(t, t', r, d) b. snd (breaker_call_sync t t' r d b)) calls b) \<ge> cb_failures b"
  using assms
proof (induction calls arbitrary: b)
  case (Cons c calls)
  obtain t t' r d where c: "c = (t, t', r, d)" by (cases c) auto
  let ?b = "snd (breaker_call_sync t t' r d b)"
  have "cb_state ?b = OPEN" "cb_failures b \<le> cb_failures ?b"
    using Cons.prems by (auto simp: breaker_call_sync_def breaker_defs Let_def split: option.split sum.split)
  then show ?case using Cons.IH [of ?b] by (auto simp: c)
qed simp

text \<open>
  The delay before a retry lies between zero and the maximum, for every draw of the unit
  interval and every attempt number.
\<close>
lemma backoff_bounded:
  assumes "0 \<le> u" "u \<le> 1" "0 \<le> base" "0 \<le> most"
  shows "0 \<le> backoff_delay u attempt base most \<and> backoff_delay u attempt base most \<le> most"
proof -
  have "0 \<le> min most (base * 2 ^ attempt)" using assms by simp
  then show ?thesis
    using assms mult_mono [of u 1 "min most (base * 2 ^ attempt)" most] by (simp add: backoff_delay_def)
qed

text \<open>
  Every shared breaker satisfies the invariant from the start, and asking the registry for a
  name returns the same breaker from then on, created at most once, without touching another.
\<close>
lemma registry_stable:
  "list_all (\<lambda>(name, b). breaker_inv b \<and> cb_name b = name) BREAKER_REGISTRY
   \<and> (let (b, r) = get_breaker name reg
      in get_breaker name r = (b, r) \<and> map_of r = (map_of reg)(name \<mapsto> b))"
proof -
  have "list_all (\<lambda>(name, b). breaker_inv b \<and> cb_name b = name) BREAKER_REGISTRY"
    by (simp add: BREAKER_REGISTRY_def BREAKER_ROWS_def breaker_inv_def new_breaker_def)
  then show ?thesis
    by (auto simp: get_breaker_def Let_def update_conv fun_upd_idem split: option.split)
qed

subsection \<open>Witnesses\<close>

definition down :: py_exception where
  "down = \<lparr>px_mro = [''TimeoutError'', ''Exception''], px_text = ''timed out''\<rparr>"

definition opened :: breaker where
  \<comment> \<open>a breaker of threshold one after its first failure, at time 10\<close>
  "opened = record_failure down 10 (new_breaker ''x'' 1 30 [])"


lemma opened_state: "cb_state opened = OPEN" "cb_last_failure opened = 10" "cb_timeout opened = 30" "cb_excluded opened = []"
    "cb_failures opened = 1"
  by code_simp+

lemma opened_run: "breaker_run (new_breaker ''x'' 1 30 []) (opened, 0)"
  unfolding opened_def by (rule breaker_run.step [OF breaker_run.start record_err])

theorem breaker_open_iff_threshold_witness:
  "cb_state opened = OPEN \<and> cb_failures opened \<ge> cb_threshold opened \<and> cb_failures opened = 1"
  using breaker_open_iff_threshold [OF opened_run] by (simp add: opened_state)


theorem probes_not_single_witness:
  "effective_state 40 opened = HALF_OPEN \<and> breaker_run (new_breaker ''x'' 1 30 []) (opened, 5)"
  using probes_not_single [OF opened_run opened_state(1), of 40 5] by (simp add: opened_state)

theorem sync_calls_never_close_witness:
  "cb_state (fold (\<lambda>(t, t', r, d) b. snd (breaker_call_sync t t' r d b)) [(50, 50, Inr (), 51), (52, 52, Inr (), 53)] opened) = OPEN"
  using sync_calls_never_close [OF opened_state(1)] by blast

lemma backoff_bounded_at: "0 \<le> backoff_delay (1 / 2) 4 1 60 \<and> backoff_delay (1 / 2) 4 1 60 \<le> 60"
  by (rule backoff_bounded) simp_all

end
