(* ===== verification/PyTime.thy ===== *)
theory PyTime
  imports Json
begin

text \<open>
  Python's \<open>datetime\<close> as the sources use it: calendar fields with microseconds and an optional UTC
  offset, \<open>isoformat\<close>, \<open>fromisoformat\<close> for the extended calendar formats, and \<open>timestamp\<close>.
\<close>

record pydatetime =
  dt_year :: nat
  dt_month :: nat
  dt_day :: nat
  dt_hour :: nat
  dt_minute :: nat
  dt_second :: nat
  dt_micro :: nat
  dt_offset :: "int option"  \<comment> \<open>minutes east of UTC, \<open>None\<close> for a naive value\<close>

definition leap :: "nat \<Rightarrow> bool" where
  "leap y = (y mod 4 = 0 \<and> (y mod 100 \<noteq> 0 \<or> y mod 400 = 0))"

definition days_in_month :: "nat \<Rightarrow> nat \<Rightarrow> nat" where
  "days_in_month y m =
     (if m = 2 then (if leap y then 29 else 28) else if m \<in> {4, 6, 9, 11} then 30 else 31)"

definition dt_valid :: "pydatetime \<Rightarrow> bool" where
  "dt_valid d =
     (1 \<le> dt_year d \<and> dt_year d \<le> 9999 \<and> 1 \<le> dt_month d \<and> dt_month d \<le> 12
      \<and> 1 \<le> dt_day d \<and> dt_day d \<le> days_in_month (dt_year d) (dt_month d)
      \<and> dt_hour d < 24 \<and> dt_minute d < 60 \<and> dt_second d < 60 \<and> dt_micro d < 1000000
      \<and> (case dt_offset d of None \<Rightarrow> True | Some z \<Rightarrow> \<bar>z\<bar> < 1440))"

subsection \<open>Printing\<close>

definition padded :: "nat \<Rightarrow> nat \<Rightarrow> string" where
  "padded w n = replicate (w - length (show_nat n)) (CHR ''0'') @ show_nat n"

definition offset_text :: "int option \<Rightarrow> string" where
  "offset_text z =
     (case z of
        None \<Rightarrow> []
      | Some m \<Rightarrow>
          (if m < 0 then CHR ''-'' else CHR ''+'') # padded 2 (nat \<bar>m\<bar> div 60) @ CHR '':'' # padded 2 (nat \<bar>m\<bar> mod 60))"

definition micro_text :: "nat \<Rightarrow> string" where
  "micro_text n = (if n = 0 then [] else CHR ''.'' # padded 6 n)"

definition isoformat :: "pydatetime \<Rightarrow> string" where
  "isoformat d =
     padded 4 (dt_year d) @ CHR ''-'' # padded 2 (dt_month d) @ CHR ''-'' # padded 2 (dt_day d) @ CHR ''T''
     # padded 2 (dt_hour d) @ CHR '':'' # padded 2 (dt_minute d) @ CHR '':'' # padded 2 (dt_second d)
     @ micro_text (dt_micro d) @ offset_text (dt_offset d)"

subsection \<open>Reading\<close>

definition read_digits :: "nat \<Rightarrow> string \<Rightarrow> (nat \<times> string) option" where
  "read_digits w s =
     (if length (take w s) = w \<and> list_all is_digit (take w s) then Some (digits_val (take w s), drop w s) else None)"

definition read_char :: "char \<Rightarrow> string \<Rightarrow> string option" where
  "read_char c s = (case s of [] \<Rightarrow> None | d # r \<Rightarrow> if d = c then Some r else None)"

definition read_field :: "char \<Rightarrow> string \<Rightarrow> (nat \<times> string) option" where
  \<comment> \<open>a separator and two digits\<close>
  "read_field c s = (case read_char c s of None \<Rightarrow> None | Some r \<Rightarrow> read_digits 2 r)"

definition read_micro :: "string \<Rightarrow> (nat \<times> string) option" where
  \<comment> \<open>an optional fraction; digits after the sixth are dropped\<close>
  "read_micro s =
     (if s \<noteq> [] \<and> (hd s = CHR ''.'' \<or> hd s = CHR '','') then
        (let ds = takeWhile is_digit (tl s)
         in if ds = [] then None
            else Some (digits_val (take 6 (ds @ replicate 6 (CHR ''0''))), drop (length ds) (tl s)))
      else Some (0, s))"

definition read_offset :: "string \<Rightarrow> int option option" where
  "read_offset s =
     (if s = [] then Some None
      else if s = ''Z'' then Some (Some 0)
      else if hd s = CHR ''+'' \<or> hd s = CHR ''-'' then
        (case read_digits 2 (tl s) of
           None \<Rightarrow> None
         | Some (h, r) \<Rightarrow>
             (let sg = (if hd s = CHR ''-'' then - 1 else 1)
              in if r = [] then Some (Some (sg * int (60 * h)))
                 else case (case read_field (CHR '':'') r of None \<Rightarrow> read_digits 2 r | x \<Rightarrow> x) of
                        Some (m, []) \<Rightarrow> if m < 60 then Some (Some (sg * int (60 * h + m))) else None
                      | _ \<Rightarrow> None))
      else None)"

definition checked_time :: "pydatetime \<Rightarrow> pydatetime option" where
  "checked_time d = (if dt_valid d then Some d else None)"

definition read_clock :: "nat \<Rightarrow> nat \<Rightarrow> nat \<Rightarrow> string \<Rightarrow> pydatetime option" where
  "read_clock y m d s =
     (case read_digits 2 s of
        None \<Rightarrow> None
      | Some (h, r1) \<Rightarrow>
          (let (mi, r2) = (case read_field (CHR '':'') r1 of None \<Rightarrow> (0, r1) | Some x \<Rightarrow> x);
               (se, r3) = (if r2 = r1 then (0, r2)
                           else case read_field (CHR '':'') r2 of None \<Rightarrow> (0, r2) | Some x \<Rightarrow> x)
           in case (if r3 = r2 then Some (0, r3) else read_micro r3) of
                None \<Rightarrow> None
              | Some (us, r4) \<Rightarrow>
                  (case read_offset r4 of
                     None \<Rightarrow> None
                   | Some z \<Rightarrow>
                       checked_time \<lparr>dt_year = y, dt_month = m, dt_day = d, dt_hour = h, dt_minute = mi,
                         dt_second = se, dt_micro = us, dt_offset = z\<rparr>)))"

definition fromisoformat :: "string \<Rightarrow> pydatetime option" where
  "fromisoformat s =
     (case read_digits 4 s of
        None \<Rightarrow> None
      | Some (y, r1) \<Rightarrow>
          (case read_field (CHR ''-'') r1 of
             None \<Rightarrow> None
           | Some (m, r2) \<Rightarrow>
               (case read_field (CHR ''-'') r2 of
                  None \<Rightarrow> None
                | Some (d, r3) \<Rightarrow>
                    if r3 = [] then
                      checked_time \<lparr>dt_year = y, dt_month = m, dt_day = d, dt_hour = 0, dt_minute = 0,
                        dt_second = 0, dt_micro = 0, dt_offset = None\<rparr>
                    else read_clock y m d (tl r3))))"

subsection \<open>Points in time\<close>

definition ordinal :: "pydatetime \<Rightarrow> int" where
  \<comment> \<open>\<open>toordinal\<close>: days since the first of January of year one, which is day one\<close>
  "ordinal d =
     (let y = int (dt_year d) - 1
      in y * 365 + y div 4 - y div 100 + y div 400
         + int (sum_list (map (days_in_month (dt_year d)) [1..<dt_month d])) + int (dt_day d))"

definition as_utc :: "pydatetime \<Rightarrow> pydatetime" where
  \<comment> \<open>\<open>replace(tzinfo=timezone.utc)\<close>\<close>
  "as_utc d = d\<lparr>dt_offset := Some 0\<rparr>"

definition timestamp :: "pydatetime \<Rightarrow> rat" where
  \<comment> \<open>of an aware value\<close>
  "timestamp d =
     of_int ((ordinal d - 719163) * 86400 + int (dt_hour d) * 3600 + int (dt_minute d) * 60 + int (dt_second d)
       - (case dt_offset d of None \<Rightarrow> 0 | Some z \<Rightarrow> z * 60))
     + of_nat (dt_micro d) / 1000000"

subsection \<open>Reading what was printed\<close>

lemma length_show_nat: "n < 10 ^ w \<Longrightarrow> 1 \<le> w \<Longrightarrow> length (show_nat n) \<le> w"
proof (induction n arbitrary: w rule: show_nat.induct)
  case (1 n)
  show ?case
  proof (cases "n < 10")
    case False
    obtain v where w: "w = Suc v" using "1.prems"(2) by (cases w) auto
    have "1 \<le> v" using False "1.prems"(1) w by (cases v) auto
    note v = w this
    then have "n div 10 < 10 ^ v" using "1.prems" by auto
    then show ?thesis using "1.IH" [OF False, of v] v False by (simp add: show_nat_big)
  qed (use "1.prems" in \<open>simp add: show_nat_small\<close>)
qed

lemma length_padded [simp]: "n < 10 ^ w \<Longrightarrow> 1 \<le> w \<Longrightarrow> length (padded w n) = w"
  using length_show_nat [of n w] by (simp add: padded_def)

lemma padded_digits: "list_all is_digit (padded w n)"
  using show_nat_digits [of n] by (auto simp: padded_def list_all_iff is_digit_def)

lemma foldl_zeros: "foldl (\<lambda>n c. 10 * n + digit_val c) 0 (replicate k (CHR ''0'')) = 0"
  by (induction k) (simp_all add: digit_val_def)

lemma digits_val_padded [simp]: "digits_val (padded w n) = n"
  using digits_val_show [of n] by (simp add: digits_val_def padded_def foldl_zeros)

lemma read_digits_padded [simp]: "n < 10 ^ w \<Longrightarrow> 1 \<le> w \<Longrightarrow> read_digits w (padded w n @ r) = Some (n, r)"
  using padded_digits [of w n] by (simp add: read_digits_def)

lemma read_digits_padded2 [simp]: "n < 100 \<Longrightarrow> read_digits 2 (padded 2 n @ r) = Some (n, r)"
  and read_digits_padded2' [simp]: "n < 100 \<Longrightarrow> read_digits 2 (padded 2 n) = Some (n, [])"
  using read_digits_padded [of n 2 r] read_digits_padded [of n 2 "[]"] by simp_all

lemma read_field_padded [simp]: "n < 100 \<Longrightarrow> read_field c (c # padded 2 n @ r) = Some (n, r)"
  and read_field_padded' [simp]: "n < 100 \<Longrightarrow> read_field c (c # padded 2 n) = Some (n, [])"
  by (simp_all add: read_field_def read_char_def)

lemma read_offset_text:
  assumes "case z of None \<Rightarrow> True | Some m \<Rightarrow> \<bar>m\<bar> < 1440"
  shows "read_offset (offset_text z) = Some z"
proof (cases z)
  case (Some m)
  then have m: "nat \<bar>m\<bar> div 60 < 100" "nat \<bar>m\<bar> mod 60 < 100" "60 * (nat \<bar>m\<bar> div 60) + nat \<bar>m\<bar> mod 60 = nat \<bar>m\<bar>"
    using assms by auto
  then have "int (60 * (nat \<bar>m\<bar> div 60) + nat \<bar>m\<bar> mod 60) = \<bar>m\<bar>" by simp
  with m Some show ?thesis by (simp add: read_offset_def offset_text_def Let_def)
qed (simp add: read_offset_def offset_text_def)

lemma offset_text_hd: "offset_text z = [] \<or> hd (offset_text z) \<in> {CHR ''+'', CHR ''-''}"
  by (auto simp: offset_text_def split: option.split)

lemma read_micro_text:
  assumes "n < 1000000"
  shows "read_micro (micro_text n @ offset_text z) = Some (n, offset_text z)"
proof (cases "n = 0")
  case False
  have l: "length (padded 6 n) = 6" using assms by simp
  have d: "takeWhile is_digit (padded 6 n @ offset_text z) = padded 6 n"
    using padded_digits [of 6 n] offset_text_hd [of z]
    by (cases "offset_text z") (auto simp: list_all_iff takeWhile_append2 is_digit_def)
  have "padded 6 n \<noteq> []" using l by auto
  with False l d show ?thesis by (simp add: read_micro_def micro_text_def Let_def)
qed (use offset_text_hd [of z] in \<open>auto simp: read_micro_def micro_text_def\<close>)

lemma isoformat_roundtrip:
  assumes "dt_valid d"
  shows "fromisoformat (isoformat d) = Some d"
proof -
  note v = assms [unfolded dt_valid_def]
  have "days_in_month (dt_year d) (dt_month d) \<le> 31" by (simp add: days_in_month_def)
  with v have b: "dt_year d < 10 ^ 4" "dt_month d < 100" "dt_day d < 100" "dt_hour d < 100" "dt_minute d < 100"
      "dt_second d < 100" "dt_micro d < 1000000" by auto
  have e: "\<lparr>dt_year = dt_year d, dt_month = dt_month d, dt_day = dt_day d, dt_hour = dt_hour d,
      dt_minute = dt_minute d, dt_second = dt_second d, dt_micro = dt_micro d, dt_offset = dt_offset d\<rparr> = d"
    by simp
  have c: "read_clock (dt_year d) (dt_month d) (dt_day d)
      (padded 2 (dt_hour d) @ CHR '':'' # padded 2 (dt_minute d) @ CHR '':'' # padded 2 (dt_second d)
       @ micro_text (dt_micro d) @ offset_text (dt_offset d)) = Some d"
    using b assms v by (simp add: read_clock_def read_micro_text read_offset_text checked_time_def Let_def e)
  show ?thesis
    using b by (simp add: fromisoformat_def isoformat_def c)
qed

lemma isoformat_ne [simp]: "isoformat d \<noteq> []"
  by (simp add: isoformat_def)

end
