(* ===== verification/ProcessorJobs.thy ===== *)
theory ProcessorJobs
  imports PyTime PyDecimal
begin

text \<open>
  The processor's core (\<^verbatim>\<open>core/processor\<close>): priorities, the job state machine, job records and their
  Redis form (\<^verbatim>\<open>app/db/redis/processor_queue.py\<close>), cost estimates, and the processor mode.
\<close>

subsection \<open>Priorities\<close>

datatype priority = LOW | MEDIUM | HIGH

fun priority_value :: "priority \<Rightarrow> string" where
  "priority_value LOW = ''low''"
| "priority_value MEDIUM = ''medium''"
| "priority_value HIGH = ''high''"

definition priority_order :: "priority list" where
  "priority_order = [HIGH, MEDIUM, LOW]"

fun PRIORITY_WEIGHT :: "priority \<Rightarrow> nat" where
  "PRIORITY_WEIGHT HIGH = 100"
| "PRIORITY_WEIGHT MEDIUM = 50"
| "PRIORITY_WEIGHT LOW = 10"

definition priority_of :: "string \<Rightarrow> priority option" where
  \<comment> \<open>\<open>Priority(text)\<close>\<close>
  "priority_of s = find (\<lambda>p. priority_value p = s) [LOW, MEDIUM, HIGH]"

instantiation priority :: linorder
begin

definition less_eq_priority :: "priority \<Rightarrow> priority \<Rightarrow> bool" where
  "less_eq_priority p q = (PRIORITY_WEIGHT p \<le> PRIORITY_WEIGHT q)"

definition less_priority :: "priority \<Rightarrow> priority \<Rightarrow> bool" where
  "less_priority p q = (PRIORITY_WEIGHT p < PRIORITY_WEIGHT q)"

instance
proof
  fix p q :: priority
  assume "p \<le> q" "q \<le> p"
  then show "p = q" by (cases p; cases q) (simp_all add: less_eq_priority_def)
qed (auto simp: less_eq_priority_def less_priority_def)

end

lemma priority_of_value [simp]: "priority_of (priority_value p) = Some p"
  by (cases p) (simp_all add: priority_of_def)

lemma priority_value_inj [simp]: "priority_value p = priority_value q \<longleftrightarrow> p = q"
  by (cases p; cases q) simp_all

lemma priority_value_ne [simp]: "priority_value p \<noteq> []"
  by (cases p) simp_all

lemma priority_order_desc: "sorted_wrt (>) priority_order" "set priority_order = UNIV"
  using priority.exhaust by (auto simp: priority_order_def less_priority_def)

subsection \<open>Job states\<close>

datatype job_state = PENDING | RUNNING | COMPLETED | FAILED | PAUSED | HELD

fun state_value :: "job_state \<Rightarrow> string" where
  "state_value PENDING = ''pending''"
| "state_value RUNNING = ''running''"
| "state_value COMPLETED = ''completed''"
| "state_value FAILED = ''failed''"
| "state_value PAUSED = ''paused''"
| "state_value HELD = ''held''"

definition state_of :: "string \<Rightarrow> job_state option" where
  "state_of s = find (\<lambda>p. state_value p = s) [PENDING, RUNNING, COMPLETED, FAILED, PAUSED, HELD]"

definition VALID_TRANSITIONS :: "(job_state \<times> job_state) list" where
  "VALID_TRANSITIONS =
     [(PENDING, RUNNING), (RUNNING, COMPLETED), (RUNNING, FAILED), (RUNNING, HELD), (PENDING, PAUSED), (PAUSED, PENDING)]"

definition validate_transition :: "job_state \<Rightarrow> job_state \<Rightarrow> string + unit" where
  "validate_transition a b =
     (if (a, b) \<in> set VALID_TRANSITIONS then Inr () else Inl ''Invalid job state transition'')"

lemma state_of_value [simp]: "state_of (state_value p) = Some p"
  by (cases p) (simp_all add: state_of_def)

lemma state_value_ne [simp]: "state_value p \<noteq> []"
  by (cases p) simp_all

subsection \<open>Records\<close>

record job_result =
  js_job_id :: string
  js_tokens_in :: int
  js_tokens_out :: int
  js_metadata :: pyval

record job_record =
  jr_id :: string
  jr_type :: string
  jr_state :: job_state
  jr_priority :: priority
  jr_payload :: pyval
  jr_enqueued :: pydatetime
  jr_retries :: "int option"      \<comment> \<open>\<open>None\<close> only when a stored text is empty\<close>
  jr_started :: "pydatetime option"
  jr_completed :: "pydatetime option"
  jr_est_in :: "int option"
  jr_est_out :: "int option"
  jr_act_in :: "int option"
  jr_act_out :: "int option"
  jr_llm :: bool
  jr_model :: "string option"
  jr_error :: "string option"
  jr_metadata :: pyval
  jr_progress :: rat

definition opt_str :: "string option \<Rightarrow> pyval" where
  "opt_str x = (case x of None \<Rightarrow> PNone | Some s \<Rightarrow> PStr s)"

definition opt_int :: "int option \<Rightarrow> pyval" where
  "opt_int x = (case x of None \<Rightarrow> PNone | Some i \<Rightarrow> PInt i)"

definition record_to_dict :: "job_record \<Rightarrow> pdict" where
  "record_to_dict r =
     [(''id'', PStr (jr_id r)), (''job_type'', PStr (jr_type r)), (''state'', PStr (state_value (jr_state r))),
      (''priority'', PStr (priority_value (jr_priority r))), (''payload'', jr_payload r),
      (''enqueued_at'', PStr (isoformat (jr_enqueued r))), (''retry_count'', opt_int (jr_retries r)),
      (''started_at'', opt_str (map_option isoformat (jr_started r))),
      (''completed_at'', opt_str (map_option isoformat (jr_completed r))),
      (''estimated_tokens_in'', opt_int (jr_est_in r)), (''estimated_tokens_out'', opt_int (jr_est_out r)),
      (''actual_tokens_in'', opt_int (jr_act_in r)), (''actual_tokens_out'', opt_int (jr_act_out r)),
      (''requires_llm'', PBool (jr_llm r)), (''model'', opt_str (jr_model r)),
      (''error_message'', opt_str (jr_error r)), (''metadata'', jr_metadata r), (''progress'', PFloat (jr_progress r))]"

definition hash_text :: "pyval \<Rightarrow> string" where
  "hash_text v =
     (case v of PNone \<Rightarrow> [] | PDict d \<Rightarrow> json_dumps v | PList xs \<Rightarrow> json_dumps v | _ \<Rightarrow> py_str v)"

definition record_to_mapping :: "job_record \<Rightarrow> (string \<times> string) list" where
  "record_to_mapping r = map (\<lambda>(k, v). (k, hash_text v)) (record_to_dict r)"

definition py_int_text :: "string \<Rightarrow> int option" where
  \<comment> \<open>\<open>int(text)\<close>, \<open>None\<close> for its \<open>ValueError\<close>\<close>
  "py_int_text s =
     (let t = strip s; neg = (t \<noteq> [] \<and> hd t = CHR ''-'');
          u = (if neg \<or> t \<noteq> [] \<and> hd t = CHR ''+'' then tl t else t); ps = split_on (CHR ''_'') u
      in if list_all (\<lambda>p. p \<noteq> [] \<and> list_all is_digit p) ps
         then Some (if neg then - int (digits_val (concat ps)) else int (digits_val (concat ps))) else None)"

definition text_of_field :: "string \<Rightarrow> pyval" where
  "text_of_field v = (if v = [] then PNone else PStr v)"

definition with_payload :: "pdict \<Rightarrow> pdict option" where
  "with_payload d =
     (if truthy (dget d ''payload'')
      then map_option (\<lambda>v. dset d ''payload'' v) (json_loads (str_of (dget d ''payload'')))
      else Some (dset d ''payload'' (PDict [])))"

definition with_metadata :: "pdict \<Rightarrow> pdict" where
  "with_metadata d =
     dset d ''metadata''
       (if truthy (dget d ''metadata'')
        then (case json_loads (str_of (dget d ''metadata'')) of Some v \<Rightarrow> v | None \<Rightarrow> PDict [])
        else PDict [])"

definition with_llm :: "pdict \<Rightarrow> pdict" where
  "with_llm d =
     (case dget d ''requires_llm'' of
        PNone \<Rightarrow> d
      | v \<Rightarrow> dset d ''requires_llm'' (PBool (lower (str_of v) \<in> {''true'', ''1''})))"

definition INT_FIELDS :: "string list" where
  "INT_FIELDS =
     [''retry_count'', ''estimated_tokens_in'', ''estimated_tokens_out'', ''actual_tokens_in'', ''actual_tokens_out'']"

definition with_int :: "string \<Rightarrow> pdict \<Rightarrow> pdict" where
  "with_int k d =
     (case dget d k of
        PNone \<Rightarrow> d
      | v \<Rightarrow> dset d k (case py_int_text (str_of v) of
                         Some i \<Rightarrow> PInt i
                       | None \<Rightarrow> if starts_with ''actual'' k then PNone else PInt 0))"

definition str_opt :: "pyval \<Rightarrow> string option" where
  "str_opt v = (case v of PStr s \<Rightarrow> Some s | _ \<Rightarrow> None)"

definition int_opt :: "pyval \<Rightarrow> int option" where
  "int_opt v = (case v of PInt i \<Rightarrow> Some i | _ \<Rightarrow> None)"

definition time_opt :: "pyval \<Rightarrow> pydatetime option option" where
  \<comment> \<open>\<open>fromisoformat\<close> of a text that is present, \<open>None\<close> for its \<open>ValueError\<close>\<close>
  "time_opt v = (if truthy v then map_option Some (fromisoformat (str_of v)) else Some None)"

definition record_from_dict :: "pdict \<Rightarrow> job_record option" where
  \<comment> \<open>\<open>None\<close> where the source raises; an absent or empty \<open>requires_llm\<close> counts as false\<close>
  "record_from_dict d =
     (if list_all (has_key d) [''id'', ''job_type'', ''state'', ''priority'', ''payload'', ''enqueued_at''] then
        (case (state_of (str_of (dget d ''state'')), priority_of (str_of (dget d ''priority'')),
               fromisoformat (str_of (dget d ''enqueued_at'')), time_opt (dget d ''started_at''),
               time_opt (dget d ''completed_at''),
               if truthy (dget d ''progress'') then py_float_text (str_of (dget d ''progress'')) else Some 0) of
           (Some st, Some pr, Some enq, Some sta, Some com, Some pg) \<Rightarrow>
             Some \<lparr>jr_id = str_of (dget d ''id''), jr_type = str_of (dget d ''job_type''), jr_state = st, jr_priority = pr,
               jr_payload = dget d ''payload'', jr_enqueued = enq,
               jr_retries = int_opt (dget_or d ''retry_count'' (PInt 0)), jr_started = sta, jr_completed = com,
               jr_est_in = int_opt (dget_or d ''estimated_tokens_in'' (PInt 0)),
               jr_est_out = int_opt (dget_or d ''estimated_tokens_out'' (PInt 0)),
               jr_act_in = int_opt (dget d ''actual_tokens_in''), jr_act_out = int_opt (dget d ''actual_tokens_out''),
               jr_llm = truthy (dget_or d ''requires_llm'' (PBool False)), jr_model = str_opt (dget d ''model''),
               jr_error = str_opt (dget d ''error_message''), jr_metadata = py_or (dget d ''metadata'') (PDict []),
               jr_progress = pg\<rparr>
         | _ \<Rightarrow> None)
      else None)"

definition mapping_to_record :: "(string \<times> string) list \<Rightarrow> job_record option" where
  "mapping_to_record fs =
     (case with_payload (map (\<lambda>(k, v). (k, text_of_field v)) fs) of
        None \<Rightarrow> None
      | Some d \<Rightarrow> record_from_dict (fold with_int INT_FIELDS (with_llm (with_metadata d))))"

subsection \<open>Cost\<close>

record cost_estimate =
  ce_in :: int
  ce_out :: int
  ce_model :: string
  ce_usd :: pydecimal
  ce_confidence :: string

type_synonym pricing = "(string \<times> (pydecimal \<times> pydecimal)) list"

definition strip_openrouter_prefix :: "string \<Rightarrow> string" where
  "strip_openrouter_prefix m = (if starts_with ''openrouter/'' m then drop 11 m else m)"

definition DEFAULT_PRICING :: pricing where
  "DEFAULT_PRICING =
     [(''anthropic/claude-opus-5.5'', Dec 4 (-3), Dec 20 (-3)),
      (''anthropic/claude-sonnet-5.5'', Dec 2 (-3), Dec 10 (-3)),
      (''anthropic/claude-haiku-5.5'', Dec 1 (-4), Dec 5 (-4)),
      (''openai/gpt-6-luna'', Dec 1 (-4), Dec 5 (-4)),
      (''openai/gpt-6.1-sol'', Dec 2 (-3), Dec 10 (-3)),
      (''anthropic/claude-opus-4-7'', Dec 15 (-3), Dec 75 (-3)),
      (''anthropic/claude-sonnet-4-6'', Dec 3 (-3), Dec 15 (-3)),
      (''anthropic/claude-sonnet-4.6'', Dec 3 (-3), Dec 15 (-3)),
      (''anthropic/claude-haiku-4-5'', Dec 25 (-5), Dec 125 (-5)),
      (''openai/gpt-5'', Dec 10 (-3), Dec 30 (-3)),
      (''ollama/local'', Dec 0 (-3), Dec 0 (-3))]"

definition get_row :: "(string \<Rightarrow> bool) \<Rightarrow> pricing \<Rightarrow> string \<Rightarrow> (pydecimal \<times> pydecimal) option" where
  \<comment> \<open>\<open>None\<close> for the \<open>ValueError\<close> of an unknown model; the first argument is \<open>_is_local_model_name\<close>\<close>
  "get_row is_local rows m =
     (case map_of rows m of
        Some row \<Rightarrow> Some row
      | None \<Rightarrow>
          (let normalized = strip_openrouter_prefix m
           in if ends_with '':free'' normalized then Some (Dec 0 0, Dec 0 0)
              else case map_of rows normalized of
                     Some row \<Rightarrow> Some row
                   | None \<Rightarrow>
                       (case map_of rows ''ollama/local'' of
                          Some row \<Rightarrow> if is_local m then Some row else None
                        | None \<Rightarrow> None)))"

definition estimate_cost :: "(string \<Rightarrow> bool) \<Rightarrow> pricing \<Rightarrow> string \<Rightarrow> int \<Rightarrow> int \<Rightarrow> string \<Rightarrow> cost_estimate option" where
  "estimate_cost is_local rows m tin tout confidence =
     (case get_row is_local rows m of
        None \<Rightarrow> None
      | Some (pin, pout) \<Rightarrow>
          Some \<lparr>ce_in = tin, ce_out = tout, ce_model = m,
            ce_usd = dec_add (dec_per_thousand (dec_mul (dec_of_int tin) pin))
                             (dec_per_thousand (dec_mul (dec_of_int tout) pout)),
            ce_confidence = confidence\<rparr>)"

definition new_record :: "string \<Rightarrow> pydatetime \<Rightarrow> string \<Rightarrow> priority \<Rightarrow> cost_estimate \<Rightarrow> pyval \<Rightarrow> job_record" where
  \<comment> \<open>of a job with this type, priority and estimate; the id and the clock reading come first\<close>
  "new_record jid now ty pr est payload =
     \<lparr>jr_id = jid, jr_type = ty, jr_state = PENDING, jr_priority = pr, jr_payload = py_or payload (PDict []),
      jr_enqueued = now, jr_retries = Some 0, jr_started = None, jr_completed = None, jr_est_in = Some (ce_in est),
      jr_est_out = Some (ce_out est), jr_act_in = None, jr_act_out = None, jr_llm = (ce_in est > 0),
      jr_model = (if ce_in est > 0 then Some (ce_model est) else None), jr_error = None, jr_metadata = PDict [],
      jr_progress = 0\<rparr>"

subsection \<open>Modes\<close>

definition VALID_MODES :: "string list" where
  "VALID_MODES = [''local'', ''hybrid'', ''disabled'']"

definition resolve_processor_mode :: "string option \<Rightarrow> string" where
  "resolve_processor_mode raw =
     (case raw of
        None \<Rightarrow> ''local''
      | Some t \<Rightarrow> (let m = lower (strip t) in if m \<in> set VALID_MODES then m else ''local''))"

definition processor_is_disabled :: "string \<Rightarrow> bool" where
  "processor_is_disabled mode = (mode = ''disabled'')"

record model_decision =
  md_model :: "string option"
  md_hold :: bool
  md_reason :: string

definition select_job_model ::
    "string \<Rightarrow> int \<Rightarrow> int \<Rightarrow> pydecimal \<Rightarrow> pydecimal \<Rightarrow> string \<Rightarrow> string \<Rightarrow> string \<Rightarrow> model_decision" where
  "select_job_model mode tokens threshold spend cap cap_fallback default_local api_model =
     (if mode \<in> {''local'', ''disabled''} then
        \<lparr>md_model = Some default_local, md_hold = False, md_reason = ''mode_'' @ mode\<rparr>
      else if tokens \<le> threshold then
        \<lparr>md_model = Some default_local, md_hold = False, md_reason = ''hybrid_under_threshold''\<rparr>
      else if dec_less spend cap then
        \<lparr>md_model = Some api_model, md_hold = False, md_reason = ''hybrid_api_routed''\<rparr>
      else if cap_fallback = ''hold'' then
        \<lparr>md_model = None, md_hold = True, md_reason = ''hybrid_cap_hold''\<rparr>
      else
        \<lparr>md_model = Some default_local, md_hold = False, md_reason = ''hybrid_cap_fallback_local''\<rparr>)"

end
