(* ===== verification/RedisClient.thy ===== *)
theory RedisClient
  imports Effects "HOL-Library.Product_Lexorder"
begin

text \<open>
  The Redis server as a parameter: a client is a function from commands to effects on a state of
  its own. \<open>serves\<close> states the documented behaviour of the commands that the sources send, over a view
  of that state; replies whose order Redis leaves open are constrained up to order. The rules for
  \<open>returns\<close> compute what code over such a client leaves behind, and \<open>run_store\<close> is an in-memory server
  that shows the behaviour can be had.
\<close>

subsection \<open>Commands and replies\<close>

datatype rcmd =
    LPush string string
  | RPop string
  | LRem string string              \<comment> \<open>count 0: every occurrence\<close>
  | LRange string                   \<comment> \<open>0 to -1\<close>
  | LTrim string nat                \<comment> \<open>0 to the given index\<close>
  | LLen string
  | HSet string "(string \<times> string) list"
  | HGetAll string
  | HMGet string "string list"
  | SAdd string string
  | SRem string string
  | SMembers string
  | GetKey string
  | SetKey string string
  | ZAdd string string rat
  | ZRem string string
  | ZRevRange string nat            \<comment> \<open>0 to the given index\<close>
  | ZRangeByScore string rat        \<comment> \<open>to +inf\<close>
  | ZCount string rat               \<comment> \<open>to +inf\<close>
  | ZRemByScore string "rat option" rat  \<comment> \<open>\<open>None\<close> for -inf\<close>
  | ZRemByRank string nat int
  | ZCard string
  | Expire string int

datatype rreply =
    RNone
  | RText string
  | RInt int
  | RTexts "string list"
  | RFields "(string \<times> string) list"
  | ROptTexts "string option list"

record rview =
  rv_lists :: "string \<Rightarrow> string list"
  rv_hashes :: "string \<Rightarrow> string \<Rightarrow> string option"
  rv_sets :: "string \<Rightarrow> string set"
  rv_keys :: "string \<Rightarrow> string option"
  rv_zsets :: "string \<Rightarrow> (rat \<times> string) list"  \<comment> \<open>ascending by score, then by member\<close>

definition drop_member :: "string \<Rightarrow> (rat \<times> string) list \<Rightarrow> (rat \<times> string) list" where
  "drop_member m z = filter (\<lambda>(_, m'). m' \<noteq> m) z"

definition put_member :: "string \<Rightarrow> rat \<Rightarrow> (rat \<times> string) list \<Rightarrow> (rat \<times> string) list" where
  "put_member m sc z = insort (sc, m) (drop_member m z)"

definition drop_scores :: "rat option \<Rightarrow> rat \<Rightarrow> (rat \<times> string) list \<Rightarrow> (rat \<times> string) list" where
  "drop_scores lo hi z = filter (\<lambda>(sc, _). \<not> (sc \<le> hi \<and> (case lo of None \<Rightarrow> True | Some l \<Rightarrow> l \<le> sc))) z"

definition drop_ranks :: "nat \<Rightarrow> int \<Rightarrow> 'a list \<Rightarrow> 'a list" where
  \<comment> \<open>a negative stop counts from the end\<close>
  "drop_ranks start stop z =
     (let e = (if stop < 0 then int (length z) + stop else stop)
      in if e < int start then z else take start z @ drop (nat (e + 1)) z)"

fun after :: "rcmd \<Rightarrow> rview \<Rightarrow> rview" where
  "after (LPush k x) v = v\<lparr>rv_lists := (rv_lists v)(k := x # rv_lists v k)\<rparr>"
| "after (RPop k) v = v\<lparr>rv_lists := (rv_lists v)(k := butlast (rv_lists v k))\<rparr>"
| "after (LRem k x) v = v\<lparr>rv_lists := (rv_lists v)(k := filter (\<lambda>y. y \<noteq> x) (rv_lists v k))\<rparr>"
| "after (LTrim k n) v = v\<lparr>rv_lists := (rv_lists v)(k := take (Suc n) (rv_lists v k))\<rparr>"
| "after (HSet k fs) v = v\<lparr>rv_hashes := (rv_hashes v)(k := rv_hashes v k ++ map_of (rev fs))\<rparr>"
| "after (SAdd k x) v = v\<lparr>rv_sets := (rv_sets v)(k := insert x (rv_sets v k))\<rparr>"
| "after (SRem k x) v = v\<lparr>rv_sets := (rv_sets v)(k := rv_sets v k - {x})\<rparr>"
| "after (SetKey k x) v = v\<lparr>rv_keys := (rv_keys v)(k := Some x)\<rparr>"
| "after (ZAdd k m sc) v = v\<lparr>rv_zsets := (rv_zsets v)(k := put_member m sc (rv_zsets v k))\<rparr>"
| "after (ZRem k m) v = v\<lparr>rv_zsets := (rv_zsets v)(k := drop_member m (rv_zsets v k))\<rparr>"
| "after (ZRemByScore k lo hi) v = v\<lparr>rv_zsets := (rv_zsets v)(k := drop_scores lo hi (rv_zsets v k))\<rparr>"
| "after (ZRemByRank k a b) v = v\<lparr>rv_zsets := (rv_zsets v)(k := drop_ranks a b (rv_zsets v k))\<rparr>"
| "after _ v = v"

definition from_score :: "rat \<Rightarrow> (rat \<times> string) list \<Rightarrow> string list" where
  "from_score lo z = map snd (filter (\<lambda>(sc, _). lo \<le> sc) z)"

fun answers :: "rcmd \<Rightarrow> rview \<Rightarrow> rreply \<Rightarrow> bool" where
  "answers (RPop k) v r = (r = (if rv_lists v k = [] then RNone else RText (last (rv_lists v k))))"
| "answers (LRange k) v r = (r = RTexts (rv_lists v k))"
| "answers (LLen k) v r = (r = RInt (int (length (rv_lists v k))))"
| "answers (HGetAll k) v r = (\<exists>fs. r = RFields fs \<and> distinct (map fst fs) \<and> map_of fs = rv_hashes v k)"
| "answers (HMGet k fs) v r = (r = ROptTexts (map (rv_hashes v k) fs))"
| "answers (SMembers k) v r = (\<exists>xs. r = RTexts xs \<and> distinct xs \<and> set xs = rv_sets v k)"
| "answers (GetKey k) v r = (r = (case rv_keys v k of None \<Rightarrow> RNone | Some x \<Rightarrow> RText x))"
| "answers (ZRevRange k n) v r = (r = RTexts (take (Suc n) (rev (map snd (rv_zsets v k)))))"
| "answers (ZRangeByScore k lo) v r = (r = RTexts (from_score lo (rv_zsets v k)))"
| "answers (ZCount k lo) v r = (r = RInt (int (length (from_score lo (rv_zsets v k)))))"
| "answers (ZCard k) v r = (r = RInt (int (length (rv_zsets v k))))"
| "answers _ v r = True"

type_synonym 's redis = "rcmd \<Rightarrow> ('s, string, rreply) eff"

definition serves :: "('s \<Rightarrow> rview) \<Rightarrow> 's redis \<Rightarrow> bool" where
  "serves view R \<longleftrightarrow>
     (\<forall>c s. \<exists>r s'. R c s = (Inr r, s') \<and> answers c (view s) r \<and> view s' = after c (view s))"

subsection \<open>Reading replies\<close>

definition unexpected :: "('s, string, 'a) eff" where
  "unexpected = raise_exc ''unexpected reply''"

definition r_do :: "'s redis \<Rightarrow> rcmd \<Rightarrow> ('s, string, unit) eff" where
  "r_do R c = bind_eff (R c) (\<lambda>_. ret ())"

definition r_text :: "'s redis \<Rightarrow> rcmd \<Rightarrow> ('s, string, string option) eff" where
  "r_text R c = bind_eff (R c) (\<lambda>r. case r of RNone \<Rightarrow> ret None | RText t \<Rightarrow> ret (Some t) | _ \<Rightarrow> unexpected)"

definition r_int :: "'s redis \<Rightarrow> rcmd \<Rightarrow> ('s, string, int) eff" where
  "r_int R c = bind_eff (R c) (\<lambda>r. case r of RInt i \<Rightarrow> ret i | _ \<Rightarrow> unexpected)"

definition r_texts :: "'s redis \<Rightarrow> rcmd \<Rightarrow> ('s, string, string list) eff" where
  "r_texts R c = bind_eff (R c) (\<lambda>r. case r of RTexts xs \<Rightarrow> ret xs | _ \<Rightarrow> unexpected)"

definition r_fields :: "'s redis \<Rightarrow> rcmd \<Rightarrow> ('s, string, (string \<times> string) list) eff" where
  "r_fields R c = bind_eff (R c) (\<lambda>r. case r of RFields fs \<Rightarrow> ret fs | _ \<Rightarrow> unexpected)"

definition r_opt_texts :: "'s redis \<Rightarrow> rcmd \<Rightarrow> ('s, string, string option list) eff" where
  "r_opt_texts R c = bind_eff (R c) (\<lambda>r. case r of ROptTexts xs \<Rightarrow> ret xs | _ \<Rightarrow> unexpected)"

subsection \<open>What the commands return\<close>

lemma returns_R:
  assumes "serves view R" "\<And>r s'. answers c (view s) r \<Longrightarrow> view s' = after c (view s) \<Longrightarrow> P r s'"
  shows "returns (R c) s P"
  using assms by (force simp: serves_def returns_def split: prod.split sum.split)

lemma returns_do [returns_intros]:
  assumes "serves view R" "\<And>s'. view s' = after c (view s) \<Longrightarrow> P () s'"
  shows "returns (r_do R c) s P"
  unfolding r_do_def returns_simps by (rule returns_R [OF assms(1)]) (simp add: assms(2))

lemma returns_rpop [returns_intros]:
  assumes "serves view R"
    and "\<And>s'. view s' = after (RPop k) (view s) \<Longrightarrow>
      P (if rv_lists (view s) k = [] then None else Some (last (rv_lists (view s) k))) s'"
  shows "returns (r_text R (RPop k)) s P"
  unfolding r_text_def returns_simps
  by (rule returns_R [OF assms(1)]) (use assms(2) in \<open>auto simp: returns_simps split: if_splits\<close>)

lemma returns_get [returns_intros]:
  assumes "serves view R" "\<And>s'. view s' = view s \<Longrightarrow> P (rv_keys (view s) k) s'"
  shows "returns (r_text R (GetKey k)) s P"
  unfolding r_text_def returns_simps
  by (rule returns_R [OF assms(1)]) (use assms(2) in \<open>auto simp: returns_simps split: option.splits\<close>)

lemma returns_lrange [returns_intros]:
  assumes "serves view R" "\<And>s'. view s' = view s \<Longrightarrow> P (rv_lists (view s) k) s'"
  shows "returns (r_texts R (LRange k)) s P"
  unfolding r_texts_def returns_simps
  by (rule returns_R [OF assms(1)]) (use assms(2) in \<open>auto simp: returns_simps\<close>)

lemma returns_llen [returns_intros]:
  assumes "serves view R" "\<And>s'. view s' = view s \<Longrightarrow> P (int (length (rv_lists (view s) k))) s'"
  shows "returns (r_int R (LLen k)) s P"
  unfolding r_int_def returns_simps
  by (rule returns_R [OF assms(1)]) (use assms(2) in \<open>auto simp: returns_simps\<close>)

lemma returns_smembers [returns_intros]:
  assumes "serves view R"
    and "\<And>xs s'. view s' = view s \<Longrightarrow> distinct xs \<Longrightarrow> set xs = rv_sets (view s) k \<Longrightarrow> P xs s'"
  shows "returns (r_texts R (SMembers k)) s P"
  unfolding r_texts_def returns_simps
  by (rule returns_R [OF assms(1)]) (use assms(2) in \<open>auto simp: returns_simps\<close>)

lemma returns_zrevrange [returns_intros]:
  assumes "serves view R"
    and "\<And>s'. view s' = view s \<Longrightarrow> P (take (Suc n) (rev (map snd (rv_zsets (view s) k)))) s'"
  shows "returns (r_texts R (ZRevRange k n)) s P"
  unfolding r_texts_def returns_simps
  by (rule returns_R [OF assms(1)]) (use assms(2) in \<open>auto simp: returns_simps\<close>)

lemma returns_zrange [returns_intros]:
  assumes "serves view R" "\<And>s'. view s' = view s \<Longrightarrow> P (from_score lo (rv_zsets (view s) k)) s'"
  shows "returns (r_texts R (ZRangeByScore k lo)) s P"
  unfolding r_texts_def returns_simps
  by (rule returns_R [OF assms(1)]) (use assms(2) in \<open>auto simp: returns_simps\<close>)

lemma returns_zcount [returns_intros]:
  assumes "serves view R" "\<And>s'. view s' = view s \<Longrightarrow> P (int (length (from_score lo (rv_zsets (view s) k)))) s'"
  shows "returns (r_int R (ZCount k lo)) s P"
  unfolding r_int_def returns_simps
  by (rule returns_R [OF assms(1)]) (use assms(2) in \<open>auto simp: returns_simps\<close>)

lemma returns_zcard [returns_intros]:
  assumes "serves view R" "\<And>s'. view s' = view s \<Longrightarrow> P (int (length (rv_zsets (view s) k))) s'"
  shows "returns (r_int R (ZCard k)) s P"
  unfolding r_int_def returns_simps
  by (rule returns_R [OF assms(1)]) (use assms(2) in \<open>auto simp: returns_simps\<close>)

lemma returns_hgetall [returns_intros]:
  assumes "serves view R"
    and "\<And>fs s'. view s' = view s \<Longrightarrow> distinct (map fst fs) \<Longrightarrow> map_of fs = rv_hashes (view s) k \<Longrightarrow> P fs s'"
  shows "returns (r_fields R (HGetAll k)) s P"
  unfolding r_fields_def returns_simps
  by (rule returns_R [OF assms(1)]) (use assms(2) in \<open>auto simp: returns_simps\<close>)

lemma returns_hmget [returns_intros]:
  assumes "serves view R" "\<And>s'. view s' = view s \<Longrightarrow> P (map (rv_hashes (view s) k) fs) s'"
  shows "returns (r_opt_texts R (HMGet k fs)) s P"
  unfolding r_opt_texts_def returns_simps
  by (rule returns_R [OF assms(1)]) (use assms(2) in \<open>auto simp: returns_simps\<close>)

subsection \<open>An in-memory server\<close>

record rstore =
  rs_lists :: "string \<Rightarrow> string list"
  rs_hashes :: "string \<Rightarrow> (string \<times> string) list"
  rs_sets :: "string \<Rightarrow> string list"
  rs_keys :: "string \<Rightarrow> string option"
  rs_zsets :: "string \<Rightarrow> (rat \<times> string) list"

definition empty_store :: rstore where
  "empty_store = \<lparr>rs_lists = (\<lambda>_. []), rs_hashes = (\<lambda>_. []), rs_sets = (\<lambda>_. []), rs_keys = (\<lambda>_. None), rs_zsets = (\<lambda>_. [])\<rparr>"

definition store_view :: "rstore \<Rightarrow> rview" where
  "store_view s =
     \<lparr>rv_lists = rs_lists s, rv_hashes = (\<lambda>k. map_of (rs_hashes s k)), rv_sets = (\<lambda>k. set (rs_sets s k)),
      rv_keys = rs_keys s, rv_zsets = rs_zsets s\<rparr>"

definition set_list :: "string \<Rightarrow> string list \<Rightarrow> rstore \<Rightarrow> rstore" where
  "set_list k xs s = s\<lparr>rs_lists := (rs_lists s)(k := xs)\<rparr>"

definition set_zset :: "string \<Rightarrow> (rat \<times> string) list \<Rightarrow> rstore \<Rightarrow> rstore" where
  "set_zset k z s = s\<lparr>rs_zsets := (rs_zsets s)(k := z)\<rparr>"

fun run_store :: "rstore redis" where
  "run_store (LPush k x) s = (Inr RNone, set_list k (x # rs_lists s k) s)"
| "run_store (RPop k) s =
     (Inr (if rs_lists s k = [] then RNone else RText (last (rs_lists s k))), set_list k (butlast (rs_lists s k)) s)"
| "run_store (LRem k x) s = (Inr RNone, set_list k (filter (\<lambda>y. y \<noteq> x) (rs_lists s k)) s)"
| "run_store (LRange k) s = (Inr (RTexts (rs_lists s k)), s)"
| "run_store (LTrim k n) s = (Inr RNone, set_list k (take (Suc n) (rs_lists s k)) s)"
| "run_store (LLen k) s = (Inr (RInt (int (length (rs_lists s k)))), s)"
| "run_store (HSet k fs) s =
     (Inr RNone, s\<lparr>rs_hashes := (rs_hashes s)(k := fold (\<lambda>(f, x) h. AList.update f x h) fs (rs_hashes s k))\<rparr>)"
| "run_store (HGetAll k) s = (Inr (RFields (AList.clearjunk (rs_hashes s k))), s)"
| "run_store (HMGet k fs) s = (Inr (ROptTexts (map (map_of (rs_hashes s k)) fs)), s)"
| "run_store (SAdd k x) s = (Inr RNone, s\<lparr>rs_sets := (rs_sets s)(k := x # rs_sets s k)\<rparr>)"
| "run_store (SRem k x) s = (Inr RNone, s\<lparr>rs_sets := (rs_sets s)(k := filter (\<lambda>y. y \<noteq> x) (rs_sets s k))\<rparr>)"
| "run_store (SMembers k) s = (Inr (RTexts (remdups (rs_sets s k))), s)"
| "run_store (GetKey k) s = (Inr (case rs_keys s k of None \<Rightarrow> RNone | Some x \<Rightarrow> RText x), s)"
| "run_store (SetKey k x) s = (Inr RNone, s\<lparr>rs_keys := (rs_keys s)(k := Some x)\<rparr>)"
| "run_store (ZAdd k m sc) s = (Inr RNone, set_zset k (put_member m sc (rs_zsets s k)) s)"
| "run_store (ZRem k m) s = (Inr RNone, set_zset k (drop_member m (rs_zsets s k)) s)"
| "run_store (ZRevRange k n) s = (Inr (RTexts (take (Suc n) (rev (map snd (rs_zsets s k))))), s)"
| "run_store (ZRangeByScore k lo) s = (Inr (RTexts (from_score lo (rs_zsets s k))), s)"
| "run_store (ZCount k lo) s = (Inr (RInt (int (length (from_score lo (rs_zsets s k))))), s)"
| "run_store (ZRemByScore k lo hi) s = (Inr RNone, set_zset k (drop_scores lo hi (rs_zsets s k)) s)"
| "run_store (ZRemByRank k a b) s = (Inr RNone, set_zset k (drop_ranks a b (rs_zsets s k)) s)"
| "run_store (ZCard k) s = (Inr (RInt (int (length (rs_zsets s k)))), s)"
| "run_store (Expire k n) s = (Inr RNone, s)"

lemma map_of_fold_update: "map_of (fold (\<lambda>(f, x) h. AList.update f x h) fs h) = map_of h ++ map_of (rev fs)"
  by (induction fs arbitrary: h) (auto simp: update_conv' map_add_assoc [symmetric] map_add_def fun_eq_iff split: option.split)

lemma store_serves: "serves store_view run_store"
proof -
  have "\<exists>r s'. run_store c s = (Inr r, s') \<and> answers c (store_view s) r \<and> store_view s' = after c (store_view s)" for c s
    by (cases c) (auto simp: store_view_def set_list_def set_zset_def map_of_fold_update map_of_clearjunk fun_eq_iff)
  then show ?thesis by (simp add: serves_def)
qed

end
