(* ===== verification/ProcessorQueue.thy ===== *)
theory ProcessorQueue
  imports ProcessorJobs RedisClient
begin

text \<open>
  The Redis job queue (\<^verbatim>\<open>app/db/redis/processor_queue.py\<close>): pending ids on one list per priority,
  one hash per job, the running set, the pause flag and the index of recent jobs. The Redis client
  is a parameter; it raises by \<open>Inl\<close>, and its replies are text, as with \<open>decode_responses=True\<close>. Clock
  readings are arguments, in the order the code takes them.
\<close>

subsection \<open>Keys and retention\<close>

definition queue_key :: "priority \<Rightarrow> string" where
  "queue_key p = ''cerid:proc:queue:'' @ priority_value p"

definition job_key :: "string \<Rightarrow> string" where
  "job_key j = ''cerid:proc:job:'' @ j"

definition RUNNING_KEY :: string where "RUNNING_KEY = ''cerid:proc:running''"
definition PAUSED_KEY :: string where "PAUSED_KEY = ''cerid:proc:paused''"
definition RECENT_KEY :: string where "RECENT_KEY = ''cerid:proc:recent''"

definition JOB_RECORD_TTL_S :: int where "JOB_RECORD_TTL_S = 14 * 24 * 3600"
definition RECENT_INDEX_MAX :: nat where "RECENT_INDEX_MAX = 1000"

definition touch_job_ttl :: "'s redis \<Rightarrow> string \<Rightarrow> ('s, string, unit) eff" where
  "touch_job_ttl R jid = catch_eff (r_do R (Expire (job_key jid) JOB_RECORD_TTL_S)) (\<lambda>_. ret ())"

definition trim_recent_index :: "'s redis \<Rightarrow> rat \<Rightarrow> ('s, string, unit) eff" where
  "trim_recent_index R now_ts =
     catch_eff
       (then_eff (r_do R (ZRemByScore RECENT_KEY None (now_ts - of_int JOB_RECORD_TTL_S)))
                 (r_do R (ZRemByRank RECENT_KEY 0 (- (int RECENT_INDEX_MAX + 1)))))
       (\<lambda>_. ret ())"

subsection \<open>Records\<close>

definition save_record :: "'s redis \<Rightarrow> job_record \<Rightarrow> ('s, string, unit) eff" where
  "save_record R r =
     then_eff (r_do R (HSet (job_key (jr_id r)) (record_to_mapping r)))
              (r_do R (Expire (job_key (jr_id r)) JOB_RECORD_TTL_S))"

definition load_record :: "'s redis \<Rightarrow> string \<Rightarrow> ('s, string, job_record option) eff" where
  "load_record R jid =
     bind_eff (r_fields R (HGetAll (job_key jid))) (\<lambda>fs. ret (if fs = [] then None else mapping_to_record fs))"

definition get_job :: "'s redis \<Rightarrow> string \<Rightarrow> ('s, string, job_record option) eff" where
  "get_job R jid = load_record R jid"

definition enqueue :: "'s redis \<Rightarrow> job_record \<Rightarrow> ('s, string, string) eff" where
  "enqueue R r =
     then_eff (save_record R r)
       (then_eff (r_do R (LPush (queue_key (jr_priority r)) (jr_id r))) (ret (jr_id r)))"

definition enqueue_job :: "'s redis \<Rightarrow> job_record \<Rightarrow> ('s, string, string) eff" where
  \<comment> \<open>the record is the job's \<open>new_record\<close>\<close>
  "enqueue_job R r =
     then_eff (r_do R (HSet (job_key (jr_id r)) (record_to_mapping r)))
       (then_eff (touch_job_ttl R (jr_id r))
         (then_eff (r_do R (LPush (queue_key (jr_priority r)) (jr_id r))) (ret (jr_id r))))"

subsection \<open>Duplicate collapse\<close>

definition is_stale_pending :: "int \<Rightarrow> pydatetime \<Rightarrow> string option \<Rightarrow> bool" where
  "is_stale_pending ttl now raw =
     (case raw of
        None \<Rightarrow> True
      | Some t \<Rightarrow>
          if t = [] then True
          else case fromisoformat t of
                 None \<Rightarrow> True
               | Some d \<Rightarrow>
                   (let e = (if dt_offset d = None then as_utc d else d)
                    in timestamp now - timestamp e > of_int ttl))"

definition STALE_MESSAGE :: string where
  "STALE_MESSAGE =
     ''stale pending marker superseded (older than PROCESSOR_PENDING_STALE_TTL_S; likely orphaned by a restart)''"

definition prune_stale_pending :: "'s redis \<Rightarrow> pydatetime \<Rightarrow> string \<Rightarrow> string \<Rightarrow> ('s, string, unit) eff" where
  "prune_stale_pending R now jid list_key =
     catch_eff
       (then_eff (r_do R (LRem list_key jid))
         (then_eff (r_do R (HSet (job_key jid)
                      [(''state'', state_value FAILED), (''completed_at'', isoformat now), (''error_message'', STALE_MESSAGE)]))
           (then_eff (r_do R (ZAdd RECENT_KEY jid (timestamp now))) (trim_recent_index R (timestamp now)))))
       (\<lambda>_. ret ())"

fun num_value :: "pyval \<Rightarrow> rat option" where
  "num_value (PBool b) = Some (if b then 1 else 0)"
| "num_value (PInt i) = Some (of_int i)"
| "num_value (PFloat r) = Some r"
| "num_value _ = None"

function py_eq :: "pyval \<Rightarrow> pyval \<Rightarrow> bool" where
  \<comment> \<open>\<open>==\<close> on parsed JSON: numbers by value, dictionaries without regard to order\<close>
  "py_eq PNone w = (w = PNone)"
| "py_eq (PStr s) w = (w = PStr s)"
| "py_eq (PBool b) w = (num_value w = Some (if b then 1 else 0))"
| "py_eq (PInt i) w = (num_value w = Some (of_int i))"
| "py_eq (PFloat r) w = (num_value w = Some r)"
| "py_eq (PList xs) w =
     (case w of
        PList ys \<Rightarrow> length xs = length ys \<and> list_all (\<lambda>(x, y). py_eq x y) (zip xs ys)
      | _ \<Rightarrow> False)"
| "py_eq (PDict d) w =
     (case w of
        PDict e \<Rightarrow>
          length d = length e
          \<and> list_all (\<lambda>kv. case map_of e (fst kv) of None \<Rightarrow> False | Some v \<Rightarrow> py_eq (snd kv) v) d
      | _ \<Rightarrow> False)"
  by pat_completeness auto

termination
  by (relation "measure (\<lambda>(v, w). size v)") (auto dest: plist_size pdict_size set_zip_leftD)

definition payload_match :: "pyval option \<Rightarrow> pdict option \<Rightarrow> string option \<Rightarrow> string + bool" where
  \<comment> \<open>does a stored payload match; \<open>Inl\<close> where a stored value has no \<open>get\<close>\<close>
  "payload_match payload dedupe raw =
     (if dedupe = None \<and> payload = None then Inr True
      else
        case (case raw of None \<Rightarrow> Some (PDict []) | Some t \<Rightarrow> if t = [] then Some (PDict []) else json_loads t) of
          None \<Rightarrow> Inr False
        | Some stored \<Rightarrow>
            (case dedupe of
               Some wanted \<Rightarrow>
                 if wanted = [] then Inr True
                 else (case stored of
                         PDict e \<Rightarrow> Inr (\<not> list_ex (\<lambda>(k, v). \<not> py_eq (dget e k) v) wanted)
                       | _ \<Rightarrow> Inl ''AttributeError'')
             | None \<Rightarrow> Inr (case payload of None \<Rightarrow> True | Some v \<Rightarrow> py_eq stored v)))"

fun scan_active ::
    "'s redis \<Rightarrow> int \<Rightarrow> (nat \<Rightarrow> pydatetime) \<Rightarrow> string \<Rightarrow> pyval option \<Rightarrow> pdict option \<Rightarrow> nat
     \<Rightarrow> (string \<times> string option) list \<Rightarrow> ('s, string, string option) eff" where
  \<comment> \<open>the loop of \<open>find_active_job_id\<close>; item \<open>n\<close> reads the clock at \<open>2 n\<close> and \<open>2 n + 1\<close>\<close>
  "scan_active R ttl clk ty payload dedupe n [] = ret None"
| "scan_active R ttl clk ty payload dedupe n ((jid, key) # rest) =
     bind_eff (r_opt_texts R (HMGet (job_key jid) [''job_type'', ''payload'', ''enqueued_at'']))
       (\<lambda>fs. case fs of
          [stored_type, stored_payload, enqueued] \<Rightarrow>
            if stored_type \<noteq> Some ty then scan_active R ttl clk ty payload dedupe (Suc n) rest
            else (case payload_match payload dedupe stored_payload of
                    Inl e \<Rightarrow> raise_exc e
                  | Inr False \<Rightarrow> scan_active R ttl clk ty payload dedupe (Suc n) rest
                  | Inr True \<Rightarrow>
                      (case key of
                         None \<Rightarrow> ret (Some jid)
                       | Some k \<Rightarrow>
                           if is_stale_pending ttl (clk (2 * n)) enqueued
                           then then_eff (prune_stale_pending R (clk (2 * n + 1)) jid k)
                                  (scan_active R ttl clk ty payload dedupe (Suc n) rest)
                           else ret (Some jid)))
        | _ \<Rightarrow> raise_exc ''ValueError'')"

definition pending_ids :: "'s redis \<Rightarrow> ('s, string, (string \<times> string option) list) eff" where
  "pending_ids R =
     fold_eff (\<lambda>p acc. bind_eff (r_texts R (LRange (queue_key p)))
                 (\<lambda>js. ret (acc @ map (\<lambda>j. (j, Some (queue_key p))) js))) priority_order []"

definition find_active_job_id ::
    "'s redis \<Rightarrow> int \<Rightarrow> (nat \<Rightarrow> pydatetime) \<Rightarrow> string \<Rightarrow> pyval option \<Rightarrow> pdict option \<Rightarrow> ('s, string, string option) eff" where
  "find_active_job_id R ttl clk ty payload dedupe =
     catch_eff
       (bind_eff (pending_ids R)
         (\<lambda>pend. bind_eff (r_texts R (SMembers RUNNING_KEY))
           (\<lambda>run. scan_active R ttl clk ty payload dedupe 0 (pend @ map (\<lambda>j. (j, None)) run))))
       (\<lambda>_. ret None)"

definition enqueue_job_if_absent ::
    "'s redis \<Rightarrow> int \<Rightarrow> (nat \<Rightarrow> pydatetime) \<Rightarrow> pyval option \<Rightarrow> pdict option \<Rightarrow> job_record \<Rightarrow> ('s, string, string option) eff" where
  \<comment> \<open>of a job whose record, were it enqueued, is the last argument\<close>
  "enqueue_job_if_absent R ttl clk payload dedupe r =
     bind_eff (find_active_job_id R ttl clk (jr_type r)
                 (Some (case payload of None \<Rightarrow> PDict [] | Some v \<Rightarrow> py_or v (PDict []))) dedupe)
       (\<lambda>existing. if existing \<noteq> None then ret None
                   else bind_eff (enqueue_job R r) (\<lambda>jid. ret (Some jid)))"

definition enqueue_if_absent ::
    "'s redis \<Rightarrow> int \<Rightarrow> (nat \<Rightarrow> pydatetime) \<Rightarrow> job_record \<Rightarrow> ('s, string, string option) eff" where
  "enqueue_if_absent R ttl clk r =
     bind_eff (find_active_job_id R ttl clk (jr_type r) (Some (jr_payload r)) None)
       (\<lambda>existing. if existing \<noteq> None then ret None
                   else bind_eff (enqueue R r) (\<lambda>jid. ret (Some jid)))"

subsection \<open>Taking work\<close>

definition is_paused :: "'s redis \<Rightarrow> ('s, string, bool) eff" where
  "is_paused R = bind_eff (r_text R (GetKey PAUSED_KEY)) (\<lambda>v. ret (v = Some ''1''))"

fun dequeue_scan :: "'s redis \<Rightarrow> priority list \<Rightarrow> ('s, string, job_record option) eff" where
  "dequeue_scan R [] = ret None"
| "dequeue_scan R (p # ps) =
     bind_eff (r_text R (RPop (queue_key p)))
       (\<lambda>j. case j of
          Some jid \<Rightarrow> if jid \<noteq> [] then load_record R jid else dequeue_scan R ps
        | None \<Rightarrow> dequeue_scan R ps)"

definition dequeue :: "'s redis \<Rightarrow> priority list \<Rightarrow> ('s, string, job_record option) eff" where
  "dequeue R priorities = bind_eff (is_paused R) (\<lambda>p. if p then ret None else dequeue_scan R priorities)"

definition mark_running :: "'s redis \<Rightarrow> pydatetime \<Rightarrow> string \<Rightarrow> ('s, string, unit) eff" where
  "mark_running R now jid =
     bind_eff (load_record R jid)
       (\<lambda>x. case x of
          None \<Rightarrow> ret ()
        | Some r \<Rightarrow>
            then_eff (save_record R (r\<lparr>jr_state := RUNNING, jr_started := Some now\<rparr>)) (r_do R (SAdd RUNNING_KEY jid)))"

definition update_progress :: "'s redis \<Rightarrow> string \<Rightarrow> rat \<Rightarrow> ('s, string, unit) eff" where
  "update_progress R jid progress =
     catch_eff
       (then_eff (r_do R (HSet (job_key jid) [(''progress'', show_float progress)]))
                 (r_do R (Expire (job_key jid) JOB_RECORD_TTL_S)))
       (\<lambda>_. ret ())"

subsection \<open>Settling work\<close>

definition settle :: "'s redis \<Rightarrow> pydatetime \<Rightarrow> string \<Rightarrow> job_record \<Rightarrow> ('s, string, unit) eff" where
  \<comment> \<open>the common end of \<open>mark_completed\<close>, \<open>mark_held\<close> and \<open>mark_failed\<close>\<close>
  "settle R now jid r =
     then_eff (save_record R r)
       (then_eff (r_do R (SRem RUNNING_KEY jid))
         (then_eff (r_do R (ZAdd RECENT_KEY jid (timestamp now))) (trim_recent_index R (timestamp now))))"

definition settle_with :: "'s redis \<Rightarrow> pydatetime \<Rightarrow> string \<Rightarrow> (job_record \<Rightarrow> job_record) \<Rightarrow> ('s, string, unit) eff" where
  "settle_with R now jid f =
     bind_eff (load_record R jid) (\<lambda>x. case x of None \<Rightarrow> ret () | Some r \<Rightarrow> settle R now jid (f r))"

definition completed_record :: "pydatetime \<Rightarrow> job_result \<Rightarrow> job_record \<Rightarrow> job_record" where
  "completed_record now res r =
     r\<lparr>jr_state := COMPLETED, jr_completed := Some now, jr_act_in := Some (js_tokens_in res),
       jr_act_out := Some (js_tokens_out res), jr_metadata := py_or (js_metadata res) (PDict []), jr_progress := 1\<rparr>"

definition mark_completed :: "'s redis \<Rightarrow> pydatetime \<Rightarrow> string \<Rightarrow> job_result \<Rightarrow> ('s, string, unit) eff" where
  "mark_completed R now jid res = settle_with R now jid (completed_record now res)"

definition held_record :: "pydatetime \<Rightarrow> job_result \<Rightarrow> job_record \<Rightarrow> job_record" where
  "held_record now res r =
     r\<lparr>jr_state := HELD, jr_completed := Some now, jr_act_in := Some (js_tokens_in res),
       jr_act_out := Some (js_tokens_out res), jr_metadata := py_or (js_metadata res) (PDict [])\<rparr>"

definition mark_held :: "'s redis \<Rightarrow> pydatetime \<Rightarrow> string \<Rightarrow> job_result \<Rightarrow> ('s, string, unit) eff" where
  "mark_held R now jid res = settle_with R now jid (held_record now res)"

definition failed_record :: "pydatetime \<Rightarrow> string \<Rightarrow> job_record \<Rightarrow> job_record" where
  "failed_record now msg r = r\<lparr>jr_state := FAILED, jr_completed := Some now, jr_error := Some msg\<rparr>"

definition mark_failed :: "'s redis \<Rightarrow> pydatetime \<Rightarrow> string \<Rightarrow> string \<Rightarrow> ('s, string, unit) eff" where
  "mark_failed R now jid msg = settle_with R now jid (failed_record now msg)"

definition recover_one :: "'s redis \<Rightarrow> string \<Rightarrow> string list \<Rightarrow> ('s, string, string list) eff" where
  "recover_one R jid acc =
     bind_eff (load_record R jid)
       (\<lambda>x. case x of
          None \<Rightarrow> then_eff (r_do R (SRem RUNNING_KEY jid)) (ret acc)
        | Some r \<Rightarrow>
            if jr_state r = RUNNING then
              then_eff (save_record R (r\<lparr>jr_state := PENDING, jr_started := None\<rparr>))
                (then_eff (r_do R (LPush (queue_key (jr_priority r)) jid))
                  (then_eff (r_do R (SRem RUNNING_KEY jid)) (ret (acc @ [jid]))))
            else then_eff (r_do R (SRem RUNNING_KEY jid)) (ret acc))"

definition recover_orphaned_running :: "'s redis \<Rightarrow> ('s, string, string list) eff" where
  "recover_orphaned_running R =
     bind_eff (r_texts R (SMembers RUNNING_KEY)) (\<lambda>js. fold_eff (recover_one R) js [])"

subsection \<open>Control and listing\<close>

definition pause_queue :: "'s redis \<Rightarrow> ('s, string, unit) eff" where
  "pause_queue R = r_do R (SetKey PAUSED_KEY ''1'')"

definition resume_queue :: "'s redis \<Rightarrow> ('s, string, unit) eff" where
  "resume_queue R = r_do R (SetKey PAUSED_KEY ''0'')"

definition size_by_priority :: "'s redis \<Rightarrow> ('s, string, (priority \<times> int) list) eff" where
  "size_by_priority R =
     fold_eff (\<lambda>p acc. bind_eff (r_int R (LLen (queue_key p))) (\<lambda>n. ret (acc @ [(p, n)]))) priority_order []"

definition type_count :: "(string \<times> int) list \<Rightarrow> string \<Rightarrow> int" where
  "type_count seen ty = (case map_of seen ty of None \<Rightarrow> 0 | Some n \<Rightarrow> n)"

fun recent_scan ::
    "'s redis \<Rightarrow> int \<Rightarrow> string option \<Rightarrow> int option \<Rightarrow> (string \<times> int) list \<Rightarrow> job_record list \<Rightarrow> string list
     \<Rightarrow> ('s, string, job_record list) eff" where
  "recent_scan R limit ty cap seen acc [] = ret acc"
| "recent_scan R limit ty cap seen acc (jid # rest) =
     (if int (length acc) \<ge> limit then ret acc
      else bind_eff (load_record R jid)
        (\<lambda>x. case x of
           None \<Rightarrow> then_eff (catch_eff (r_do R (ZRem RECENT_KEY jid)) (\<lambda>_. ret ()))
                     (recent_scan R limit ty cap seen acc rest)
         | Some r \<Rightarrow>
             (case (ty, cap) of
                (Some t, _) \<Rightarrow> recent_scan R limit ty cap seen (if jr_type r \<noteq> t then acc else acc @ [r]) rest
              | (None, None) \<Rightarrow> recent_scan R limit ty cap seen (acc @ [r]) rest
              | (None, Some c) \<Rightarrow>
                  if c = 0 then recent_scan R limit ty cap seen (acc @ [r]) rest
                  else if type_count seen (jr_type r) \<ge> c then recent_scan R limit ty cap seen acc rest
                  else recent_scan R limit ty cap
                         (AList.update (jr_type r) (type_count seen (jr_type r) + 1) seen) (acc @ [r]) rest)))"

definition list_recent :: "'s redis \<Rightarrow> int \<Rightarrow> string option \<Rightarrow> int option \<Rightarrow> ('s, string, job_record list) eff" where
  "list_recent R limit ty cap =
     bind_eff (r_texts R (ZRevRange RECENT_KEY (RECENT_INDEX_MAX - 1))) (recent_scan R limit ty cap [] [])"

end
