(* ===== verification/ProcessorMetrics.thy ===== *)
theory ProcessorMetrics
  imports ProcessorQueue
begin

text \<open>
  The processor's metrics (\<^verbatim>\<open>app/processor/metrics.py\<close>): completions, costs and throttle events in
  sorted sets scored by epoch seconds, durations in capped lists per job type. Clock readings and
  random suffixes are arguments. Every reader answers a zero value when Redis fails.
\<close>

definition COMPLETED_KEY :: string where "COMPLETED_KEY = ''cerid:proc:completed:by_ts''"
definition COST_KEY :: string where "COST_KEY = ''cerid:proc:cost:by_ts''"
definition THROTTLED_KEY :: string where "THROTTLED_KEY = ''cerid:proc:throttled:by_ts''"
definition DURATION_KEY_PREFIX :: string where "DURATION_KEY_PREFIX = ''cerid:proc:duration:by_type:''"
definition DURATION_TYPES_KEY :: string where "DURATION_TYPES_KEY = ''cerid:proc:duration:job_types''"
definition DURATION_MAX_ENTRIES :: nat where "DURATION_MAX_ENTRIES = 200"
definition S_24H :: rat where "S_24H = 86400"
definition S_7D :: rat where "S_7D = 604800"

definition duration_key :: "string \<Rightarrow> string" where
  "duration_key ty = DURATION_KEY_PREFIX @ ty"

subsection \<open>Writers\<close>

definition cost_member :: "string \<Rightarrow> pydecimal \<Rightarrow> string" where
  "cost_member jid cost = jid @ '':'' @ dec_str cost"

definition sync_record_completion ::
    "'s redis \<Rightarrow> string \<Rightarrow> rat \<Rightarrow> pydecimal \<Rightarrow> string option \<Rightarrow> rat option \<Rightarrow> ('s, string, unit) eff" where
  "sync_record_completion R jid completed_at cost ty duration =
     then_eff (r_do R (ZAdd COMPLETED_KEY jid completed_at))
       (then_eff (r_do R (ZAdd COST_KEY (cost_member jid cost) completed_at))
         (case (ty, duration) of
            (Some t, Some d) \<Rightarrow>
              if t = [] then ret ()
              else then_eff (r_do R (LPush (duration_key t) (show_float d)))
                     (then_eff (r_do R (LTrim (duration_key t) (DURATION_MAX_ENTRIES - 1)))
                       (r_do R (SAdd DURATION_TYPES_KEY t)))
          | _ \<Rightarrow> ret ()))"

definition record_completion ::
    "'s redis \<Rightarrow> string \<Rightarrow> rat \<Rightarrow> pydecimal \<Rightarrow> string option \<Rightarrow> rat option \<Rightarrow> ('s, string, unit) eff" where
  "record_completion R jid completed_at cost ty duration =
     catch_eff (sync_record_completion R jid completed_at cost ty duration) (\<lambda>_. ret ())"

definition record_throttled :: "'s redis \<Rightarrow> rat \<Rightarrow> string \<Rightarrow> ('s, string, unit) eff" where
  \<comment> \<open>with four random bytes in hexadecimal\<close>
  "record_throttled R ts suffix =
     catch_eff (r_do R (ZAdd THROTTLED_KEY (show_float ts @ '':'' @ suffix) ts)) (\<lambda>_. ret ())"

subsection \<open>Readers\<close>

definition processor_jobs_completed_24h :: "'s redis \<Rightarrow> rat \<Rightarrow> ('s, string, int) eff" where
  "processor_jobs_completed_24h R now = catch_eff (r_int R (ZCount COMPLETED_KEY (now - S_24H))) (\<lambda>_. ret 0)"

definition after_last_colon :: "string \<Rightarrow> string option" where
  \<comment> \<open>the second part of \<open>rsplit(":", 1)\<close>, \<open>None\<close> without a colon\<close>
  "after_last_colon s =
     (if CHR '':'' \<in> set s then Some (rev (takeWhile (\<lambda>c. c \<noteq> CHR '':'') (rev s))) else None)"

definition sum_cost_members :: "string list \<Rightarrow> pydecimal" where
  "sum_cost_members members =
     fold (\<lambda>m total. case after_last_colon m of
             None \<Rightarrow> total
           | Some t \<Rightarrow> (case dec_parse t of None \<Rightarrow> total | Some d \<Rightarrow> dec_add total d)) members (Dec 0 0)"

definition cost_since :: "'s redis \<Rightarrow> rat \<Rightarrow> ('s, string, pydecimal) eff" where
  "cost_since R cutoff =
     catch_eff (bind_eff (r_texts R (ZRangeByScore COST_KEY cutoff)) (\<lambda>ms. ret (sum_cost_members ms)))
       (\<lambda>_. ret (Dec 0 0))"

definition processor_cost_usd_7d :: "'s redis \<Rightarrow> rat \<Rightarrow> ('s, string, pydecimal) eff" where
  "processor_cost_usd_7d R now = cost_since R (now - S_7D)"

definition month_start :: "pydatetime \<Rightarrow> pydatetime" where
  "month_start now =
     \<lparr>dt_year = dt_year now, dt_month = dt_month now, dt_day = 1, dt_hour = 0, dt_minute = 0, dt_second = 0,
      dt_micro = 0, dt_offset = Some 0\<rparr>"

definition processor_cost_usd_month :: "'s redis \<Rightarrow> pydatetime \<Rightarrow> ('s, string, pydecimal) eff" where
  "processor_cost_usd_month R now = cost_since R (timestamp (month_start now))"

definition processor_throttled_ticks :: "'s redis \<Rightarrow> rat \<Rightarrow> rat \<Rightarrow> ('s, string, int) eff" where
  "processor_throttled_ticks R now window_s =
     catch_eff
       (then_eff (r_do R (ZRemByScore THROTTLED_KEY (Some 0) (now - window_s))) (r_int R (ZCard THROTTLED_KEY)))
       (\<lambda>_. ret 0)"

definition round_half_even :: "rat \<Rightarrow> int" where
  \<comment> \<open>\<open>round(x)\<close>\<close>
  "round_half_even x =
     (let n = \<lfloor>x\<rfloor>; f = x - of_int n
      in if f < 1 / 2 then n else if f > 1 / 2 then n + 1 else if even n then n else n + 1)"

definition round_to :: "nat \<Rightarrow> rat \<Rightarrow> rat" where
  "round_to k x = of_int (round_half_even (x * 10 ^ k)) / 10 ^ k"

definition percentile :: "rat list \<Rightarrow> rat \<Rightarrow> rat" where
  "percentile xs pct =
     (if xs = [] then 0
      else xs ! nat (min (int (length xs) - 1) (round_half_even (pct * of_int (int (length xs) - 1)))))"

record type_stats =
  ts_count :: nat
  ts_p50 :: rat
  ts_p95 :: rat

definition stats_of :: "rat list \<Rightarrow> type_stats" where
  "stats_of durations =
     (let xs = sort durations
      in \<lparr>ts_count = length xs, ts_p50 = round_to 3 (percentile xs (1 / 2)), ts_p95 = round_to 3 (percentile xs (95 / 100))\<rparr>)"

definition processor_job_type_stats :: "'s redis \<Rightarrow> ('s, string, (string \<times> type_stats) list) eff" where
  "processor_job_type_stats R =
     catch_eff
       (bind_eff (r_texts R (SMembers DURATION_TYPES_KEY))
         (\<lambda>types. fold_eff
            (\<lambda>t stats. bind_eff (r_texts R (LRange (duration_key t)))
               (\<lambda>raw. let ds = List.map_filter py_float_text raw
                      in ret (if ds = [] then stats else stats @ [(t, stats_of ds)]))) types []))
       (\<lambda>_. ret [])"

end
