(* ===== verification/ProcessorWorker.thy ===== *)
theory ProcessorWorker
  imports ProcessorMetrics
begin

text \<open>
  The worker (\<^verbatim>\<open>app/processor/worker.py\<close>, \<^verbatim>\<open>app/processor/model_policy.py\<close>): one tick of its polling loop,
  the execution of one job, its failure and retry, and the registry of job classes. Job classes are
  parameters: a constructor from a payload, an effect to run and a cost estimate. Clock readings
  come from \<open>clk\<close>: 0 when the job starts, 1 for the month of the spending cap, 2 when it ends, 3 after.
\<close>

subsection \<open>Environment\<close>

record 's job =
  jb_run :: "string option \<Rightarrow> (rat \<Rightarrow> ('s, string, unit) eff) \<Rightarrow> ('s, string, job_result) eff"
    \<comment> \<open>under a model override, with the progress callback\<close>
  jb_estimate :: "string + cost_estimate"

record 's worker_env =
  we_queue :: "'s redis"
  we_metrics :: "'s redis option"
  we_registry :: "string \<Rightarrow> (pyval \<Rightarrow> string + 's job) option"
  we_max_retries :: int
  we_mode :: "string option"
  we_threshold :: int
  we_cap :: pydecimal
  we_cap_fallback :: string
  we_smart :: "string option"
  we_egress_refused :: bool
  we_is_local :: "string \<Rightarrow> bool"

definition DEFAULT_MAX_RETRIES :: int where "DEFAULT_MAX_RETRIES = 3"

definition swallow :: "('s, string, unit) eff \<Rightarrow> ('s, string, unit) eff" where
  \<comment> \<open>\<open>try ... except\<close> around a step whose failure is only logged\<close>
  "swallow m = catch_eff m (\<lambda>_. ret ())"

subsection \<open>Model policy\<close>

definition month_spend :: "'s redis option \<Rightarrow> pydatetime \<Rightarrow> ('s, string, pydecimal) eff" where
  \<comment> \<open>zero without a client, where the reader's \<open>AttributeError\<close> is swallowed\<close>
  "month_spend client now = (case client of None \<Rightarrow> ret (Dec 0 0) | Some R \<Rightarrow> processor_cost_usd_month R now)"

definition resolve_job_model :: "'s worker_env \<Rightarrow> pydatetime \<Rightarrow> string \<Rightarrow> string \<Rightarrow> int \<Rightarrow> ('s, string, model_decision) eff" where
  "resolve_job_model E now default_local api_model tokens =
     (let mode = resolve_processor_mode (we_mode E)
      in bind_eff
           (if mode = ''hybrid'' \<and> tokens > we_threshold E
            then catch_eff (month_spend (we_metrics E) now) (\<lambda>_. ret (Dec 0 0)) else ret (Dec 0 0))
           (\<lambda>spend. ret (select_job_model mode tokens (we_threshold E) spend (we_cap E) (we_cap_fallback E)
                           default_local api_model)))"

subsection \<open>Failure\<close>

definition retry_record :: "pydatetime \<Rightarrow> int \<Rightarrow> job_record \<Rightarrow> job_record" where
  "retry_record now retries r =
     \<lparr>jr_id = jr_id r, jr_type = jr_type r, jr_state = PENDING, jr_priority = jr_priority r, jr_payload = jr_payload r,
      jr_enqueued = now, jr_retries = Some retries, jr_started = None, jr_completed = None, jr_est_in = jr_est_in r,
      jr_est_out = jr_est_out r, jr_act_in = None, jr_act_out = None, jr_llm = jr_llm r, jr_model = jr_model r,
      jr_error = None, jr_metadata = PDict [], jr_progress = 0\<rparr>"

definition handle_failure :: "'s worker_env \<Rightarrow> (nat \<Rightarrow> pydatetime) \<Rightarrow> job_record \<Rightarrow> string \<Rightarrow> ('s, string, unit) eff" where
  "handle_failure E clk r msg =
     then_eff (swallow (mark_failed (we_queue E) (clk 2) (jr_id r) msg))
       (case jr_retries r of
          None \<Rightarrow> raise_exc ''TypeError''
        | Some n \<Rightarrow>
            if n + 1 < we_max_retries E
            then swallow (then_eff (enqueue (we_queue E) (retry_record (clk 3) (n + 1) r)) (ret ()))
            else ret ())"

subsection \<open>One job\<close>

definition or_text :: "string option \<Rightarrow> string \<Rightarrow> string" where
  \<comment> \<open>\<open>x or default\<close>\<close>
  "or_text x d = (case x of None \<Rightarrow> d | Some t \<Rightarrow> if t = [] then d else t)"

definition actual_cost :: "'s worker_env \<Rightarrow> job_record \<Rightarrow> 's job \<Rightarrow> string option \<Rightarrow> job_result \<Rightarrow> string + pydecimal" where
  "actual_cost E r job chosen res =
     (let fallback = (case jb_estimate job of Inl e \<Rightarrow> Inl e | Inr c \<Rightarrow> Inr (ce_usd c))
      in case (jr_llm r, chosen) of
           (True, Some m) \<Rightarrow>
             (case estimate_cost (we_is_local E) DEFAULT_PRICING m (js_tokens_in res) (js_tokens_out res) ''medium'' of
                Some c \<Rightarrow> Inr (ce_usd c)
              | None \<Rightarrow> fallback)
         | _ \<Rightarrow> fallback)"

definition record_metrics ::
    "'s worker_env \<Rightarrow> pydatetime \<Rightarrow> rat \<Rightarrow> job_record \<Rightarrow> 's job \<Rightarrow> string option \<Rightarrow> job_result \<Rightarrow> ('s, string, unit) eff" where
  "record_metrics E now duration r job chosen res =
     (case we_metrics E of
        None \<Rightarrow> ret ()
      | Some R \<Rightarrow>
          (case actual_cost E r job chosen res of
             Inl e \<Rightarrow> ret ()
           | Inr cost \<Rightarrow> swallow (record_completion R (jr_id r) (timestamp now) cost (Some (jr_type r)) (Some duration))))"

definition model_override :: "'s worker_env \<Rightarrow> job_record \<Rightarrow> string option \<Rightarrow> string option \<Rightarrow> string option" where
  "model_override E r chosen default_local =
     (if jr_llm r \<and> chosen \<noteq> None \<and> chosen \<noteq> default_local \<and> \<not> we_egress_refused E then chosen else None)"

definition run_job ::
    "'s worker_env \<Rightarrow> (nat \<Rightarrow> pydatetime) \<Rightarrow> rat \<Rightarrow> job_record \<Rightarrow> 's job \<Rightarrow> string option \<Rightarrow> string option \<Rightarrow> ('s, string, unit) eff" where
  \<comment> \<open>with the chosen and the default model\<close>
  "run_job E clk duration r job chosen default_local =
     try_else (jb_run job (model_override E r chosen default_local) (update_progress (we_queue E) (jr_id r)))
       (handle_failure E clk r)
       (\<lambda>raw. let res = raw\<lparr>js_job_id := jr_id r\<rparr>
              in then_eff (swallow (mark_completed (we_queue E) (clk 2) (jr_id r) res))
                   (record_metrics E (clk 3) duration r job chosen res))"

definition held_result :: "string \<Rightarrow> string \<Rightarrow> job_result" where
  "held_result jid reason =
     \<lparr>js_job_id = jid, js_tokens_in = 0, js_tokens_out = 0,
      js_metadata = PDict [(''held'', PBool True), (''reason'', PStr reason)]\<rparr>"

definition dispatch_llm :: "'s worker_env \<Rightarrow> (nat \<Rightarrow> pydatetime) \<Rightarrow> rat \<Rightarrow> job_record \<Rightarrow> 's job \<Rightarrow> ('s, string, unit) eff" where
  \<comment> \<open>the branch of a job that needs a model\<close>
  "dispatch_llm E clk duration r job =
     (case (jr_est_in r, jr_est_out r) of
        (Some tin, Some tout) \<Rightarrow>
          (let default_local = or_text (jr_model r) ''ollama/local'';
               api_model = (case we_smart E of None \<Rightarrow> default_local | Some m \<Rightarrow> m)
           in bind_eff
                (catch_eff (bind_eff (resolve_job_model E (clk 1) default_local api_model (tin + tout)) (\<lambda>d. ret (Some d)))
                   (\<lambda>_. ret None))
                (\<lambda>decision. case decision of
                   Some d \<Rightarrow>
                     if md_hold d then swallow (mark_held (we_queue E) (clk 2) (jr_id r) (held_result (jr_id r) (md_reason d)))
                     else run_job E clk duration r job (Some (or_text (md_model d) default_local)) (Some default_local)
                 | None \<Rightarrow> run_job E clk duration r job (Some default_local) (Some default_local)))
      | _ \<Rightarrow> raise_exc ''TypeError'')"

definition execute :: "'s worker_env \<Rightarrow> (nat \<Rightarrow> pydatetime) \<Rightarrow> rat \<Rightarrow> job_record \<Rightarrow> ('s, string, unit) eff" where
  "execute E clk duration r =
     try_else (mark_running (we_queue E) (clk 0) (jr_id r)) (\<lambda>_. ret ())
       (\<lambda>_. case we_registry E (jr_type r) of
          None \<Rightarrow> swallow (mark_failed (we_queue E) (clk 2) (jr_id r) (''unknown job_type: '' @ repr_str (jr_type r)))
        | Some cls \<Rightarrow>
            (case cls (jr_payload r) of
               Inl e \<Rightarrow> swallow (mark_failed (we_queue E) (clk 2) (jr_id r) (''instantiation error: '' @ e))
             | Inr job \<Rightarrow>
                 if jr_llm r then dispatch_llm E clk duration r job else run_job E clk duration r job None None))"

subsection \<open>The loop\<close>

definition load_ceiling :: "rat option \<Rightarrow> rat option \<Rightarrow> rat" where
  \<comment> \<open>of a constructor argument and the CPU count, where that can be read\<close>
  "load_ceiling given cpus = (case given of Some c \<Rightarrow> c | None \<Rightarrow> (case cpus of Some n \<Rightarrow> n | None \<Rightarrow> 1) * (7 / 10))"

definition is_throttled :: "rat option \<Rightarrow> rat \<Rightarrow> bool" where
  "is_throttled load most = (case load of None \<Rightarrow> False | Some l \<Rightarrow> l > most)"

record tick_input =
  ti_clk :: "nat \<Rightarrow> pydatetime"
  ti_load :: "rat option"
  ti_ceiling :: rat
  ti_suffix :: string
  ti_duration :: rat

definition worker_tick :: "'s worker_env \<Rightarrow> tick_input \<Rightarrow> ('s, string, unit) eff" where
  \<comment> \<open>one pass through the body of the loop, without its sleeps\<close>
  "worker_tick E t =
     catch_eff
       (if processor_is_disabled (resolve_processor_mode (we_mode E)) then ret ()
        else if is_throttled (ti_load t) (ti_ceiling t)
        then (case we_metrics E of None \<Rightarrow> ret () | Some R \<Rightarrow> record_throttled R (timestamp (ti_clk t 0)) (ti_suffix t))
        else bind_eff (dequeue (we_queue E) priority_order)
               (\<lambda>x. case x of None \<Rightarrow> ret () | Some r \<Rightarrow> execute E (ti_clk t) (ti_duration t) r))
       (\<lambda>_. ret ())"

definition start_worker :: "'s redis \<Rightarrow> nat \<Rightarrow> nat \<Rightarrow> ('s, string, nat) eff" where
  \<comment> \<open>the number of loop tasks before and after\<close>
  "start_worker R concurrency tasks =
     (if tasks \<noteq> 0 then ret tasks
      else then_eff (swallow (then_eff (recover_orphaned_running R) (ret ()))) (ret concurrency))"

subsection \<open>The registry\<close>

datatype job_class = JobClass (jc_type: string) (jc_abstract: bool) (jc_subclasses: "job_class list")

function walk_subclasses :: "job_class \<Rightarrow> (string \<times> job_class) list \<Rightarrow> (string \<times> job_class) list" where
  "walk_subclasses (JobClass ty ab subs) registry =
     fold (\<lambda>sub reg. walk_subclasses sub
             (if \<not> jc_abstract sub \<and> jc_type sub \<noteq> [] then AList.update (jc_type sub) sub reg else reg)) subs registry"
  by pat_completeness auto
termination
proof (relation "measure (\<lambda>(c, _). size c)")
  show "((sub, if \<not> jc_abstract sub \<and> jc_type sub \<noteq> [] then AList.update (jc_type sub) sub reg else reg),
      (JobClass ty ab subs, registry)) \<in> measure (\<lambda>(c, _). size c)" if "sub \<in> set subs"
    for ty ab subs registry sub and reg :: "(string \<times> job_class) list"
    using that size_list_estimation' [of sub subs "size sub" size] by simp
qed simp

end
