(* ===== verification/JobRecords.thy ===== *)
theory JobRecords
  imports ProcessorJobs
begin

text \<open>
  A job record survives its Redis form: integers, floats, datetimes and JSON are read back as
  written, whatever order the fields come back in.
\<close>

subsection \<open>Integers\<close>

lemma split_on_none: "d \<notin> set s \<Longrightarrow> split_on d s = [s]"
  by (induction s) auto

lemma digits_not: "list_all is_digit s \<Longrightarrow> CHR ''_'' \<notin> set s"
  by (auto simp: list_all_iff is_digit_def)

lemma show_nat_digits_all [simp]: "list_all is_digit (show_nat n)"
  using show_nat_digits by (simp add: list_all_iff)

lemma digits_solid: "list_all is_digit s \<Longrightarrow> strip s = s"
  using digit_solid by (intro strip_solid) (auto simp: list_all_iff)

lemma py_int_text_show [simp]: "py_int_text (show_int i) = Some i"
proof -
  have s: "strip (show_int i) = show_int i"
    using digit_solid show_nat_digits by (intro strip_solid) (auto simp: show_int_def list_all_iff py_isspace_def)
  have h: "hd (show_nat n) \<noteq> CHR ''-''" "hd (show_nat n) \<noteq> CHR ''+''" for n
    using show_nat_hd_digit [of n] by (auto simp: is_digit_def)
  have p: "split_on (CHR ''_'') (show_nat n) = [show_nat n]" for n
    by (rule split_on_none) (simp add: digits_not)
  show ?thesis
    unfolding py_int_text_def s by (auto simp: show_int_def Let_def h p show_nat_ne digits_val_show)
qed

lemma show_int_ne [simp]: "show_int i \<noteq> []"
  by (simp add: show_int_def show_nat_ne)

subsection \<open>Floats\<close>

definition decimal_ok :: "rat \<Rightarrow> bool" where
  \<comment> \<open>a fraction that \<open>show_float\<close> prints in full\<close>
  "decimal_ok r = (0 \<le> r \<and> r * 10 ^ 17 = of_int \<lfloor>r * 10 ^ 17\<rfloor>)"

lemma show_nat_digit: "n < 10 \<Longrightarrow> length (show_nat n) = 1"
  by (simp add: show_nat_small)

lemma digits_val_Cons: "digits_val (c # s) = digit_val c * 10 ^ length s + digits_val s"
proof -
  have "foldl (\<lambda>n c. 10 * n + digit_val c) a s = a * 10 ^ length s + foldl (\<lambda>n c. 10 * n + digit_val c) 0 s" for a s
  proof (induction s arbitrary: a)
    case (Cons x s)
    show ?case using Cons [of "10 * a + digit_val x"] Cons [of "digit_val x"] by (simp add: algebra_simps)
  qed simp
  from this [of "digit_val c" s] show ?thesis by (simp add: digits_val_def)
qed

lemma digits_val_append: "digits_val (s @ t) = digits_val s * 10 ^ length t + digits_val t"
  by (induction s) (simp_all add: digits_val_Cons algebra_simps power_add, simp add: digits_val_def)

lemma show_frac_spec:
  assumes "0 \<le> f" "f < 1" "f * 10 ^ k = of_int m" "0 < k"
  shows "list_all is_digit (show_frac k f) \<and> show_frac k f \<noteq> []
    \<and> of_nat (digits_val (show_frac k f)) = f * 10 ^ length (show_frac k f)"
  using assms
proof (induction k arbitrary: f m)
  case (Suc k)
  let ?d = "\<lfloor>10 * f\<rfloor>" and ?g = "10 * f - of_int \<lfloor>10 * f\<rfloor>"
  have d: "0 \<le> ?d" "?d < 10" using Suc.prems by (simp_all add: floor_less_iff)
  have n10: "nat ?d < 10" using d by linarith
  then have n: "nat ?d < 10" "show_nat (nat ?d) = [char_of (48 + nat ?d)]" "digit_val (char_of (48 + nat ?d)) = nat ?d"
    by (simp_all only: show_nat_small digit_val_char)
  have g: "0 \<le> ?g" "?g < 1" by linarith+
  show ?case
  proof (cases "?g = 0")
    case True
    then have "of_int ?d = 10 * f" by simp
    moreover have "(of_nat (nat ?d) :: rat) = of_int ?d" using d by simp
    ultimately show ?thesis
      using True n is_digit_char [OF n(1)] by (simp add: Let_def digits_val_Cons digits_val_def)
  next
    case False
    have i: "?g * 10 ^ k = of_int (m - ?d * 10 ^ k)" using Suc.prems(3) by (simp add: algebra_simps)
    have k: "0 < k"
    proof (rule ccontr)
      assume "\<not> 0 < k"
      then have "?g = of_int (m - ?d)" using i by simp
      with g have "0 \<le> (of_int (m - ?d) :: rat)" "(of_int (m - ?d) :: rat) < 1" by simp_all
      then have "m - ?d = 0" by (simp only: of_int_0_le_iff of_int_less_1_iff)
      with \<open>?g = of_int (m - ?d)\<close> False show False by simp
    qed
    let ?r = "show_frac k ?g"
    have IH: "list_all is_digit ?r" "?r \<noteq> []" "of_nat (digits_val ?r) = ?g * 10 ^ length ?r"
      using Suc.IH [OF g i k] by simp_all
    have "(of_nat (nat ?d) :: rat) = of_int ?d" using d by simp
    then have "of_nat (digits_val (char_of (48 + nat ?d) # ?r)) = f * 10 ^ Suc (length ?r)"
      using IH(3) n(3) by (simp add: digits_val_Cons algebra_simps)
    then show ?thesis using IH n False is_digit_char [OF n(1)] by (simp add: Let_def)
  qed
qed simp

lemma py_float_text_show:
  assumes "decimal_ok r"
  shows "py_float_text (show_float r) = Some r"
proof -
  let ?n = "\<lfloor>r\<rfloor>" and ?f = "r - of_int \<lfloor>r\<rfloor>"
  have r: "0 \<le> r" "0 \<le> ?n" "0 \<le> ?f" "?f < 1" using assms by (simp_all add: decimal_ok_def, linarith)
  have "?f * 10 ^ 17 = of_int (\<lfloor>r * 10 ^ 17\<rfloor> - ?n * 10 ^ 17)"
    using assms by (simp add: decimal_ok_def algebra_simps)
  then have f: "list_all is_digit (show_frac 17 ?f)" "of_nat (digits_val (show_frac 17 ?f)) = ?f * 10 ^ length (show_frac 17 ?f)"
    using show_frac_spec [OF r(3,4)] by (metis zero_less_numeral)+
  have t: "show_float r = show_nat (nat ?n) @ CHR ''.'' # show_frac 17 ?f" using r by (simp add: show_float_def Let_def)
  have s: "strip (show_float r) = show_float r"
    using f(1) digit_solid show_nat_digits unfolding t
    by (intro strip_solid) (auto simp: list_all_iff py_isspace_def)
  have h: "hd (show_float r) \<noteq> CHR ''-''" "hd (show_float r) \<noteq> CHR ''+''"
    using show_nat_hd_digit [of "nat ?n"] show_nat_ne [of "nat ?n"] by (auto simp: t is_digit_def)
  have u: "dec_unsigned (show_float r) = Some (digits_val (show_nat (nat ?n) @ show_frac 17 ?f), - int (length (show_frac 17 ?f)))"
    using dec_unsigned_point [of "show_nat (nat ?n)" "show_frac 17 ?f" "[]"] f(1) show_nat_ne
    by (simp add: t dec_exponent_def)
  have "(of_nat (digits_val (show_nat (nat ?n) @ show_frac 17 ?f)) :: rat) = r * 10 ^ length (show_frac 17 ?f)"
    using f(2) r by (simp add: digits_val_append digits_val_show algebra_simps)
  then show ?thesis
    using h u by (simp add: py_float_text_def dec_parse_def s Let_def dec_value_def pow10_def)
qed

subsection \<open>Fields\<close>

lemma dget_fields: "dget (map (\<lambda>(k, v). (k, text_of_field v)) fs) k =
    (case map_of fs k of None \<Rightarrow> PNone | Some v \<Rightarrow> text_of_field v)"
  by (induction fs) (auto simp: dget_def)

lemma has_key_fields: "has_key (map (\<lambda>(k, v). (k, text_of_field v)) fs) k \<longleftrightarrow> map_of fs k \<noteq> None"
  by (induction fs) (auto simp: has_key_def)

lemma dget_or_has: "has_key d k \<Longrightarrow> dget_or d k v = dget d k"
  by (auto simp: dget_or_def dget_def has_key_def)

definition record_ok :: "job_record \<Rightarrow> bool" where
  "record_ok r =
     (jr_id r \<noteq> [] \<and> jr_type r \<noteq> []
      \<and> as_dict (jr_payload r) \<noteq> None \<and> json_ok (jr_payload r)
      \<and> as_dict (jr_metadata r) \<noteq> None \<and> json_ok (jr_metadata r)
      \<and> dt_valid (jr_enqueued r) \<and> pred_option dt_valid (jr_started r) \<and> pred_option dt_valid (jr_completed r)
      \<and> jr_model r \<noteq> Some [] \<and> jr_error r \<noteq> Some [] \<and> decimal_ok (jr_progress r))"

lemma hash_text_dict: "as_dict v \<noteq> None \<Longrightarrow> json_ok v \<Longrightarrow> hash_text v = json_dumps v \<and> hash_text v \<noteq> []"
  using length_dumps_pos [of v] by (cases v) (auto simp: hash_text_def)

lemma hash_text_simps [simp]: "hash_text (PStr s) = s" "hash_text (PBool b) = (if b then ''True'' else ''False'')"
  "hash_text (PFloat r) = show_float r" "hash_text (opt_int None) = []" "hash_text (opt_int (Some i)) = show_int i"
  "hash_text (opt_str None) = []" "hash_text (opt_str (Some s)) = s"
  by (simp_all add: hash_text_def py_str_def opt_int_def opt_str_def)

lemma show_float_ne [simp]: "show_float r \<noteq> []"
  by (simp add: show_float_def show_nat_ne Let_def)

lemma text_of_field_ne [simp]: "v \<noteq> [] \<Longrightarrow> text_of_field v = PStr v"
  by (simp add: text_of_field_def)

lemma int_field_read: "text_of_field (hash_text (opt_int x)) = (case x of None \<Rightarrow> PNone | Some i \<Rightarrow> PStr (show_int i))"
  by (cases x) (simp_all add: text_of_field_def)

lemma time_field_read: "pred_option dt_valid x \<Longrightarrow>
    time_opt (text_of_field (hash_text (opt_str (map_option isoformat x)))) = Some x"
  by (cases x) (simp_all add: text_of_field_def time_opt_def isoformat_roundtrip)

lemma str_field_read: "x \<noteq> Some [] \<Longrightarrow> str_opt (text_of_field (hash_text (opt_str x))) = x"
  by (cases x) (simp_all add: text_of_field_def str_opt_def)

definition int_value :: "string \<Rightarrow> pyval \<Rightarrow> pyval" where
  "int_value k v =
     (case v of
        PNone \<Rightarrow> PNone
      | w \<Rightarrow> (case py_int_text (str_of w) of Some i \<Rightarrow> PInt i | None \<Rightarrow> if starts_with ''actual'' k then PNone else PInt 0))"

lemma dget_with_int: "dget (with_int k d) k' = (if k' = k then int_value k (dget d k) else dget d k')"
  by (simp add: with_int_def int_value_def dget_dset split: pyval.split)

lemma dget_ints: "distinct ks \<Longrightarrow>
    dget (fold with_int ks d) k = (if k \<in> set ks then int_value k (dget d k) else dget d k)"
  by (induction ks arbitrary: d) (auto simp: dget_with_int)

lemma has_key_with_int: "has_key d k' \<Longrightarrow> has_key (with_int k d) k'"
  by (simp add: with_int_def split: pyval.split)

lemma has_key_ints: "has_key d k \<Longrightarrow> has_key (fold with_int ks d) k"
  by (induction ks arbitrary: d) (simp_all add: has_key_with_int)

lemma int_opt_read: "int_opt (int_value k (case x of None \<Rightarrow> PNone | Some i \<Rightarrow> PStr (show_int i))) = x"
  by (cases x) (simp_all add: int_opt_def int_value_def)

lemma INT_FIELDS_distinct: "distinct INT_FIELDS"
  by (simp add: INT_FIELDS_def)

subsection \<open>Records\<close>

lemma mapping_field: "m \<subseteq>\<^sub>m h \<Longrightarrow> m k = Some v \<Longrightarrow> h k = Some v"
  by (metis domI map_le_def)

lemma mapping_fields:
  assumes "map_of (record_to_mapping r) \<subseteq>\<^sub>m h"
  shows "h ''id'' = Some (jr_id r)" "h ''job_type'' = Some (jr_type r)"
    "h ''state'' = Some (state_value (jr_state r))" "h ''priority'' = Some (priority_value (jr_priority r))"
    "h ''payload'' = Some (hash_text (jr_payload r))" "h ''enqueued_at'' = Some (isoformat (jr_enqueued r))"
    "h ''retry_count'' = Some (hash_text (opt_int (jr_retries r)))"
    "h ''started_at'' = Some (hash_text (opt_str (map_option isoformat (jr_started r))))"
    "h ''completed_at'' = Some (hash_text (opt_str (map_option isoformat (jr_completed r))))"
    "h ''estimated_tokens_in'' = Some (hash_text (opt_int (jr_est_in r)))"
    "h ''estimated_tokens_out'' = Some (hash_text (opt_int (jr_est_out r)))"
    "h ''actual_tokens_in'' = Some (hash_text (opt_int (jr_act_in r)))"
    "h ''actual_tokens_out'' = Some (hash_text (opt_int (jr_act_out r)))"
    "h ''requires_llm'' = Some (if jr_llm r then ''True'' else ''False'')"
    "h ''model'' = Some (hash_text (opt_str (jr_model r)))"
    "h ''error_message'' = Some (hash_text (opt_str (jr_error r)))"
    "h ''metadata'' = Some (hash_text (jr_metadata r))" "h ''progress'' = Some (show_float (jr_progress r))"
  by (rule mapping_field [OF assms], simp add: record_to_mapping_def record_to_dict_def)+

lemma record_roundtrip:
  assumes ok: "record_ok r" and fs: "map_of (record_to_mapping r) \<subseteq>\<^sub>m map_of fs"
  shows "mapping_to_record fs = Some r"
proof -
  note o = ok [unfolded record_ok_def]
  note f = mapping_fields [OF fs]
  let ?d = "map (\<lambda>(k, v). (k, text_of_field v)) fs"
  let ?p = "dset ?d ''payload'' (jr_payload r)"
  let ?m = "dset ?p ''metadata'' (jr_metadata r)"
  let ?l = "dset ?m ''requires_llm'' (PBool (jr_llm r))"
  let ?i = "fold with_int INT_FIELDS ?l"
  have js: "json_loads (json_dumps (jr_payload r)) = Some (jr_payload r)"
    "json_loads (json_dumps (jr_metadata r)) = Some (jr_metadata r)"
    using o by (simp_all add: json_roundtrip)
  have ht: "hash_text (jr_payload r) = json_dumps (jr_payload r)" "json_dumps (jr_payload r) \<noteq> []"
    "hash_text (jr_metadata r) = json_dumps (jr_metadata r)" "json_dumps (jr_metadata r) \<noteq> []"
    using o hash_text_dict [of "jr_payload r"] hash_text_dict [of "jr_metadata r"] by auto
  have pay: "with_payload ?d = Some ?p"
    using js by (simp add: with_payload_def dget_fields f ht)
  have meta: "with_metadata ?p = ?m"
    using js by (simp add: with_metadata_def dget_dset dget_fields f ht)
  have low: "lower ''True'' = ''true''" "lower ''False'' = ''false''" by code_simp+
  have llm: "with_llm ?m = ?l"
    by (simp add: with_llm_def dget_dset dget_fields f low)
  define i where "i = ?i"
  have get: "dget ?l k = (if k = ''requires_llm'' then PBool (jr_llm r) else if k = ''metadata'' then jr_metadata r
      else if k = ''payload'' then jr_payload r else dget ?d k)" for k
    by (simp add: dget_dset)
  have int: "dget i k = int_value k (dget ?l k)" if "k \<in> set INT_FIELDS" for k
    using that by (simp add: i_def dget_ints INT_FIELDS_distinct)
  have other: "dget i k = dget ?l k" if "k \<notin> set INT_FIELDS" for k
    using that by (simp add: i_def dget_ints INT_FIELDS_distinct)
  have keys: "has_key i k" if "has_key ?l k" for k
    using that unfolding i_def by (rule has_key_ints)
  have k: "list_all (has_key i) [''id'', ''job_type'', ''state'', ''priority'', ''payload'', ''enqueued_at'']"
    by (simp add: keys has_key_fields f)
  have mem: "''retry_count'' \<in> set INT_FIELDS" "''estimated_tokens_in'' \<in> set INT_FIELDS"
    "''estimated_tokens_out'' \<in> set INT_FIELDS" "''actual_tokens_in'' \<in> set INT_FIELDS" "''actual_tokens_out'' \<in> set INT_FIELDS"
    "''id'' \<notin> set INT_FIELDS" "''job_type'' \<notin> set INT_FIELDS" "''state'' \<notin> set INT_FIELDS" "''priority'' \<notin> set INT_FIELDS"
    "''payload'' \<notin> set INT_FIELDS" "''enqueued_at'' \<notin> set INT_FIELDS" "''started_at'' \<notin> set INT_FIELDS"
    "''completed_at'' \<notin> set INT_FIELDS" "''requires_llm'' \<notin> set INT_FIELDS" "''model'' \<notin> set INT_FIELDS"
    "''error_message'' \<notin> set INT_FIELDS" "''metadata'' \<notin> set INT_FIELDS" "''progress'' \<notin> set INT_FIELDS"
    by (simp_all add: INT_FIELDS_def)
  have ints: "int_opt (dget i ''retry_count'') = jr_retries r" "int_opt (dget i ''estimated_tokens_in'') = jr_est_in r"
    "int_opt (dget i ''estimated_tokens_out'') = jr_est_out r" "int_opt (dget i ''actual_tokens_in'') = jr_act_in r"
    "int_opt (dget i ''actual_tokens_out'') = jr_act_out r"
    by (simp_all add: int mem get dget_fields f int_field_read int_opt_read)
  have hk: "has_key i ''retry_count''" "has_key i ''estimated_tokens_in''" "has_key i ''estimated_tokens_out''"
    "has_key i ''requires_llm''"
    by (rule keys, simp add: has_key_fields f)+
  note has = hk [THEN dget_or_has]
  have times: "time_opt (dget i ''started_at'') = Some (jr_started r)" "time_opt (dget i ''completed_at'') = Some (jr_completed r)"
    using o by (simp_all add: other mem get dget_fields f time_field_read del: hash_text_simps)
  have strs: "str_opt (dget i ''model'') = jr_model r" "str_opt (dget i ''error_message'') = jr_error r"
    using o by (simp_all add: other mem get dget_fields f str_field_read del: hash_text_simps)
  have plain: "dget i ''id'' = PStr (jr_id r)" "dget i ''job_type'' = PStr (jr_type r)"
    "dget i ''state'' = PStr (state_value (jr_state r))" "dget i ''priority'' = PStr (priority_value (jr_priority r))"
    "dget i ''payload'' = jr_payload r" "dget i ''enqueued_at'' = PStr (isoformat (jr_enqueued r))"
    "dget i ''requires_llm'' = PBool (jr_llm r)" "dget i ''metadata'' = jr_metadata r"
    "dget i ''progress'' = PStr (show_float (jr_progress r))"
    using o by (simp_all add: other mem get dget_fields f)
  have md: "py_or (jr_metadata r) (PDict []) = jr_metadata r"
    using o by (cases "jr_metadata r") (auto simp: py_or_def)
  have "record_from_dict i = Some r"
    unfolding record_from_dict_def
    using o by (simp add: k [simplified] ints has times strs plain md isoformat_roundtrip py_float_text_show)
  then show ?thesis by (simp add: mapping_to_record_def pay meta llm i_def)
qed

end
