(* ===== verification/QueueRules.thy ===== *)
theory QueueRules
  imports ProcessorQueue JobRecords
begin

text \<open>
  The job queue over a Redis server that behaves as documented: every operation as a function on
  the server's view, the first-in first-out interface of a pending list, and what the queue
  promises its worker.
\<close>

subsection \<open>Keys\<close>

lemma queue_key_eq [simp]: "queue_key p = queue_key q \<longleftrightarrow> p = q"
  by (simp add: queue_key_def)

lemma job_key_eq [simp]: "job_key i = job_key j \<longleftrightarrow> i = j"
  by (simp add: job_key_def)

subsection \<open>Stored jobs\<close>

definition stored :: "rview \<Rightarrow> string \<Rightarrow> job_record option \<Rightarrow> bool" where
  "stored v jid x =
     (case x of
        None \<Rightarrow> rv_hashes v (job_key jid) = Map.empty
      | Some r \<Rightarrow> record_ok r \<and> jr_id r = jid \<and> map_of (record_to_mapping r) \<subseteq>\<^sub>m rv_hashes v (job_key jid))"

definition put_job :: "job_record \<Rightarrow> rview \<Rightarrow> rview" where
  "put_job r v = after (HSet (job_key (jr_id r)) (record_to_mapping r)) v"

definition push_job :: "job_record \<Rightarrow> rview \<Rightarrow> rview" where
  "push_job r v = after (LPush (queue_key (jr_priority r)) (jr_id r)) (put_job r v)"

definition trimmed :: "rat \<Rightarrow> rview \<Rightarrow> rview" where
  "trimmed ts v =
     after (ZRemByRank RECENT_KEY 0 (- (int RECENT_INDEX_MAX + 1)))
       (after (ZRemByScore RECENT_KEY None (ts - of_int JOB_RECORD_TTL_S)) v)"

definition settled :: "rat \<Rightarrow> job_record \<Rightarrow> rview \<Rightarrow> rview" where
  "settled ts r v =
     trimmed ts (after (ZAdd RECENT_KEY (jr_id r) ts) (after (SRem RUNNING_KEY (jr_id r)) (put_job r v)))"

lemma put_job_simps [simp]: "rv_lists (put_job r v) = rv_lists v" "rv_sets (put_job r v) = rv_sets v"
    "rv_keys (put_job r v) = rv_keys v" "rv_zsets (put_job r v) = rv_zsets v"
    "j \<noteq> jr_id r \<Longrightarrow> rv_hashes (put_job r v) (job_key j) = rv_hashes v (job_key j)"
  by (simp_all add: put_job_def)

lemma trimmed_simps [simp]: "rv_lists (trimmed ts v) = rv_lists v" "rv_sets (trimmed ts v) = rv_sets v"
    "rv_keys (trimmed ts v) = rv_keys v" "rv_hashes (trimmed ts v) = rv_hashes v"
  by (simp_all add: trimmed_def)

lemma mapping_distinct: "distinct (map fst (record_to_mapping r))"
  by (simp add: record_to_mapping_def record_to_dict_def)

lemma stored_put [simp]: "stored (put_job r v) (jr_id r) (Some r) \<longleftrightarrow> record_ok r"
proof -
  have "m \<subseteq>\<^sub>m h ++ m" for m h :: "string \<Rightarrow> string option" by (auto simp: map_le_def map_add_def)
  then show ?thesis by (simp add: stored_def put_job_def map_of_rev_distinct [OF mapping_distinct])
qed

lemma stored_other: "rv_hashes w (job_key j) = rv_hashes v (job_key j) \<Longrightarrow> stored w j x = stored v j x"
  by (simp only: stored_def)

lemma stored_put_other [simp]: "j \<noteq> jr_id r \<Longrightarrow> stored (put_job r v) j x = stored v j x"
  by (rule stored_other) simp

lemma stored_ne: "stored v j (Some r) \<Longrightarrow> rv_hashes v (job_key j) \<noteq> Map.empty \<and> jr_id r = j \<and> record_ok r"
proof -
  assume a: "stored v j (Some r)"
  then have "rv_hashes v (job_key j) ''id'' = Some (jr_id r)" by (intro mapping_fields(1)) (simp add: stored_def)
  with a show ?thesis by (auto simp: stored_def)
qed

subsection \<open>Operations as functions on the view\<close>

lemma returns_load [returns_intros]:
  assumes "serves view R" "stored (view s) jid x" "\<And>s'. view s' = view s \<Longrightarrow> P x s'"
  shows "returns (load_record R jid) s P"
  unfolding load_record_def returns_simps
proof (rule returns_hgetall [OF assms(1)])
  fix fs s'
  assume fs: "map_of fs = rv_hashes (view s) (job_key jid)" and v: "view s' = view s"
  have "(if fs = [] then None else mapping_to_record fs) = x"
  proof (cases x)
    case None
    then have "map_of fs = Map.empty" using fs assms(2) by (simp add: stored_def)
    then show ?thesis using None by simp
  next
    case (Some r)
    then have st: "stored (view s) jid (Some r)" using assms(2) by simp
    then have "map_of (record_to_mapping r) \<subseteq>\<^sub>m map_of fs" "record_ok r"
      unfolding fs by (simp_all only: stored_def option.case)
    then have "mapping_to_record fs = Some r" by (intro record_roundtrip)
    moreover have "fs \<noteq> []" using stored_ne [OF st] fs by fastforce
    ultimately show ?thesis using Some by simp
  qed
  then show "P (if fs = [] then None else mapping_to_record fs) s'" using assms(3) [OF v] by simp
qed

lemma returns_save [returns_intros]:
  assumes "serves view R" "\<And>s'. view s' = put_job r (view s) \<Longrightarrow> P () s'"
  shows "returns (save_record R r) s P"
  unfolding save_record_def returns_simps using assms
  by (intro returns_do [OF assms(1)]) (simp add: put_job_def)

lemma returns_enqueue [returns_intros]:
  assumes "serves view R" "\<And>s'. view s' = push_job r (view s) \<Longrightarrow> P (jr_id r) s'"
  shows "returns (enqueue R r) s P"
  unfolding enqueue_def returns_simps using assms
  by (intro returns_save [OF assms(1)] returns_do [OF assms(1)]) (simp add: push_job_def)

lemma returns_enqueue_job [returns_intros]:
  assumes "serves view R" "\<And>s'. view s' = push_job r (view s) \<Longrightarrow> P (jr_id r) s'"
  shows "returns (enqueue_job R r) s P"
  unfolding enqueue_job_def touch_job_ttl_def returns_simps using assms
  by (intro returns_catch returns_do [OF assms(1)]) (simp add: push_job_def put_job_def)

lemma returns_trim [returns_intros]:
  assumes "serves view R" "\<And>s'. view s' = trimmed ts (view s) \<Longrightarrow> P () s'"
  shows "returns (trim_recent_index R ts) s P"
  unfolding trim_recent_index_def
  by (rule returns_catch, unfold returns_simps, intro returns_do [OF assms(1)], rule assms(2), simp add: trimmed_def)

lemma returns_settle [returns_intros]:
  assumes "serves view R" "jid = jr_id r" "\<And>s'. view s' = settled (timestamp now) r (view s) \<Longrightarrow> P () s'"
  shows "returns (settle R now jid r) s P"
  unfolding settle_def returns_simps using assms
  by (intro returns_save [OF assms(1)] returns_do [OF assms(1)] returns_trim [OF assms(1)]) (simp add: settled_def)

lemma returns_settle_with [returns_intros]:
  assumes "serves view R" "stored (view s) jid x" "\<And>r. jr_id (f r) = jr_id r"
    and "\<And>s'. view s' = (case x of None \<Rightarrow> view s | Some r \<Rightarrow> settled (timestamp now) (f r) (view s)) \<Longrightarrow> P () s'"
  shows "returns (settle_with R now jid f) s P"
  unfolding settle_with_def returns_simps
  by (rule returns_load [OF assms(1,2)], cases x)
    (use assms stored_ne in \<open>auto simp: returns_simps intro!: returns_settle [OF assms(1)]\<close>)

lemma returns_running [returns_intros]:
  assumes "serves view R" "stored (view s) jid (Some r)"
    and "\<And>s'. view s' = after (SAdd RUNNING_KEY jid) (put_job (r\<lparr>jr_state := RUNNING, jr_started := Some now\<rparr>) (view s)) \<Longrightarrow> P () s'"
  shows "returns (mark_running R now jid) s P"
  unfolding mark_running_def returns_simps using assms
  by (intro returns_load [OF assms(1,2)])
    (auto simp: returns_simps intro!: returns_save [OF assms(1)] returns_do [OF assms(1)])

subsection \<open>First in, first out\<close>

text \<open>
  What a user of a queue relies on: \<open>push\<close> appends to the content, \<open>pop\<close> takes its head.
\<close>

locale fifo =
  fixes push :: "'a \<Rightarrow> 'q \<Rightarrow> 'q" and pop :: "'q \<Rightarrow> 'a option \<times> 'q" and content :: "'q \<Rightarrow> 'a list"
  assumes content_push: "content (push x q) = content q @ [x]"
    and pop_empty: "content q = [] \<Longrightarrow> fst (pop q) = None \<and> content (snd (pop q)) = []"
    and pop_head: "content q = x # xs \<Longrightarrow> fst (pop q) = Some x \<and> content (snd (pop q)) = xs"
begin

lemma content_pushes: "content (fold push xs q) = content q @ xs"
  by (induction xs arbitrary: q) (simp_all add: content_push)

lemma content_pop: "content (snd (pop q)) = tl (content q)"
  by (cases "content q") (auto dest: pop_head pop_empty)

lemma fst_pop: "fst (pop q) = (if content q = [] then None else Some (hd (content q)))"
  by (cases "content q") (auto dest: pop_head pop_empty)

end

definition pending :: "priority \<Rightarrow> rview \<Rightarrow> string list" where
  \<comment> \<open>the ids waiting at a priority, the next to leave first\<close>
  "pending p v = rev (rv_lists v (queue_key p))"

definition pop_id :: "priority \<Rightarrow> rview \<Rightarrow> string option \<times> rview" where
  "pop_id p v =
     (if rv_lists v (queue_key p) = [] then None else Some (last (rv_lists v (queue_key p))), after (RPop (queue_key p)) v)"

interpretation ids: fifo "\<lambda>j. after (LPush (queue_key p) j)" "pop_id p" "pending p" for p
  by unfold_locales (auto simp: pending_def pop_id_def rev_eq_Cons_iff butlast_rev [symmetric] split: if_splits)

lemma pending_push_job: "pending p (push_job r v) = (if jr_priority r = p then pending p v @ [jr_id r] else pending p v)"
  by (simp add: push_job_def pending_def)

lemma pending_pop: "pending q (snd (pop_id p v)) = (if p = q then tl (pending q v) else pending q v)"
  using ids.content_pop [of p v] by (cases "p = q") (simp_all add: pop_id_def pending_def)

lemma pop_id_simps [simp]: "rv_hashes (snd (pop_id p v)) = rv_hashes v" "rv_sets (snd (pop_id p v)) = rv_sets v"
    "rv_keys (snd (pop_id p v)) = rv_keys v" "rv_zsets (snd (pop_id p v)) = rv_zsets v"
  by (simp_all add: pop_id_def)

lemma returns_pop:
  assumes "serves view R" "\<And>s'. view s' = snd (pop_id p (view s)) \<Longrightarrow> P (fst (pop_id p (view s))) s'"
  shows "returns (r_text R (RPop (queue_key p))) s P"
  using assms by (intro returns_rpop [OF assms(1)]) (simp add: pop_id_def)

end
