(* ===== verification/QueueOrder.thy ===== *)
theory QueueOrder
  imports QueueRules
begin

text \<open>
  What the queue promises its worker: the order of work, recovery after a crash, settlement, and
  the collapse of duplicates.
\<close>

subsection \<open>Order\<close>

definition enqueue_all :: "'s redis \<Rightarrow> job_record list \<Rightarrow> ('s, string, unit) eff" where
  "enqueue_all R rs = fold_eff (\<lambda>r _. then_eff (enqueue R r) (ret ())) rs ()"

definition drain :: "'s redis \<Rightarrow> nat \<Rightarrow> ('s, string, job_record option list) eff" where
  "drain R n = fold_eff (\<lambda>_ out. bind_eff (dequeue R priority_order) (\<lambda>x. ret (out @ [x]))) [0..<n] []"

definition waiting :: "rview \<Rightarrow> (priority \<Rightarrow> job_record list) \<Rightarrow> bool" where
  \<comment> \<open>the pending lists hold exactly these jobs, and the queue is not paused\<close>
  "waiting v Q \<longleftrightarrow>
     rv_keys v PAUSED_KEY \<noteq> Some ''1''
     \<and> (\<forall>p. pending p v = map jr_id (Q p) \<and> (\<forall>r \<in> set (Q p). stored v (jr_id r) (Some r) \<and> jr_priority r = p))"

definition in_order :: "(priority \<Rightarrow> job_record list) \<Rightarrow> job_record list" where
  "in_order Q = concat (map Q priority_order)"

lemma waitingD: "waiting v Q \<Longrightarrow> r \<in> set (Q p) \<Longrightarrow> stored v (jr_id r) (Some r)"
    "waiting v Q \<Longrightarrow> r \<in> set (Q p) \<Longrightarrow> jr_priority r = p"
    "waiting v Q \<Longrightarrow> pending p v = map jr_id (Q p)"
    "waiting v Q \<Longrightarrow> rv_keys v PAUSED_KEY \<noteq> Some ''1''"
  by (simp_all add: waiting_def)

lemma waitingI: "rv_keys v PAUSED_KEY \<noteq> Some ''1'' \<Longrightarrow> (\<And>p. pending p v = map jr_id (Q p)) \<Longrightarrow>
    (\<And>p r. r \<in> set (Q p) \<Longrightarrow> stored v (jr_id r) (Some r) \<and> jr_priority r = p) \<Longrightarrow> waiting v Q"
  by (simp add: waiting_def)

lemma waiting_push:
  assumes "waiting v Q" "record_ok r" "\<forall>p. jr_id r \<notin> jr_id ` set (Q p)"
  shows "waiting (push_job r v) (Q(jr_priority r := Q (jr_priority r) @ [r]))"
proof -
  have k: "rv_keys (push_job r v) = rv_keys v" by (simp add: push_job_def)
  have h: "stored (push_job r v) j x = stored (put_job r v) j x" for j x by (rule stored_other) (simp add: push_job_def)
  have o: "stored (push_job r v) (jr_id r') (Some r')" if "r' \<in> set (Q p)" for r' p
  proof -
    have "jr_id r' \<noteq> jr_id r" using that assms(3) by (metis imageI)
    then show ?thesis using waitingD(1) [OF assms(1) that] by (simp add: h)
  qed
  show ?thesis
  proof (rule waitingI)
    show "rv_keys (push_job r v) PAUSED_KEY \<noteq> Some ''1''" using k waitingD(4) [OF assms(1)] by simp
    show "pending p (push_job r v) = map jr_id ((Q(jr_priority r := Q (jr_priority r) @ [r])) p)" for p
      using waitingD(3) [OF assms(1)] by (simp add: pending_push_job)
    show "stored (push_job r v) (jr_id r') (Some r') \<and> jr_priority r' = p"
      if "r' \<in> set ((Q(jr_priority r := Q (jr_priority r) @ [r])) p)" for r' p
      using that o h assms(2) waitingD(2) [OF assms(1)] by (auto split: if_splits)
  qed
qed

lemma returns_enqueue_all:
  assumes "serves view R" "waiting (view s) Q" "list_all record_ok rs"
    "distinct (map jr_id rs)" "\<forall>p. \<forall>r \<in> set rs. jr_id r \<notin> jr_id ` set (Q p)"
  shows "returns (enqueue_all R rs) s (\<lambda>_ s'. waiting (view s') (\<lambda>p. Q p @ filter (\<lambda>r. jr_priority r = p) rs))"
  using assms unfolding enqueue_all_def
proof (induction rs arbitrary: s Q)
  case (Cons r rs)
  let ?Q = "Q(jr_priority r := Q (jr_priority r) @ [r])"
  have e: "(\<lambda>p. ?Q p @ filter (\<lambda>r. jr_priority r = p) rs) = (\<lambda>p. Q p @ filter (\<lambda>r. jr_priority r = p) (r # rs))"
    by (auto simp: fun_eq_iff)
  show ?case
    unfolding fold_eff.simps returns_simps
  proof (rule returns_enqueue [OF Cons.prems(1)])
    fix s' assume "view s' = push_job r (view s)"
    then have w: "waiting (view s') ?Q" using waiting_push [of "view s" Q r] Cons.prems by simp
    have f: "\<forall>p. \<forall>r' \<in> set rs. jr_id r' \<notin> jr_id ` set (?Q p)"
      using Cons.prems(4,5) by (auto split: if_splits) (metis imageI)+
    have "returns (fold_eff (\<lambda>r _. then_eff (enqueue R r) (ret ())) rs ()) s'
        (\<lambda>_ s'. waiting (view s') (\<lambda>p. ?Q p @ filter (\<lambda>r. jr_priority r = p) rs))"
      using Cons.prems by (intro Cons.IH w f) auto
    then show "returns (fold_eff (\<lambda>r _. then_eff (enqueue R r) (ret ())) rs ()) s'
        (\<lambda>_ s'. waiting (view s') (\<lambda>p. Q p @ filter (\<lambda>r. jr_priority r = p) (r # rs)))"
      unfolding e .
  qed
qed (simp add: returns_simps)

lemma waiting_pop:
  assumes "waiting v Q" "Q p = r # rs"
  shows "fst (pop_id p v) = Some (jr_id r)" "waiting (snd (pop_id p v)) (Q(p := rs))"
proof -
  have p: "pending p v = jr_id r # map jr_id rs" using assms by (simp add: waiting_def)
  then show "fst (pop_id p v) = Some (jr_id r)" by (simp add: ids.fst_pop)
  have "stored (snd (pop_id p v)) j x = stored v j x" for j x by (rule stored_other) simp
  then have o: "stored (snd (pop_id p v)) (jr_id x) (Some x) \<and> jr_priority x = q" if "x \<in> set ((Q(p := rs)) q)" for x q
    using that assms(2) waitingD(1,2) [OF assms(1), of x q] by (auto split: if_splits)
  show "waiting (snd (pop_id p v)) (Q(p := rs))"
  proof (intro waitingI o)
    show "pending q (snd (pop_id p v)) = map jr_id ((Q(p := rs)) q)" for q
      using waitingD(3) [OF assms(1), of q] assms(2) by (auto simp: pending_pop)
  qed (use waitingD(4) [OF assms(1)] in simp)
qed

lemma waiting_empty_pop:
  assumes "waiting v Q" "Q p = []"
  shows "fst (pop_id p v) = None" "waiting (snd (pop_id p v)) Q"
proof -
  have p: "pending p v = []" using assms by (simp add: waiting_def)
  then show "fst (pop_id p v) = None" by (simp add: ids.fst_pop)
  have "stored (snd (pop_id p v)) j x = stored v j x" for j x by (rule stored_other) simp
  with assms p show "waiting (snd (pop_id p v)) Q"
    by (auto simp: waiting_def pending_pop)
qed

definition kept :: "rview \<Rightarrow> rview \<Rightarrow> bool" where
  "kept v w \<longleftrightarrow> rv_hashes w = rv_hashes v \<and> rv_sets w = rv_sets v"

lemma returns_scan:
  assumes "serves view R" "waiting (view s) Q" "concat (map Q ps) = r # rest" "distinct ps"
  shows "returns (dequeue_scan R ps) s (\<lambda>x s'. x = Some r \<and> kept (view s) (view s') \<and>
    (\<exists>Q'. waiting (view s') Q' \<and> concat (map Q' ps) = rest \<and> (\<forall>p. p \<notin> set ps \<longrightarrow> Q' p = Q p)))"
  using assms(2-4)
proof (induction ps arbitrary: s)
  case (Cons p ps)
  show ?case
    unfolding dequeue_scan.simps returns_simps
  proof (rule returns_pop [OF assms(1)], cases "Q p")
    case Nil
    fix s' assume v: "view s' = snd (pop_id p (view s))"
    note w = waiting_empty_pop [OF Cons.prems(1) Nil]
    have "returns (dequeue_scan R ps) s' (\<lambda>x t. x = Some r \<and> kept (view s') (view t) \<and>
        (\<exists>Q'. waiting (view t) Q' \<and> concat (map Q' ps) = rest \<and> (\<forall>p. p \<notin> set ps \<longrightarrow> Q' p = Q p)))"
      using Cons.prems Nil w v by (intro Cons.IH) simp_all
    then show "returns (case fst (pop_id p (view s)) of None \<Rightarrow> dequeue_scan R ps
        | Some jid \<Rightarrow> if jid \<noteq> [] then load_record R jid else dequeue_scan R ps) s' (\<lambda>x s'. x = Some r \<and> kept (view s) (view s') \<and>
        (\<exists>Q'. waiting (view s') Q' \<and> concat (map Q' (p # ps)) = rest \<and> (\<forall>q. q \<notin> set (p # ps) \<longrightarrow> Q' q = Q q)))"
      unfolding w option.case by (rule returns_mono) (use Nil Cons.prems v in \<open>auto simp: kept_def\<close>)
  next
    case (Cons r' rs)
    fix s' assume v: "view s' = snd (pop_id p (view s))"
    note w = waiting_pop [OF Cons.prems(1) Cons]
    have r': "r' = r" "rest = rs @ concat (map Q ps)" using Cons.prems(2) Cons by simp_all
    have "stored (view s') (jr_id r) (Some r) = stored (view s) (jr_id r) (Some r)"
      by (rule stored_other) (simp add: v)
    moreover have "r \<in> set (Q p)" using Cons r' by simp
    ultimately have st: "stored (view s') (jr_id r) (Some r)"
      using waitingD(1) [OF Cons.prems(1)] by simp
    have n: "jr_id r \<noteq> []" using stored_ne [OF st] by (simp add: record_ok_def)
    have m: "map (Q(p := rs)) ps = map Q ps" using Cons.prems(3) by (intro map_cong) auto
    have c: "concat (map (Q(p := rs)) (p # ps)) = rest"
      unfolding list.map concat.simps m using r' by simp
    have "returns (load_record R (jr_id r)) s' (\<lambda>x s'. x = Some r \<and> kept (view s) (view s') \<and>
        (\<exists>Q'. waiting (view s') Q' \<and> concat (map Q' (p # ps)) = rest \<and> (\<forall>q. q \<notin> set (p # ps) \<longrightarrow> Q' q = Q q)))"
      by (rule returns_load [OF assms(1) st], intro conjI refl exI [of _ "Q(p := rs)"])
        (use w(2) v c in \<open>simp_all add: kept_def\<close>)
    then show "returns (case fst (pop_id p (view s)) of None \<Rightarrow> dequeue_scan R ps
        | Some jid \<Rightarrow> if jid \<noteq> [] then load_record R jid else dequeue_scan R ps) s' (\<lambda>x s'. x = Some r \<and> kept (view s) (view s') \<and>
        (\<exists>Q'. waiting (view s') Q' \<and> concat (map Q' (p # ps)) = rest \<and> (\<forall>q. q \<notin> set (p # ps) \<longrightarrow> Q' q = Q q)))"
      using n unfolding w(1) option.case r' by (simp only: if_True not_False_eq_True)
  qed
qed simp

lemma dequeue_next:
  assumes "serves view R" "waiting (view s) Q" "in_order Q = r # rest"
  shows "returns (dequeue R priority_order) s (\<lambda>x s'. x = Some r \<and> kept (view s) (view s') \<and> (\<exists>Q'. waiting (view s') Q' \<and> in_order Q' = rest))"
  unfolding dequeue_def is_paused_def returns_simps
proof (rule returns_get [OF assms(1)])
  fix s' assume v: "view s' = view s"
  then have "rv_keys (view s) PAUSED_KEY \<noteq> Some ''1''" "waiting (view s') Q" using assms(2) waitingD(4) by auto
  then have "returns (dequeue_scan R priority_order) s' (\<lambda>x t. x = Some r \<and> kept (view s') (view t) \<and>
      (\<exists>Q'. waiting (view t) Q' \<and> concat (map Q' priority_order) = rest \<and> (\<forall>p. p \<notin> set priority_order \<longrightarrow> Q' p = Q p)))"
    using assms by (intro returns_scan) (simp_all add: in_order_def priority_order_def)
  then have "returns (dequeue_scan R priority_order) s' (\<lambda>x s'. x = Some r \<and> kept (view s) (view s') \<and> (\<exists>Q'. waiting (view s') Q' \<and> in_order Q' = rest))"
    by (rule returns_mono) (use v in \<open>auto simp: in_order_def\<close>)
  then show "returns (if rv_keys (view s) PAUSED_KEY = Some ''1'' then ret None else dequeue_scan R priority_order) s'
      (\<lambda>x s'. x = Some r \<and> kept (view s) (view s') \<and> (\<exists>Q'. waiting (view s') Q' \<and> in_order Q' = rest))"
    using \<open>rv_keys (view s) PAUSED_KEY \<noteq> Some ''1''\<close> by simp
qed

lemma returns_drain_loop:
  assumes "serves view R" "waiting (view s) Q" "length ns \<le> length (in_order Q)"
  shows "returns (fold_eff (\<lambda>_ out. bind_eff (dequeue R priority_order) (\<lambda>x. ret (out @ [x]))) ns out) s
    (\<lambda>xs s'. xs = out @ map Some (take (length ns) (in_order Q))
      \<and> (\<exists>Q'. waiting (view s') Q' \<and> in_order Q' = drop (length ns) (in_order Q)))"
  using assms(2,3)
proof (induction ns arbitrary: s Q out)
  case (Cons n ns)
  then obtain r rest where q: "in_order Q = r # rest" by (cases "in_order Q") auto
  show ?case
    unfolding fold_eff.simps returns_simps
  proof (rule returns_mono [OF dequeue_next [OF assms(1) Cons.prems(1) q]], elim conjE exE)
    fix x s' Q' assume x: "x = Some r" and Q': "waiting (view s') Q'" "in_order Q' = rest"
    show "returns (fold_eff (\<lambda>_ out. bind_eff (dequeue R priority_order) (\<lambda>x. ret (out @ [x]))) ns (out @ [x])) s'
        (\<lambda>xs s'. xs = out @ map Some (take (length (n # ns)) (in_order Q))
          \<and> (\<exists>Q'. waiting (view s') Q' \<and> in_order Q' = drop (length (n # ns)) (in_order Q)))"
      by (rule returns_mono [OF Cons.IH [OF Q'(1)]]) (use Cons.prems q Q'(2) x in auto)
  qed
qed (auto simp: returns_simps)

text \<open>
  C12. Work leaves the queue by priority and, within a priority, in the order it came: whatever jobs
  are enqueued into an empty, running queue, as many dequeues return exactly those jobs, each read
  back from Redis as it was written, and leave nothing pending.
\<close>
theorem work_in_order:
  assumes "serves view R" "\<forall>p. pending p (view s) = []" "rv_keys (view s) PAUSED_KEY \<noteq> Some ''1''"
    and "list_all record_ok rs" "distinct (map jr_id rs)"
  shows "returns (then_eff (enqueue_all R rs) (drain R (length rs))) s
    (\<lambda>out s'. out = map Some (filter (\<lambda>r. jr_priority r = HIGH) rs @ filter (\<lambda>r. jr_priority r = MEDIUM) rs
                  @ filter (\<lambda>r. jr_priority r = LOW) rs)
       \<and> (\<forall>p. pending p (view s') = []))"
proof -
  let ?Q = "\<lambda>p. filter (\<lambda>r. jr_priority r = p) rs"
  have w: "waiting (view s) (\<lambda>_. [])" using assms(2,3) by (simp add: waiting_def)
  have l: "length (in_order ?Q) = length rs"
    unfolding in_order_def priority_order_def
    by (induction rs) (auto, metis priority.exhaust)
  show ?thesis
    unfolding returns_simps
  proof (rule returns_mono [OF returns_enqueue_all [OF assms(1) w assms(4,5)]])
    fix a s' assume "waiting (view s') (\<lambda>p. [] @ ?Q p)"
    then have w': "waiting (view s') ?Q" by simp
    have n: "length [0..<length rs] \<le> length (in_order ?Q)" using l by simp
    show "returns (drain R (length rs)) s' (\<lambda>out s'. out = map Some (?Q HIGH @ ?Q MEDIUM @ ?Q LOW) \<and> (\<forall>p. pending p (view s') = []))"
      unfolding drain_def
    proof (rule returns_mono [OF returns_drain_loop [OF assms(1) w' n]], elim conjE exE, intro conjI allI)
      fix out s2 Q' p
      assume "out = [] @ map Some (take (length [0..<length rs]) (in_order ?Q))"
      then show "out = map Some (?Q HIGH @ ?Q MEDIUM @ ?Q LOW)"
        using l by (simp add: in_order_def priority_order_def)
      assume "waiting (view s2) Q'" "in_order Q' = drop (length [0..<length rs]) (in_order ?Q)"
      then show "pending p (view s2) = []"
        using l waitingD(3) [of "view s2" Q' p] by (cases p) (auto simp: in_order_def priority_order_def)
    qed
  qed simp
qed

end
