(* ===== verification/QueueSafety.thy ===== *)
theory QueueSafety
  imports QueueOrder
begin

text \<open>
  Recovery after a crash, settlement of jobs, collapse of duplicates, and the behaviour of the queue
  when Redis fails or a record has expired.
\<close>

subsection \<open>Recovery\<close>

definition orphan :: "(string \<Rightarrow> job_record option) \<Rightarrow> string \<Rightarrow> bool" where
  "orphan jobs j = (case jobs j of None \<Rightarrow> False | Some r \<Rightarrow> jr_state r = RUNNING)"

definition requeued :: "job_record \<Rightarrow> job_record" where
  "requeued r = r\<lparr>jr_state := PENDING, jr_started := None\<rparr>"

lemma requeued_simps [simp]: "jr_id (requeued r) = jr_id r" "jr_priority (requeued r) = jr_priority r"
    "jr_state (requeued r) = PENDING" "record_ok r \<Longrightarrow> record_ok (requeued r)"
  by (simp_all add: requeued_def record_ok_def)

definition recovered :: "string \<Rightarrow> job_record option \<Rightarrow> rview \<Rightarrow> rview" where
  "recovered j x v =
     after (SRem RUNNING_KEY j)
       (case x of None \<Rightarrow> v | Some r \<Rightarrow> if jr_state r = RUNNING then push_job (requeued r) v else v)"

lemma returns_recover_one:
  assumes "serves view R" "stored (view s) j x"
    and "\<And>s'. view s' = recovered j x (view s) \<Longrightarrow>
      P (acc @ (case x of None \<Rightarrow> [] | Some r \<Rightarrow> if jr_state r = RUNNING then [j] else [])) s'"
  shows "returns (recover_one R j acc) s P"
  unfolding recover_one_def returns_simps
proof (rule returns_load [OF assms(1,2)], cases x)
  case None
  fix s' assume "view s' = view s"
  with None show "returns (case x of None \<Rightarrow> then_eff (r_do R (SRem RUNNING_KEY j)) (ret acc) | Some r \<Rightarrow>
        if jr_state r = RUNNING then
          then_eff (save_record R (r\<lparr>jr_state := PENDING, jr_started := None\<rparr>))
            (then_eff (r_do R (LPush (queue_key (jr_priority r)) j))
              (then_eff (r_do R (SRem RUNNING_KEY j)) (ret (acc @ [j]))))
        else then_eff (r_do R (SRem RUNNING_KEY j)) (ret acc)) s' P"
    using assms(3) by (auto simp: returns_simps recovered_def intro!: returns_do [OF assms(1)])
next
  case (Some r)
  fix s' assume v: "view s' = view s"
  have j: "jr_id r = j" using assms(2) Some stored_ne by blast
  show "returns (case x of None \<Rightarrow> then_eff (r_do R (SRem RUNNING_KEY j)) (ret acc) | Some r \<Rightarrow>
        if jr_state r = RUNNING then
          then_eff (save_record R (r\<lparr>jr_state := PENDING, jr_started := None\<rparr>))
            (then_eff (r_do R (LPush (queue_key (jr_priority r)) j))
              (then_eff (r_do R (SRem RUNNING_KEY j)) (ret (acc @ [j]))))
        else then_eff (r_do R (SRem RUNNING_KEY j)) (ret acc)) s' P"
    using assms(3) Some v j
    by (cases "jr_state r = RUNNING")
      (auto simp: returns_simps recovered_def push_job_def requeued_def
        intro!: returns_do [OF assms(1)] returns_save [OF assms(1)])
qed

lemma recovered_simps: "rv_sets (recovered j x v) RUNNING_KEY = rv_sets v RUNNING_KEY - {j}"
    "rv_keys (recovered j x v) = rv_keys v"
    "stored v j (Some r) \<Longrightarrow> jr_state r = RUNNING \<Longrightarrow>
       pending p (recovered j (Some r) v) = (if jr_priority r = p then pending p v @ [j] else pending p v)"
    "(case x of None \<Rightarrow> True | Some r \<Rightarrow> jr_state r \<noteq> RUNNING) \<Longrightarrow> pending p (recovered j x v) = pending p v"
  using stored_ne [of v j r]
  by (auto simp: recovered_def push_job_def pending_def split: option.split)

lemma recovered_hash: "stored v j x \<Longrightarrow> i \<noteq> j \<or> (case x of None \<Rightarrow> True | Some r \<Rightarrow> jr_state r \<noteq> RUNNING) \<Longrightarrow>
    rv_hashes (recovered j x v) (job_key i) = rv_hashes v (job_key i)"
  using stored_ne [of v j] by (fastforce simp: recovered_def push_job_def split: option.split)

lemma recovered_job: "stored v j (Some r) \<Longrightarrow> jr_state r = RUNNING \<Longrightarrow> stored (recovered j (Some r) v) j (Some (requeued r))"
proof -
  assume a: "stored v j (Some r)" "jr_state r = RUNNING"
  have h: "rv_hashes (recovered j (Some r) v) (job_key j) = rv_hashes (put_job (requeued r) v) (job_key j)"
    using a(2) by (simp add: recovered_def push_job_def)
  have "stored (put_job (requeued r) v) (jr_id (requeued r)) (Some (requeued r))"
    using stored_ne [OF a(1)] stored_put [of "requeued r" v] by (blast intro: requeued_simps)
  moreover have "jr_id (requeued r) = j" using stored_ne [OF a(1)] by simp
  ultimately show ?thesis using stored_other [OF h] by metis
qed

definition requeues :: "(string \<Rightarrow> job_record option) \<Rightarrow> rview \<Rightarrow> string list \<Rightarrow> rview \<Rightarrow> bool" where
  \<comment> \<open>these jobs, and no other, went back to the end of the list of their priority\<close>
  "requeues jobs v ids w \<longleftrightarrow>
     (\<forall>p. pending p w = pending p v @ filter (\<lambda>j. map_option jr_priority (jobs j) = Some p) ids)
     \<and> (\<forall>j \<in> set ids. stored w j (map_option requeued (jobs j)))
     \<and> (\<forall>j. j \<notin> set ids \<longrightarrow> rv_hashes w (job_key j) = rv_hashes v (job_key j))"

lemma requeues_one:
  assumes "stored v j (jobs j)"
  shows "requeues jobs v (filter (orphan jobs) [j]) (recovered j (jobs j) v)"
proof (cases "jobs j")
  case None
  then show ?thesis using recovered_simps(4) [of None] recovered_hash [of v j None] assms by (simp add: requeues_def orphan_def)
next
  case (Some r)
  then show ?thesis
    using assms recovered_simps(3) [of v j r] recovered_simps(4) [of "Some r" _ j v] recovered_hash [of v j "Some r"]
      recovered_job [of v j r]
    by (cases "jr_state r = RUNNING") (auto simp: requeues_def orphan_def)
qed

lemma requeues_trans:
  assumes "requeues jobs u is v" "requeues jobs v js w" "set is \<inter> set js = {}"
  shows "requeues jobs u (is @ js) w"
proof -
  have "stored w j x = stored v j x" if "j \<in> set is" for j x
    using assms that by (intro stored_other) (auto simp: requeues_def)
  then show ?thesis using assms by (auto simp: requeues_def)
qed

lemma recover_fold:
  assumes "serves view R" "\<forall>j \<in> set js. stored (view s) j (jobs j)" "distinct js"
  shows "returns (fold_eff (recover_one R) js acc) s (\<lambda>ids s'.
    ids = acc @ filter (orphan jobs) js
    \<and> rv_sets (view s') RUNNING_KEY = rv_sets (view s) RUNNING_KEY - set js
    \<and> requeues jobs (view s) (filter (orphan jobs) js) (view s'))"
  using assms(2,3)
proof (induction js arbitrary: s acc)
  case (Cons j js)
  let ?one = "case jobs j of None \<Rightarrow> [] | Some r \<Rightarrow> if jr_state r = RUNNING then [j] else []"
  have st: "stored (view s) j (jobs j)" using Cons.prems by simp
  have one: "?one = filter (orphan jobs) [j]" by (auto simp: orphan_def split: option.split)
  show ?case
    unfolding fold_eff.simps returns_simps
  proof (rule returns_recover_one [OF assms(1) st])
    fix s' assume v: "view s' = recovered j (jobs j) (view s)"
    have q: "requeues jobs (view s) (filter (orphan jobs) [j]) (view s')" using requeues_one [of "view s" j jobs] st v by simp
    have "\<forall>i \<in> set js. stored (view s') i (jobs i)"
    proof
      fix i assume i: "i \<in> set js"
      then have "stored (view s') i (jobs i) = stored (view s) i (jobs i)"
        using Cons.prems(2) q by (intro stored_other, cases "orphan jobs j") (auto simp: requeues_def)
      with i Cons.prems(1) show "stored (view s') i (jobs i)" by simp
    qed
    note IH = Cons.IH [OF this, of "acc @ ?one"]
    have rs: "rv_sets (view s') RUNNING_KEY = rv_sets (view s) RUNNING_KEY - {j}" by (simp add: v recovered_simps)
    show "returns (fold_eff (recover_one R) js (acc @ ?one)) s'
      (\<lambda>ids s'. ids = acc @ filter (orphan jobs) (j # js)
        \<and> rv_sets (view s') RUNNING_KEY = rv_sets (view s) RUNNING_KEY - set (j # js)
        \<and> requeues jobs (view s) (filter (orphan jobs) (j # js)) (view s'))"
    proof (rule returns_mono [OF IH])
      show "distinct js" using Cons.prems(2) by simp
    next
      fix ids t
      assume r: "ids = (acc @ ?one) @ filter (orphan jobs) js
        \<and> rv_sets (view t) RUNNING_KEY = rv_sets (view s') RUNNING_KEY - set js
        \<and> requeues jobs (view s') (filter (orphan jobs) js) (view t)"
      have "requeues jobs (view s) (filter (orphan jobs) [j] @ filter (orphan jobs) js) (view t)"
        using r q Cons.prems(2) by (intro requeues_trans [OF q]) auto
      moreover have "filter (orphan jobs) (j # js) = filter (orphan jobs) [j] @ filter (orphan jobs) js" by simp
      moreover have "rv_sets (view t) RUNNING_KEY = rv_sets (view s) RUNNING_KEY - set (j # js)" using r rs by auto
      ultimately show "ids = acc @ filter (orphan jobs) (j # js)
        \<and> rv_sets (view t) RUNNING_KEY = rv_sets (view s) RUNNING_KEY - set (j # js)
        \<and> requeues jobs (view s) (filter (orphan jobs) (j # js)) (view t)"
        using r unfolding one by (simp only: append_assoc simp_thms)
    qed
  qed
qed (simp add: returns_simps requeues_def)

text \<open>
  C14. Recovery: whatever jobs a dead worker left in the running set, recovery empties the set, puts
  exactly those that were running back at the end of the list of their priority as pending jobs,
  reports them, and changes no other job.
\<close>
theorem recovery_requeues:
  assumes "serves view R" "\<forall>j \<in> rv_sets (view s) RUNNING_KEY. stored (view s) j (jobs j)"
  shows "returns (recover_orphaned_running R) s (\<lambda>ids s'.
    rv_sets (view s') RUNNING_KEY = {} \<and> distinct ids
    \<and> set ids = {j \<in> rv_sets (view s) RUNNING_KEY. orphan jobs j} \<and> requeues jobs (view s) ids (view s'))"
  unfolding recover_orphaned_running_def returns_simps
proof (rule returns_smembers [OF assms(1)])
  fix js s' assume a: "view s' = view s" "distinct js" "set js = rv_sets (view s) RUNNING_KEY"
  then have "\<forall>j \<in> set js. stored (view s') j (jobs j)" using assms(2) by simp
  then show "returns (fold_eff (recover_one R) js []) s' (\<lambda>ids s'.
    rv_sets (view s') RUNNING_KEY = {} \<and> distinct ids
    \<and> set ids = {j \<in> rv_sets (view s) RUNNING_KEY. orphan jobs j} \<and> requeues jobs (view s) ids (view s'))"
    by (rule returns_mono [OF recover_fold [OF assms(1) _ a(2)]]) (use a in auto)
qed

subsection \<open>Settlement\<close>

lemma drop_ranks_bound: "length (drop_ranks 0 (- (int m + 1)) z) \<le> m"
proof (cases "length z \<le> m")
  case False
  then have "nat (int (length z) - (int m + 1) + 1) = length z - m" by simp
  with False show ?thesis by (simp add: drop_ranks_def Let_def)
qed (simp add: drop_ranks_def Let_def)

lemma trimmed_bound: "length (rv_zsets (trimmed ts v) RECENT_KEY) \<le> RECENT_INDEX_MAX"
  using drop_ranks_bound by (simp add: trimmed_def)

definition ended :: "('s \<Rightarrow> rview) \<Rightarrow> 's \<Rightarrow> job_state \<Rightarrow> job_record \<Rightarrow> 's \<Rightarrow> bool" where
  \<comment> \<open>the job is stored as this record in this state, is not running, and nothing else is\<close>
  "ended view s st r s' \<longleftrightarrow>
     stored (view s') (jr_id r) (Some r) \<and> jr_state r = st
     \<and> rv_sets (view s') RUNNING_KEY = rv_sets (view s) RUNNING_KEY - {jr_id r}
     \<and> length (rv_zsets (view s') RECENT_KEY) \<le> RECENT_INDEX_MAX
     \<and> rv_lists (view s') = rv_lists (view s)
     \<and> (\<forall>j. j \<noteq> jr_id r \<longrightarrow> rv_hashes (view s') (job_key j) = rv_hashes (view s) (job_key j))"

lemma ended_settled:
  assumes "view s' = settled ts r (view s)" "record_ok r"
  shows "ended view s (jr_state r) r s'"
proof -
  have h: "rv_hashes (view s') = rv_hashes (put_job r (view s))" using assms(1) by (simp add: settled_def)
  have "stored (view s') (jr_id r) (Some r)"
    using assms(2) stored_other [of "view s'" "jr_id r" "put_job r (view s)"] h by simp
  then show ?thesis using assms(1) h trimmed_bound by (simp add: ended_def settled_def)
qed

text \<open>
  A job that ends is stored in its terminal state with its result or error, leaves the running
  set, changes neither the pending lists nor another job, and the index of recent jobs never grows
  beyond its bound.
\<close>
theorem settling_ends_job:
  assumes "serves view R" "stored (view s) jid (Some r)" "dt_valid now"
    and "as_dict (js_metadata res) \<noteq> None" "json_ok (js_metadata res)" "msg \<noteq> []"
  shows "returns (mark_completed R now jid res) s (\<lambda>_. ended view s COMPLETED (completed_record now res r))
    \<and> returns (mark_held R now jid res) s (\<lambda>_. ended view s HELD (held_record now res r))
    \<and> returns (mark_failed R now jid msg) s (\<lambda>_. ended view s FAILED (failed_record now msg r))"
proof -
  have ok: "record_ok r" and md: "py_or (js_metadata res) (PDict []) = js_metadata res"
    using stored_ne [OF assms(2)] assms(4) by (auto simp: py_or_def) (cases "js_metadata res", auto)
  have d: "decimal_ok 1" by (simp add: decimal_ok_def)
  have e: "returns (settle_with R now jid f) s (\<lambda>_. ended view s st (f r))"
    if "record_ok (f r)" "jr_state (f r) = st" "\<And>r. jr_id (f r) = jr_id r" for f st
    using ended_settled [of view _ "timestamp now" "f r" s] that
    by (intro returns_settle_with [OF assms(1,2)]) auto
  show ?thesis
    unfolding mark_completed_def mark_held_def mark_failed_def using ok assms(3-6) d
    by (intro conjI e) (simp_all add: completed_record_def held_record_def failed_record_def record_ok_def md)
qed

text \<open>
  C33. A job is read back as it was enqueued: whatever its payload, its clock readings and its
  optional fields, the record that \<^verbatim>\<open>get\<close> rebuilds from the strings of the Redis hash equals the record
  that was stored, also over the fields of an older record of the same id.
\<close>
theorem enqueued_job_read_back:
  assumes "serves view R" "record_ok r"
  shows "returns (then_eff (enqueue R r) (get_job R (jr_id r))) s (\<lambda>x _. x = Some r)"
  unfolding returns_simps get_job_def
proof (rule returns_enqueue [OF assms(1)])
  fix s' assume v: "view s' = push_job r (view s)"
  have "stored (put_job r (view s)) (jr_id r) (Some r)" using assms(2) by simp
  then have "stored (view s') (jr_id r) (Some r)"
    using stored_other [of "view s'" "jr_id r" "put_job r (view s)"] by (simp add: v push_job_def)
  then show "returns (load_record R (jr_id r)) s' (\<lambda>x _. x = Some r)" by (rule returns_load [OF assms(1)]) simp
qed

end
