(* ===== verification/QueueFaults.thy ===== *)
theory QueueFaults
  imports QueueSafety
begin

text \<open>
  Duplicate collapse, and what the queue does when Redis fails, when a record has expired and when
  the worker dies between taking a job and marking it as running.
\<close>

subsection \<open>Duplicates\<close>

definition pruned :: "string \<Rightarrow> string \<Rightarrow> pydatetime \<Rightarrow> rview \<Rightarrow> rview" where
  "pruned jid key now v =
     trimmed (timestamp now)
       (after (ZAdd RECENT_KEY jid (timestamp now))
         (after (HSet (job_key jid)
                   [(''state'', state_value FAILED), (''completed_at'', isoformat now), (''error_message'', STALE_MESSAGE)])
           (after (LRem key jid) v)))"

lemma returns_prune:
  assumes "serves view R" "\<And>s'. view s' = pruned jid key now (view s) \<Longrightarrow> P () s'"
  shows "returns (prune_stale_pending R now jid key) s P"
  unfolding prune_stale_pending_def
  by (rule returns_catch, unfold returns_simps)
    (intro returns_do [OF assms(1)] returns_trim [OF assms(1)] assms(2), simp add: pruned_def)

lemma pruned_pending: "set (pending p (pruned jid key now v)) \<subseteq> set (pending p v)"
  by (auto simp: pruned_def pending_def)

lemma payload_match_whole: "payload_match (Some w) None raw =
    Inr (case (case raw of None \<Rightarrow> Some (PDict []) | Some t \<Rightarrow> if t = [] then Some (PDict []) else json_loads t) of
      None \<Rightarrow> False | Some v \<Rightarrow> py_eq v w)"
  by (auto simp: payload_match_def split: option.split)

definition active :: "rview \<Rightarrow> string \<Rightarrow> job_record \<Rightarrow> string \<Rightarrow> pyval \<Rightarrow> bool" where
  \<comment> \<open>what the scan reads of this record: a job of this type, enqueued then, with this payload\<close>
  "active v jid r ty w \<longleftrightarrow>
     rv_hashes v (job_key jid) ''job_type'' = Some ty
     \<and> rv_hashes v (job_key jid) ''enqueued_at'' = Some (isoformat (jr_enqueued r))
     \<and> payload_match (Some w) None (rv_hashes v (job_key jid) ''payload'') = Inr True"

definition fresh :: "int \<Rightarrow> (nat \<Rightarrow> pydatetime) \<Rightarrow> job_record \<Rightarrow> bool" where
  "fresh ttl clk r \<longleftrightarrow> (\<forall>n. \<not> is_stale_pending ttl (clk n) (Some (isoformat (jr_enqueued r))))"

lemma pruned_active: "active v i r ty w \<Longrightarrow> active (pruned jid key now v) i r ty w"
  by (cases "i = jid") (simp_all add: active_def pruned_def)

lemma stored_active:
  assumes "stored v jid (Some r)" "jr_type r = ty" "py_eq (jr_payload r) w"
  shows "active v jid r ty w"
proof -
  have m: "map_of (record_to_mapping r) \<subseteq>\<^sub>m rv_hashes v (job_key jid)" and ok: "record_ok r"
    using assms by (simp_all add: stored_def)
  note f = mapping_fields [OF m]
  have "hash_text (jr_payload r) = json_dumps (jr_payload r)" "json_dumps (jr_payload r) \<noteq> []"
    using ok hash_text_dict [of "jr_payload r"] by (auto simp: record_ok_def)
  moreover have "json_loads (json_dumps (jr_payload r)) = Some (jr_payload r)"
    using ok by (simp add: record_ok_def json_roundtrip)
  ultimately show ?thesis using assms f by (simp add: payload_match_whole active_def)
qed

lemma scan_finds:
  assumes "serves view R" "active (view s) jid r ty w"
    and "(jid, None) \<in> set items \<or> jid \<in> fst ` set items \<and> fresh ttl clk r"
  shows "returns (scan_active R ttl clk ty (Some w) None n items) s
    (\<lambda>x s'. x \<noteq> None \<and> (\<forall>p. set (pending p (view s')) \<subseteq> set (pending p (view s))))"
  using assms(2,3)
proof (induction items arbitrary: s n)
  case (Cons item items)
  obtain j key where item: "item = (j, key)" by (cases item)
  let ?h = "rv_hashes (view s) (job_key j)"
  let ?Q = "\<lambda>x s'. x \<noteq> None \<and> (\<forall>p. set (pending p (view s')) \<subseteq> set (pending p (view s)))"
  let ?next = "scan_active R ttl clk ty (Some w) None (Suc n) items"
  let ?left = "(jid, None) \<in> set items \<or> jid \<in> fst ` set items \<and> fresh ttl clk r"
  have skip: "returns ?next t ?Q" if "view t = view s" ?left for t
    using Cons.IH [of t "Suc n"] Cons.prems that by auto
  have prune: "returns (then_eff (prune_stale_pending R now j k) ?next) t ?Q" if "view t = view s" ?left for t k now
    unfolding returns_simps
  proof (rule returns_prune [OF assms(1)])
    fix t' assume v: "view t' = pruned j k now (view t)"
    have "active (view t') jid r ty w" using Cons.prems(1) that(1) by (simp add: v pruned_active)
    then have "returns ?next t' (\<lambda>x s'. x \<noteq> None \<and> (\<forall>p. set (pending p (view s')) \<subseteq> set (pending p (view t'))))"
      using Cons.IH that(2) by blast
    then show "returns ?next t' ?Q"
      by (rule returns_mono) (use v that(1) pruned_pending in \<open>fastforce simp: v\<close>)
  qed
  show ?case
    unfolding item scan_active.simps returns_simps
  proof (rule returns_hmget [OF assms(1)])
    fix t assume v: "view t = view s"
    have here: "?h ''job_type'' = Some ty" "?h ''enqueued_at'' = Some (isoformat (jr_enqueued r))"
        "payload_match (Some w) None (?h ''payload'') = Inr True" if "jid = j"
      using Cons.prems(1) that by (simp_all add: active_def)
    have left: ?left if "jid \<noteq> j \<or> key \<noteq> None \<and> is_stale_pending ttl (clk (2 * n)) (Some (isoformat (jr_enqueued r)))"
      using Cons.prems(2) that by (auto simp: item fresh_def)
    show "returns (case map ?h [''job_type'', ''payload'', ''enqueued_at''] of
          [stored_type, stored_payload, enqueued] \<Rightarrow>
            if stored_type \<noteq> Some ty then ?next
            else (case payload_match (Some w) None stored_payload of
                    Inl e \<Rightarrow> raise_exc e
                  | Inr False \<Rightarrow> ?next
                  | Inr True \<Rightarrow>
                      (case key of
                         None \<Rightarrow> ret (Some j)
                       | Some k \<Rightarrow>
                           if is_stale_pending ttl (clk (2 * n)) enqueued
                           then then_eff (prune_stale_pending R (clk (2 * n + 1)) j k) ?next
                           else ret (Some j)))
        | _ \<Rightarrow> raise_exc ''ValueError'') t ?Q"
    proof (cases "jid = j")
      case True
      with here prune [OF v left] v show ?thesis by (auto simp: returns_simps split: option.split)
    next
      case False
      with skip [OF v left] prune [OF v left] v show ?thesis
        by (simp add: payload_match_whole returns_simps split: option.split bool.split)
    qed
  qed
qed simp

lemma returns_pending:
  assumes "serves view R" "\<And>s'. view s' = view s \<Longrightarrow>
    P (concat (map (\<lambda>p. map (\<lambda>j. (j, Some (queue_key p))) (rv_lists (view s) (queue_key p))) priority_order)) s'"
  shows "returns (pending_ids R) s P"
proof -
  have loop: "returns (fold_eff (\<lambda>p acc. bind_eff (r_texts R (LRange (queue_key p)))
      (\<lambda>js. ret (acc @ map (\<lambda>j. (j, Some (queue_key p))) js))) ps acc) t P"
    if "\<And>t'. view t' = view t \<Longrightarrow>
      P (acc @ concat (map (\<lambda>p. map (\<lambda>j. (j, Some (queue_key p))) (rv_lists (view t) (queue_key p))) ps)) t'" for ps acc t
    using that
  proof (induction ps arbitrary: acc t)
    case (Cons p ps)
    show ?case
      unfolding fold_eff.simps returns_simps
      by (rule returns_lrange [OF assms(1)], rule Cons.IH) (use Cons.prems in simp)
  qed (simp add: returns_simps)
  show ?thesis unfolding pending_ids_def by (rule loop) (use assms(2) in simp)
qed

text \<open>
  C32. Enqueuing a job when absent adds nothing while an equal job is running, however old it is, or
  is pending and fresh: it returns nothing and no pending list gains an id, whatever else is queued.
\<close>
theorem duplicates_collapse:
  assumes "serves view R" "stored (view s) jid (Some r)"
    and "jid \<in> rv_sets (view s) RUNNING_KEY \<or> jid \<in> set (pending p (view s)) \<and> fresh ttl clk r"
    and "jr_type r' = jr_type r" "py_eq (jr_payload r) (jr_payload r')"
  shows "returns (enqueue_if_absent R ttl clk r') s
    (\<lambda>x s'. x = None \<and> (\<forall>q. set (pending q (view s')) \<subseteq> set (pending q (view s))))"
  unfolding enqueue_if_absent_def returns_simps find_active_job_id_def
proof (rule returns_catch, unfold returns_simps, rule returns_pending [OF assms(1)], rule returns_smembers [OF assms(1)])
  fix s1 s2 js
  assume v: "view s1 = view s" "view s2 = view s1" "set js = rv_sets (view s1) RUNNING_KEY"
  let ?items = "concat (map (\<lambda>p. map (\<lambda>j. (j, Some (queue_key p))) (rv_lists (view s) (queue_key p))) priority_order)
    @ map (\<lambda>j. (j, None)) js"
  have "p \<in> set priority_order" by (cases p) (simp_all add: priority_order_def)
  then have "(jid, None) \<in> set ?items \<or> jid \<in> fst ` set ?items \<and> fresh ttl clk r"
    using assms(3) v by (force simp: pending_def image_iff)
  moreover have "active (view s2) jid r (jr_type r') (jr_payload r')" using assms v by (simp add: stored_active)
  ultimately have "returns (scan_active R ttl clk (jr_type r') (Some (jr_payload r')) None 0 ?items) s2
      (\<lambda>x s'. x \<noteq> None \<and> (\<forall>p. set (pending p (view s')) \<subseteq> set (pending p (view s2))))"
    by (intro scan_finds [OF assms(1)])
  then show "returns (scan_active R ttl clk (jr_type r') (Some (jr_payload r')) None 0 ?items) s2
      (\<lambda>a s'. returns (if a \<noteq> None then ret None else bind_eff (enqueue R r') (\<lambda>jid. ret (Some jid))) s'
        (\<lambda>x s'. x = None \<and> (\<forall>q. set (pending q (view s')) \<subseteq> set (pending q (view s)))))"
    by (rule returns_mono) (use v in \<open>auto simp: returns_simps\<close>)
qed

subsection \<open>Failures of Redis\<close>

lemma catch_never_raises: "\<exists>a. fst (catch_eff m (\<lambda>_. ret x) s) = Inr a"
  by (auto simp: catch_eff_def ret_def split: prod.split sum.split)

text \<open>
  Housekeeping never fails a caller: with any Redis client, also one that raises at any command,
  refreshing a retention window, trimming the index, pruning a stale marker, saving progress and the
  search for a duplicate return normally.
\<close>
theorem housekeeping_never_raises:
  "(\<exists>a. fst (touch_job_ttl R jid s) = Inr a) \<and> (\<exists>a. fst (trim_recent_index R ts s) = Inr a)
   \<and> (\<exists>a. fst (prune_stale_pending R now jid key s) = Inr a) \<and> (\<exists>a. fst (update_progress R jid pr s) = Inr a)
   \<and> (\<exists>a. fst (find_active_job_id R ttl clk ty payload dedupe s) = Inr a)"
  unfolding touch_job_ttl_def trim_recent_index_def prune_stale_pending_def update_progress_def find_active_job_id_def
  by (intro conjI catch_never_raises)

subsection \<open>Work that the queue loses\<close>

text \<open>
  A dequeue can return nothing although work is waiting: when the record of the job at the head
  has expired, its id is dropped and the jobs behind it, and those of every lower priority, are not
  looked at.
\<close>
theorem expired_head_hides_work:
  assumes "serves view R" "rv_keys (view s) PAUSED_KEY \<noteq> Some ''1''"
    and "pending HIGH (view s) = j # js" "j \<noteq> []" "stored (view s) j None"
  shows "returns (dequeue R priority_order) s
    (\<lambda>x s'. x = None \<and> pending HIGH (view s') = js \<and> pending MEDIUM (view s') = pending MEDIUM (view s)
      \<and> pending LOW (view s') = pending LOW (view s))"
proof -
  have f: "fst (pop_id HIGH v) = Some j" if "v = view s" for v using assms(3) that by (simp add: ids.fst_pop)
  have st: "stored (snd (pop_id HIGH (view s))) j None"
    using assms(5) stored_other [of "snd (pop_id HIGH (view s))" j "view s"] by simp
  show ?thesis
    unfolding dequeue_def is_paused_def returns_simps priority_order_def
    by (rule returns_get [OF assms(1)])
      (use assms f st in \<open>auto simp: returns_simps pending_pop
        intro!: returns_pop [OF assms(1)] returns_load [OF assms(1), where x = None]\<close>)
qed

text \<open>
  A job is in no list and not in the running set between its dequeue and the moment it is marked
  as running: if the worker dies there, recovery at the next start finds nothing and the job, still
  stored as pending, never runs.
\<close>
theorem dequeued_job_not_recovered:
  assumes "serves view R" "waiting (view s) Q" "in_order Q = r # rest" "distinct (map jr_id (in_order Q))"
    and "rv_sets (view s) RUNNING_KEY = {}"
  shows "returns (bind_eff (dequeue R priority_order) (\<lambda>_. recover_orphaned_running R)) s
    (\<lambda>ids s'. ids = [] \<and> stored (view s') (jr_id r) (Some r) \<and> (\<forall>p. jr_id r \<notin> set (pending p (view s'))))"
  unfolding returns_simps
proof (rule returns_mono [OF dequeue_next [OF assms(1-3)]], elim conjE exE)
  fix x t Q'
  assume t: "kept (view s) (view t)" "waiting (view t) Q'" "in_order Q' = rest"
  have "r \<in> set (concat (map Q priority_order))" using assms(3) by (simp add: in_order_def)
  then obtain q where "r \<in> set (Q q)" by auto
  then have "stored (view s) (jr_id r) (Some r)" by (rule waitingD(1) [OF assms(2)])
  then have st: "stored (view t) (jr_id r) (Some r)"
    using t(1) stored_other [of "view t" "jr_id r" "view s"] by (simp add: kept_def)
  have gone: "jr_id r \<notin> set (pending p (view t))" for p
  proof -
    have "p \<in> set priority_order" by (cases p) (simp_all add: priority_order_def)
    then have "set (Q' p) \<subseteq> set rest" using t(3) by (auto simp: in_order_def)
    then show ?thesis using assms(3,4) waitingD(3) [OF t(2)] by auto
  qed
  have "rv_sets (view t) RUNNING_KEY = {}" using t(1) assms(5) by (simp add: kept_def)
  then have "returns (recover_orphaned_running R) t (\<lambda>ids s'. rv_sets (view s') RUNNING_KEY = {} \<and> distinct ids
      \<and> set ids = {j \<in> rv_sets (view t) RUNNING_KEY. orphan (\<lambda>_. None) j} \<and> requeues (\<lambda>_. None) (view t) ids (view s'))"
    by (intro recovery_requeues [OF assms(1)]) simp
  then show "returns (recover_orphaned_running R) t
      (\<lambda>ids s'. ids = [] \<and> stored (view s') (jr_id r) (Some r) \<and> (\<forall>p. jr_id r \<notin> set (pending p (view s'))))"
    by (rule returns_mono) (use st gone in \<open>auto simp: orphan_def requeues_def stored_def\<close>)
qed

end
