(* ===== verification/WorkerRules.thy ===== *)
theory WorkerRules
  imports ProcessorWorker QueueFaults
begin

text \<open>
  What the worker does with a job: every dispatched job settles, a failing job is retried a bounded
  number of times, and a job over the spending cap is held without being run.
\<close>

subsection \<open>Steps\<close>

definition reported :: "string \<Rightarrow> rat \<Rightarrow> rview \<Rightarrow> rview" where
  "reported jid p v = after (HSet (job_key jid) [(''progress'', show_float p)]) v"

lemma stored_reported:
  assumes "stored v jid (Some r)" "decimal_ok p"
  shows "stored (reported jid p v) jid (Some (r\<lparr>jr_progress := p\<rparr>))"
proof -
  have m: "map_of (record_to_mapping r) \<subseteq>\<^sub>m rv_hashes v (job_key jid)" and ok: "record_ok r" and j: "jr_id r = jid"
    using assms(1) by (simp_all add: stored_def)
  have e: "map_of (record_to_mapping (r\<lparr>jr_progress := p\<rparr>)) = (map_of (record_to_mapping r))(''progress'' \<mapsto> show_float p)"
    by (auto simp: record_to_mapping_def record_to_dict_def fun_eq_iff)
  have "record_ok (r\<lparr>jr_progress := p\<rparr>)" using ok assms(2) by (simp add: record_ok_def)
  with m j show ?thesis
    unfolding stored_def reported_def option.case e by (simp add: map_le_def)
qed

lemma stored_via: "stored v j x \<Longrightarrow> rv_hashes w (job_key j) = rv_hashes v (job_key j) \<Longrightarrow> stored w j x"
  using stored_other [of w j v x] by blast

lemma returns_swallow: "returns m s P \<Longrightarrow> returns (swallow m) s P"
  unfolding swallow_def by (rule returns_catch)

lemma metrics_keys [simp]: "queue_key p \<noteq> duration_key t" "duration_key t \<noteq> queue_key p"
    "DURATION_TYPES_KEY \<noteq> RUNNING_KEY" "RUNNING_KEY \<noteq> DURATION_TYPES_KEY"
    "COMPLETED_KEY \<noteq> RECENT_KEY" "COST_KEY \<noteq> RECENT_KEY"
  by (simp_all add: queue_key_def duration_key_def DURATION_KEY_PREFIX_def DURATION_TYPES_KEY_def RUNNING_KEY_def
      COMPLETED_KEY_def COST_KEY_def RECENT_KEY_def)

definition queue_same :: "rview \<Rightarrow> rview \<Rightarrow> bool" where
  \<comment> \<open>the parts of the view that the queue uses are unchanged\<close>
  "queue_same v w \<longleftrightarrow>
     rv_hashes w = rv_hashes v \<and> rv_keys w = rv_keys v \<and> (\<forall>p. pending p w = pending p v)
     \<and> rv_sets w RUNNING_KEY = rv_sets v RUNNING_KEY \<and> rv_zsets w RECENT_KEY = rv_zsets v RECENT_KEY"

lemma queue_same_refl [simp]: "queue_same v v"
  by (simp add: queue_same_def)

lemma queue_same_stored: "queue_same v w \<Longrightarrow> stored w j x = stored v j x"
  by (rule stored_other) (simp add: queue_same_def)

lemma queue_same_trans: "queue_same u v \<Longrightarrow> queue_same v w \<Longrightarrow> queue_same u w"
  by (simp add: queue_same_def)

fun metric_cmd :: "rcmd \<Rightarrow> bool" where
  "metric_cmd (ZAdd k m sc) = (k \<noteq> RECENT_KEY)"
| "metric_cmd (LPush k x) = (\<forall>p. k \<noteq> queue_key p)"
| "metric_cmd (LTrim k n) = (\<forall>p. k \<noteq> queue_key p)"
| "metric_cmd (SAdd k x) = (k \<noteq> RUNNING_KEY)"
| "metric_cmd _ = False"

lemma metric_same: "metric_cmd c \<Longrightarrow> queue_same v (after c v)"
  by (cases c) (auto simp: queue_same_def pending_def)

lemma returns_metric:
  assumes "serves view R" "metric_cmd c" "queue_same v (view s)" "\<And>s'. queue_same v (view s') \<Longrightarrow> P () s'"
  shows "returns (r_do R c) s P"
  by (rule returns_do [OF assms(1)], rule assms(4), rule queue_same_trans [OF assms(3)])
    (use metric_same [OF assms(2)] in simp)

lemma returns_completion:
  assumes "serves view R" "\<And>s'. queue_same (view s) (view s') \<Longrightarrow> P () s'"
  shows "returns (record_completion R jid ts cost ty d) s P"
  unfolding record_completion_def sync_record_completion_def
proof (rule returns_catch, unfold returns_simps, rule returns_metric [OF assms(1)])
  fix s1 assume "queue_same (view s) (view s1)"
  then show "returns (r_do R (ZAdd COST_KEY (cost_member jid cost) ts)) s1
      (\<lambda>_ s'. returns (case (ty, d) of
            (Some t, Some d) \<Rightarrow>
              if t = [] then ret ()
              else then_eff (r_do R (LPush (duration_key t) (show_float d)))
                     (then_eff (r_do R (LTrim (duration_key t) (DURATION_MAX_ENTRIES - 1)))
                       (r_do R (SAdd DURATION_TYPES_KEY t)))
          | _ \<Rightarrow> ret ()) s' P)"
    by (rule returns_metric [OF assms(1), rotated])
      (auto simp: returns_simps split: option.split intro!: assms(2) returns_metric [OF assms(1), where v = "view s"])
qed simp_all

lemma returns_metrics:
  assumes "pred_option (serves view) (we_metrics E)" "\<And>s'. queue_same (view s) (view s') \<Longrightarrow> P () s'"
  shows "returns (record_metrics E now d r job chosen res) s P"
  using assms unfolding record_metrics_def
  by (auto simp: returns_simps intro!: returns_swallow returns_completion split: option.split sum.split)

lemma returns_cost:
  assumes "serves view R"
    "\<And>s'. view s' = view s \<Longrightarrow> P (sum_cost_members (from_score cutoff (rv_zsets (view s) COST_KEY))) s'"
  shows "returns (cost_since R cutoff) s P"
  unfolding cost_since_def
  by (rule returns_catch, unfold returns_simps, rule returns_zrange [OF assms(1)]) (rule assms(2))

definition spend_at :: "'s worker_env \<Rightarrow> pydatetime \<Rightarrow> rview \<Rightarrow> pydecimal" where
  "spend_at E now v =
     (if we_metrics E = None then Dec 0 0
      else sum_cost_members (from_score (timestamp (month_start now)) (rv_zsets v COST_KEY)))"

lemma returns_resolve:
  assumes "pred_option (serves view) (we_metrics E)"
    and "\<And>s'. view s' = view s \<Longrightarrow>
      P (let mode = resolve_processor_mode (we_mode E)
         in select_job_model mode tokens (we_threshold E)
              (if mode = ''hybrid'' \<and> tokens > we_threshold E then spend_at E now (view s) else Dec 0 0)
              (we_cap E) (we_cap_fallback E) dl am) s'"
  shows "returns (resolve_job_model E now dl am tokens) s P"
  using assms unfolding resolve_job_model_def Let_def returns_simps month_spend_def processor_cost_usd_month_def spend_at_def
  by (auto simp: returns_simps intro!: returns_catch returns_cost [where view = view] split: option.split)

lemma returns_resolve_any:
  assumes "pred_option (serves view) (we_metrics E)" "\<And>d s'. view s' = view s \<Longrightarrow> P d s'"
  shows "returns (resolve_job_model E now dl am tokens) s P"
  by (rule returns_resolve [OF assms(1)]) (rule assms(2))

subsection \<open>Every job settles\<close>

definition tidy_job :: "('s \<Rightarrow> rview) \<Rightarrow> 's redis \<Rightarrow> string \<Rightarrow> 's job \<Rightarrow> bool" where
  \<comment> \<open>whatever else a run does to Redis, it leaves the job a readable record; it raises with a message
    or returns metadata that is a dictionary JSON can carry\<close>
  "tidy_job view R jid job \<longleftrightarrow>
     (\<forall>ov s. (\<exists>r. stored (view s) jid (Some r)) \<longrightarrow>
        (let (x, s') = jb_run job ov (update_progress R jid) s
         in (\<exists>r. stored (view s') jid (Some r))
            \<and> (case x of Inl e \<Rightarrow> e \<noteq> [] | Inr res \<Rightarrow> as_dict (js_metadata res) \<noteq> None \<and> json_ok (js_metadata res))))"

lemma tidy_jobD:
  assumes "tidy_job view R jid job" "jb_run job ov (update_progress R jid) s = (x, s')" "stored (view s) jid (Some r)"
  shows "(\<exists>r. stored (view s') jid (Some r))
    \<and> (case x of Inl e \<Rightarrow> e \<noteq> [] | Inr res \<Rightarrow> as_dict (js_metadata res) \<noteq> None \<and> json_ok (js_metadata res))"
proof -
  have "\<exists>r. stored (view s) jid (Some r)" using assms(3) by blast
  from assms(1) [unfolded tidy_job_def, rule_format, OF this, of ov] show ?thesis unfolding assms(2) by simp
qed

text \<open>Reporting progress, and writing anything but the job's own hash, is tidy.\<close>

lemma reports_tidy:
  assumes "\<And>ov s x s'. jb_run job ov (update_progress R jid) s = (x, s') \<Longrightarrow>
      (rv_hashes (view s') (job_key jid) = rv_hashes (view s) (job_key jid)
       \<or> (\<exists>p. decimal_ok p \<and> rv_hashes (view s') (job_key jid) = rv_hashes (reported jid p (view s)) (job_key jid)))
      \<and> (case x of Inl e \<Rightarrow> e \<noteq> [] | Inr res \<Rightarrow> as_dict (js_metadata res) \<noteq> None \<and> json_ok (js_metadata res))"
  shows "tidy_job view R jid job"
  unfolding tidy_job_def
proof (intro allI impI)
  fix ov s assume "\<exists>r. stored (view s) jid (Some r)"
  then obtain r where st: "stored (view s) jid (Some r)" by blast
  obtain x s' where run: "jb_run job ov (update_progress R jid) s = (x, s')" by fastforce
  have "\<exists>r. stored (view s') jid (Some r)"
    using conjunct1 [OF assms [OF run]]
  proof (elim disjE exE conjE)
    assume "rv_hashes (view s') (job_key jid) = rv_hashes (view s) (job_key jid)"
    then show ?thesis using stored_via [OF st] by blast
  next
    fix p assume "decimal_ok p" "rv_hashes (view s') (job_key jid) = rv_hashes (reported jid p (view s)) (job_key jid)"
    then show ?thesis using stored_via [OF stored_reported [OF st]] by blast
  qed
  then show "let (x, s') = jb_run job ov (update_progress R jid) s
       in (\<exists>r. stored (view s') jid (Some r))
          \<and> (case x of Inl e \<Rightarrow> e \<noteq> [] | Inr res \<Rightarrow> as_dict (js_metadata res) \<noteq> None \<and> json_ok (js_metadata res))"
    using assms [OF run] by (simp add: run)
qed

definition job_settled :: "int \<Rightarrow> job_record \<Rightarrow> rview \<Rightarrow> bool" where
  "job_settled most r v \<longleftrightarrow>
     jr_id r \<notin> rv_sets v RUNNING_KEY
     \<and> (\<exists>r'. stored v (jr_id r) (Some r')
          \<and> (jr_state r' \<in> {COMPLETED, FAILED, HELD}
             \<or> jr_state r' = PENDING \<and> jr_id r \<in> set (pending (jr_priority r) v) \<and> the (jr_retries r') < most))"

lemma settled_terminal:
  assumes "record_ok r'" "jr_id r' = jr_id r" "jr_state r' \<in> {COMPLETED, FAILED, HELD}"
    and "queue_same (settled ts r' v) w"
  shows "job_settled most r w"
proof -
  have "stored (settled ts r' v) (jr_id r') (Some r')"
    using assms(1) stored_other [of "settled ts r' v" "jr_id r'" "put_job r' v"] by (simp add: settled_def)
  then have "stored w (jr_id r) (Some r')" using queue_same_stored [OF assms(4)] assms(2) by simp
  moreover have "jr_id r \<notin> rv_sets w RUNNING_KEY" using assms(2,4) by (simp add: queue_same_def settled_def)
  ultimately show ?thesis using assms(3) by (auto simp: job_settled_def)
qed

lemma failed_record_ok: "record_ok r \<Longrightarrow> dt_valid now \<Longrightarrow> msg \<noteq> [] \<Longrightarrow> record_ok (failed_record now msg r)"
  by (simp add: failed_record_def record_ok_def)

lemma retry_record_ok: "record_ok r \<Longrightarrow> dt_valid now \<Longrightarrow> record_ok (retry_record now n r)"
  by (simp add: retry_record_def record_ok_def decimal_ok_def)

lemma retry_simps [simp]: "jr_id (retry_record now n r) = jr_id r" "jr_priority (retry_record now n r) = jr_priority r"
    "jr_state (retry_record now n r) = PENDING" "jr_retries (retry_record now n r) = Some n"
    "jr_type (retry_record now n r) = jr_type r" "jr_payload (retry_record now n r) = jr_payload r"
    "jr_llm (retry_record now n r) = jr_llm r"
  by (simp_all add: retry_record_def)

lemma settle_records [simp]: "jr_id (failed_record now msg r) = jr_id r" "jr_state (failed_record now msg r) = FAILED"
    "jr_id (completed_record now res r) = jr_id r" "jr_state (completed_record now res r) = COMPLETED"
    "jr_id (held_record now res r) = jr_id r" "jr_state (held_record now res r) = HELD"
    "jr_retries (failed_record now msg r) = jr_retries r" "jr_error (failed_record now msg r) = Some msg"
  by (simp_all add: failed_record_def completed_record_def held_record_def)

lemma returns_failed:
  assumes "serves view R" "stored (view s) jid (Some r)"
    "\<And>s'. view s' = settled (timestamp now) (failed_record now msg r) (view s) \<Longrightarrow> P () s'"
  shows "returns (swallow (mark_failed R now jid msg)) s P"
  unfolding mark_failed_def
  by (rule returns_swallow, rule returns_settle_with [OF assms(1,2)]) (simp_all add: assms(3))

lemma returns_failure:
  assumes "serves view (we_queue E)" "stored (view s) (jr_id r) (Some r0)" "jr_retries r = Some n"
    and "\<And>s'. view s' = (let v = settled (timestamp (clk 2)) (failed_record (clk 2) msg r0) (view s)
                        in if n + 1 < we_max_retries E then push_job (retry_record (clk 3) (n + 1) r) v else v) \<Longrightarrow> P () s'"
  shows "returns (handle_failure E clk r msg) s P"
  unfolding handle_failure_def returns_simps
  by (rule returns_failed [OF assms(1,2)])
    (use assms in \<open>auto simp: returns_simps Let_def intro!: returns_swallow returns_enqueue [OF assms(1)]\<close>)

lemma pushed_settled:
  assumes "record_ok r'" "jr_id r' = jr_id r" "jr_priority r' = jr_priority r" "jr_state r' = PENDING"
    and "the (jr_retries r') < most" "jr_id r \<notin> rv_sets v RUNNING_KEY"
  shows "job_settled most r (push_job r' v)"
proof -
  have "stored (push_job r' v) (jr_id r') (Some r')"
    using assms(1) stored_other [of "push_job r' v" "jr_id r'" "put_job r' v"] by (simp add: push_job_def)
  moreover have "jr_id r \<notin> rv_sets (push_job r' v) RUNNING_KEY" using assms(6) by (simp add: push_job_def)
  moreover have "jr_id r \<in> set (pending (jr_priority r) (push_job r' v))" using assms(2,3) by (simp add: pending_push_job)
  ultimately show ?thesis using assms(2,4,5) by (auto simp: job_settled_def)
qed

lemma run_settles:
  assumes "serves view (we_queue E)" "pred_option (serves view) (we_metrics E)"
    and "stored (view s) (jr_id r) (Some r0)" "\<forall>n. dt_valid (clk n)" "record_ok r" "jr_retries r = Some n"
    and "tidy_job view (we_queue E) (jr_id r) job"
  shows "returns (run_job E clk d r job chosen dl) s (\<lambda>_ s'. job_settled (we_max_retries E) r (view s'))"
proof -
  let ?ov = "model_override E r chosen dl"
  obtain x s1 where run: "jb_run job ?ov (update_progress (we_queue E) (jr_id r)) s = (x, s1)" by fastforce
  have "\<exists>r1. stored (view s1) (jr_id r) (Some r1)"
    and good: "case x of Inl e \<Rightarrow> e \<noteq> [] | Inr res \<Rightarrow> as_dict (js_metadata res) \<noteq> None \<and> json_ok (js_metadata res)"
    using tidy_jobD [OF assms(7) run assms(3)] by simp_all
  then obtain r1 where st: "stored (view s1) (jr_id r) (Some r1)" by blast
  then have r1: "record_ok r1" "jr_id r1 = jr_id r" using stored_ne by blast+
  show ?thesis
  proof (cases x)
    case (Inl e)
    have f: "record_ok (failed_record (clk 2) e r1)" using r1 assms(4) good Inl by (simp add: failed_record_ok)
    have "returns (handle_failure E clk r e) s1 (\<lambda>_ s'. job_settled (we_max_retries E) r (view s'))"
    proof (rule returns_failure [OF assms(1) st assms(6)], unfold Let_def)
      fix s' assume v: "view s' = (if n + 1 < we_max_retries E
          then push_job (retry_record (clk 3) (n + 1) r) (settled (timestamp (clk 2)) (failed_record (clk 2) e r1) (view s1))
          else settled (timestamp (clk 2)) (failed_record (clk 2) e r1) (view s1))"
      show "job_settled (we_max_retries E) r (view s')"
      proof (cases "n + 1 < we_max_retries E")
        case True
        then show ?thesis
          unfolding v using assms(4,5) r1 by (auto intro!: pushed_settled retry_record_ok simp: settled_def)
      next
        case False
        then show ?thesis
          unfolding v if_not_P [OF False] using r1 by (intro settled_terminal [OF f _ _ queue_same_refl]) simp_all
      qed
    qed
    with run Inl show ?thesis by (simp add: run_job_def try_else_def returns_def)
  next
    case (Inr res)
    let ?res = "res\<lparr>js_job_id := jr_id r\<rparr>"
    have md: "py_or (js_metadata res) (PDict []) = js_metadata res"
      using good Inr by (cases "js_metadata res") (auto simp: py_or_def)
    have f: "record_ok (completed_record (clk 2) ?res r1)"
      using r1 assms(4) good Inr md by (simp add: completed_record_def record_ok_def decimal_ok_def)
    have "returns (then_eff (swallow (mark_completed (we_queue E) (clk 2) (jr_id r) ?res))
        (record_metrics E (clk 3) d r job chosen ?res)) s1 (\<lambda>_ s'. job_settled (we_max_retries E) r (view s'))"
      unfolding returns_simps mark_completed_def
    proof (rule returns_swallow, rule returns_settle_with [OF assms(1) st])
      fix s2 assume "view s2 = (case Some r1 of None \<Rightarrow> view s1
          | Some r \<Rightarrow> settled (timestamp (clk 2)) (completed_record (clk 2) ?res r) (view s1))"
      then have v: "view s2 = settled (timestamp (clk 2)) (completed_record (clk 2) ?res r1) (view s1)" by simp
      show "returns (record_metrics E (clk 3) d r job chosen ?res) s2 (\<lambda>_ s'. job_settled (we_max_retries E) r (view s'))"
        using settled_terminal [OF f] r1 v by (intro returns_metrics [OF assms(2)]) simp
    qed simp
    with run Inr show ?thesis by (simp add: run_job_def try_else_def returns_def Let_def)
  qed
qed

lemma held_settles:
  assumes "serves view (we_queue E)" "stored (view s) (jr_id r) (Some r0)" "dt_valid now"
  shows "returns (swallow (mark_held (we_queue E) now (jr_id r) (held_result (jr_id r) why))) s
    (\<lambda>_ s'. view s' = settled (timestamp now) (held_record now (held_result (jr_id r) why) r0) (view s)
      \<and> job_settled most r (view s'))"
proof -
  have r0: "record_ok r0" "jr_id r0 = jr_id r" using stored_ne [OF assms(2)] by simp_all
  have ok: "record_ok (held_record now (held_result (jr_id r) why) r0)"
    using r0 assms(3) by (simp add: held_record_def held_result_def record_ok_def py_or_def)
  show ?thesis
    unfolding mark_held_def
    by (rule returns_swallow, rule returns_settle_with [OF assms(1,2)])
      (use r0 in \<open>auto intro!: settled_terminal [OF ok _ _ queue_same_refl]\<close>)
qed

text \<open>
  C25. A dispatched job settles: whatever its type, its constructor and the model policy do, and whatever
  its run writes to Redis besides its own record, as long as the run leaves that record readable and ends
  with an error message or with JSON metadata without floats, a job that is executed over a working Redis
  leaves the running set and is stored as completed, failed or held, or waits in its list for a retry
  whose number is below the limit.
\<close>
theorem dispatched_job_settles:
  assumes "serves view (we_queue E)" "pred_option (serves view) (we_metrics E)"
    and "stored (view s) (jr_id r) (Some r)" "\<forall>n. dt_valid (clk n)"
    and "jr_retries r \<noteq> None" "jr_est_in r \<noteq> None" "jr_est_out r \<noteq> None"
    and "\<forall>cls job. we_registry E (jr_type r) = Some cls \<longrightarrow> cls (jr_payload r) = Inr job \<longrightarrow>
           tidy_job view (we_queue E) (jr_id r) job"
  shows "returns (execute E clk d r) s (\<lambda>_ s'. job_settled (we_max_retries E) r (view s'))"
proof -
  let ?P = "\<lambda>_ s'. job_settled (we_max_retries E) r (view s')"
  let ?r0 = "r\<lparr>jr_state := RUNNING, jr_started := Some (clk 0)\<rparr>"
  have r: "record_ok r" using stored_ne [OF assms(3)] by simp
  then have r0: "record_ok ?r0" using assms(4) by (simp add: record_ok_def)
  obtain n where n: "jr_retries r = Some n" using assms(5) by auto
  obtain tin tout where t: "jr_est_in r = Some tin" "jr_est_out r = Some tout" using assms(6,7) by auto
  show ?thesis
    unfolding execute_def
  proof (rule returns_try, rule returns_running [OF assms(1,3)])
    fix s1 assume v: "view s1 = after (SAdd RUNNING_KEY (jr_id r)) (put_job ?r0 (view s))"
    have "stored (put_job ?r0 (view s)) (jr_id r) (Some ?r0)" using stored_put [of ?r0 "view s"] r0 by simp
    then have st: "stored (view s1) (jr_id r) (Some ?r0)" by (rule stored_via) (simp add: v)
    have fail: "returns (swallow (mark_failed (we_queue E) (clk 2) (jr_id r) m)) s1 ?P" if "m \<noteq> []" for m
      by (rule returns_failed [OF assms(1) st])
        (use that r0 assms(4) in \<open>auto intro!: settled_terminal [OF failed_record_ok _ _ queue_same_refl]\<close>)
    have run: "returns (run_job E clk d r job ch dl) t ?P" if "view t = view s1" "tidy_job view (we_queue E) (jr_id r) job" for job ch dl t
      using that st by (intro run_settles [OF assms(1,2) _ assms(4) r n]) simp_all
    have llm: "returns (dispatch_llm E clk d r job) s1 ?P" if q: "tidy_job view (we_queue E) (jr_id r) job" for job
      unfolding dispatch_llm_def t Let_def option.case prod.case returns_simps
    proof (rule returns_catch, unfold returns_simps, rule returns_resolve_any [OF assms(2)], unfold option.case)
      fix dec t assume t: "view t = view s1"
      then have "stored (view t) (jr_id r) (Some ?r0)" using st by simp
      then show "returns (if md_hold dec then swallow (mark_held (we_queue E) (clk 2) (jr_id r) (held_result (jr_id r) (md_reason dec)))
          else run_job E clk d r job (Some (or_text (md_model dec) (or_text (jr_model r) ''ollama/local'')))
            (Some (or_text (jr_model r) ''ollama/local''))) t ?P"
        using run [OF t q] assms(4) by (auto intro: returns_mono [OF held_settles [OF assms(1)]])
    qed
    show "returns (case we_registry E (jr_type r) of
          None \<Rightarrow> swallow (mark_failed (we_queue E) (clk 2) (jr_id r) (''unknown job_type: '' @ repr_str (jr_type r)))
        | Some cls \<Rightarrow>
            (case cls (jr_payload r) of
               Inl e \<Rightarrow> swallow (mark_failed (we_queue E) (clk 2) (jr_id r) (''instantiation error: '' @ e))
             | Inr job \<Rightarrow>
                 if jr_llm r then dispatch_llm E clk d r job else run_job E clk d r job None None)) s1 ?P"
      using assms(8) fail run llm by (auto split: option.split sum.split)
  qed
qed

end
