(* ===== verification/WorkerRetries.thy ===== *)
theory WorkerRetries
  imports WorkerRules "HOL-Library.Multiset"
begin

text \<open>
  Retries of a failing job, the hold of a job over the spending cap, the spend that the cap compares,
  and the listing of a job that waits for a retry.
\<close>

subsection \<open>The spending cap\<close>

text \<open>
  A job that needs a model, is larger than the API threshold and meets an exhausted budget under
  the hold policy is recorded as held without being run: its tokens are zero, it leaves the running
  set, and it goes back to no pending list.
\<close>
theorem capped_job_held:
  assumes "serves view (we_queue E)" "pred_option (serves view) (we_metrics E)"
    and "stored (view s) (jr_id r) (Some r)" "\<forall>n. dt_valid (clk n)"
    and "we_registry E (jr_type r) = Some cls" "cls (jr_payload r) = Inr job" "jr_llm r"
    and "jr_est_in r = Some tin" "jr_est_out r = Some tout" "tin + tout > we_threshold E"
    and "resolve_processor_mode (we_mode E) = ''hybrid''" "we_cap_fallback E = ''hold''"
    and "\<not> dec_less (spend_at E (clk 1) (view s)) (we_cap E)"
  shows "returns (execute E clk d r) s (\<lambda>_ s'. \<exists>r'.
    stored (view s') (jr_id r) (Some r') \<and> jr_state r' = HELD \<and> jr_act_in r' = Some 0 \<and> jr_act_out r' = Some 0
    \<and> jr_id r \<notin> rv_sets (view s') RUNNING_KEY \<and> rv_lists (view s') = rv_lists (view s))"
proof -
  let ?r0 = "r\<lparr>jr_state := RUNNING, jr_started := Some (clk 0)\<rparr>"
  let ?h = "held_record (clk 2) (held_result (jr_id r) ''hybrid_cap_hold'') ?r0"
  let ?P = "\<lambda>_ s'. \<exists>r'. stored (view s') (jr_id r) (Some r') \<and> jr_state r' = HELD \<and> jr_act_in r' = Some 0
    \<and> jr_act_out r' = Some 0 \<and> jr_id r \<notin> rv_sets (view s') RUNNING_KEY \<and> rv_lists (view s') = rv_lists (view s)"
  have r: "record_ok r" using stored_ne [OF assms(3)] by simp
  then have r0: "record_ok ?r0" using assms(4) by (simp add: record_ok_def)
  have h: "record_ok ?h" using r0 assms(4) by (simp add: held_record_def held_result_def record_ok_def py_or_def)
  show ?thesis
    unfolding execute_def assms(5) option.case assms(6) sum.case if_P [OF assms(7)]
  proof (rule returns_try, rule returns_running [OF assms(1,3)])
    fix s1 assume v: "view s1 = after (SAdd RUNNING_KEY (jr_id r)) (put_job ?r0 (view s))"
    have "stored (put_job ?r0 (view s)) (jr_id r) (Some ?r0)" using stored_put [of ?r0 "view s"] r0 by simp
    then have st: "stored (view s1) (jr_id r) (Some ?r0)" by (rule stored_via) (simp add: v)
    have sp: "spend_at E (clk 1) (view s1) = spend_at E (clk 1) (view s)" by (simp add: spend_at_def v)
    show "returns (dispatch_llm E clk d r job) s1 ?P"
      unfolding dispatch_llm_def assms(8,9) Let_def option.case prod.case returns_simps
    proof (rule returns_catch, unfold returns_simps, rule returns_resolve [OF assms(2)], unfold option.case Let_def assms(11) sp)
      fix t assume t: "view t = view s1"
      then have st': "stored (view t) (jr_id r) (Some ?r0)" using st by simp
      have dec: "select_job_model ''hybrid'' (tin + tout) (we_threshold E)
          (if ''hybrid'' = ''hybrid'' \<and> we_threshold E < tin + tout then spend_at E (clk 1) (view s) else Dec 0 0)
          (we_cap E) (we_cap_fallback E) dl am = \<lparr>md_model = None, md_hold = True, md_reason = ''hybrid_cap_hold''\<rparr>" for dl am
        using assms(10,12,13) by (simp add: select_job_model_def)
      have "returns (swallow (mark_held (we_queue E) (clk 2) (jr_id r) (held_result (jr_id r) ''hybrid_cap_hold''))) t ?P"
      proof (rule returns_mono [OF held_settles [OF assms(1) st', where most = 0]])
        show "dt_valid (clk 2)" using assms(4) by simp
      next
        fix a t' assume w: "view t' = settled (timestamp (clk 2)) ?h (view t) \<and> job_settled 0 r (view t')"
        have "stored (put_job ?h (view t)) (jr_id r) (Some ?h)" using stored_put [of ?h "view t"] h by simp
        then have "stored (view t') (jr_id r) (Some ?h)" by (rule stored_via) (use w in \<open>simp add: settled_def\<close>)
        moreover have "jr_act_in ?h = Some 0" "jr_act_out ?h = Some 0" by (simp_all add: held_record_def held_result_def)
        moreover have "rv_lists (view t') = rv_lists (view s)" using w t v by (simp add: settled_def)
        moreover have "jr_id r \<notin> rv_sets (view t') RUNNING_KEY" using w by (auto simp only: job_settled_def)
        ultimately show "?P a t'" by (intro exI [of _ ?h] conjI settle_records)
      qed
      then show "returns (if md_hold (select_job_model ''hybrid'' (tin + tout) (we_threshold E)
          (if ''hybrid'' = ''hybrid'' \<and> we_threshold E < tin + tout then spend_at E (clk 1) (view s) else Dec 0 0)
          (we_cap E) (we_cap_fallback E) (or_text (jr_model r) ''ollama/local'')
          (case we_smart E of None \<Rightarrow> or_text (jr_model r) ''ollama/local'' | Some m \<Rightarrow> m))
        then swallow (mark_held (we_queue E) (clk 2) (jr_id r) (held_result (jr_id r)
          (md_reason (select_job_model ''hybrid'' (tin + tout) (we_threshold E)
          (if ''hybrid'' = ''hybrid'' \<and> we_threshold E < tin + tout then spend_at E (clk 1) (view s) else Dec 0 0)
          (we_cap E) (we_cap_fallback E) (or_text (jr_model r) ''ollama/local'')
          (case we_smart E of None \<Rightarrow> or_text (jr_model r) ''ollama/local'' | Some m \<Rightarrow> m)))))
        else run_job E clk d r job (Some (or_text (md_model (select_job_model ''hybrid'' (tin + tout) (we_threshold E)
          (if ''hybrid'' = ''hybrid'' \<and> we_threshold E < tin + tout then spend_at E (clk 1) (view s) else Dec 0 0)
          (we_cap E) (we_cap_fallback E) (or_text (jr_model r) ''ollama/local'')
          (case we_smart E of None \<Rightarrow> or_text (jr_model r) ''ollama/local'' | Some m \<Rightarrow> m))) (or_text (jr_model r) ''ollama/local'')))
          (Some (or_text (jr_model r) ''ollama/local''))) t ?P"
        unfolding dec by simp
    qed
  qed
qed

subsection \<open>A job that always fails\<close>

definition spares_queue :: "string \<Rightarrow> rview \<Rightarrow> rview \<Rightarrow> bool" where
  \<comment> \<open>the pending lists and the pause flag are as before, and so is the job's record but for its progress;
    anything else may have been written\<close>
  "spares_queue jid v w \<longleftrightarrow>
     (\<forall>p. pending p w = pending p v) \<and> rv_keys w PAUSED_KEY = rv_keys v PAUSED_KEY
     \<and> (\<forall>r. stored v jid (Some r) \<longrightarrow> (\<exists>p. stored w jid (Some (r\<lparr>jr_progress := p\<rparr>))))"

definition always_fails :: "('s \<Rightarrow> rview) \<Rightarrow> 's redis \<Rightarrow> string \<Rightarrow> 's job \<Rightarrow> string \<Rightarrow> bool" where
  "always_fails view R jid job e \<longleftrightarrow>
     e \<noteq> [] \<and> (\<forall>ov s. fst (jb_run job ov (update_progress R jid) s) = Inl e
       \<and> spares_queue jid (view s) (view (snd (jb_run job ov (update_progress R jid) s))))"

lemma reported_spares: "decimal_ok p \<Longrightarrow> spares_queue jid v (reported jid p v)"
  using stored_reported [of v jid _ p] by (auto simp: spares_queue_def reported_def pending_def)

definition only :: "job_record \<Rightarrow> priority \<Rightarrow> job_record list" where
  "only r p = (if p = jr_priority r then [r] else [])"

definition run_ticks :: "'s worker_env \<Rightarrow> tick_input list \<Rightarrow> ('s, string, unit) eff" where
  "run_ticks E ts = fold_eff (\<lambda>t _. worker_tick E t) ts ()"

definition works :: "'s worker_env \<Rightarrow> tick_input \<Rightarrow> bool" where
  \<comment> \<open>the tick is not throttled and reads valid clocks, and the processor is switched on\<close>
  "works E t \<longleftrightarrow> \<not> processor_is_disabled (resolve_processor_mode (we_mode E)) \<and> \<not> is_throttled (ti_load t) (ti_ceiling t)
     \<and> (\<forall>n. dt_valid (ti_clk t n))"

lemma waiting_none: "waiting v (\<lambda>_. []) \<longleftrightarrow> rv_keys v PAUSED_KEY \<noteq> Some ''1'' \<and> (\<forall>p. pending p v = [])"
  by (simp add: waiting_def)

lemma in_order_only: "in_order (only r) = [r]"
  by (cases "jr_priority r") (simp_all add: in_order_def only_def priority_order_def)

lemma in_order_none: "in_order Q = [] \<Longrightarrow> Q = (\<lambda>_. [])"
proof
  fix p assume "in_order Q = []"
  then show "Q p = []" by (cases p) (simp_all add: in_order_def priority_order_def)
qed

lemma waiting_only: "waiting v (\<lambda>_. []) \<Longrightarrow> record_ok r \<Longrightarrow> waiting (push_job r v) (only r)"
proof -
  have "only r = (\<lambda>_. [])(jr_priority r := [] @ [r])" by (auto simp: only_def fun_eq_iff)
  then show "waiting v (\<lambda>_. []) \<Longrightarrow> record_ok r \<Longrightarrow> waiting (push_job r v) (only r)"
    using waiting_push [of v "\<lambda>_. []" r] by simp
qed

lemma returns_tick:
  assumes "works E t" "returns (dequeue (we_queue E) priority_order) s
    (\<lambda>x s'. returns (case x of None \<Rightarrow> ret () | Some r \<Rightarrow> execute E (ti_clk t) (ti_duration t) r) s' P)"
  shows "returns (worker_tick E t) s P"
  unfolding worker_tick_def
  by (rule returns_catch) (use assms in \<open>simp add: works_def returns_simps\<close>)

lemma returns_idle:
  assumes "serves view R" "waiting (view s) (\<lambda>_. [])"
  shows "returns (dequeue R priority_order) s (\<lambda>x s'. x = None \<and> waiting (view s') (\<lambda>_. []) \<and> kept (view s) (view s'))"
proof -
  have l: "rv_lists (view s) (queue_key p) = []" for p using assms(2) by (simp add: waiting_none pending_def)
  have k: "rv_keys (view s) PAUSED_KEY \<noteq> Some ''1''" using assms(2) by (simp add: waiting_none)
  show ?thesis
    unfolding dequeue_def is_paused_def returns_simps priority_order_def
    by (rule returns_get [OF assms(1)])
      (use l k in \<open>auto simp: returns_simps pop_id_def waiting_none pending_def kept_def intro!: returns_pop [OF assms(1)]\<close>)
qed

lemma failing_tick:
  assumes "serves view (we_queue E)" "works E t" "waiting (view s) (only r)" "jr_retries r = Some n"
    and "\<not> jr_llm r" "we_registry E (jr_type r) = Some cls" "cls (jr_payload r) = Inr job" "always_fails view (we_queue E) (jr_id r) job e"
  shows "returns (worker_tick E t) s (\<lambda>_ s'.
    if n + 1 < we_max_retries E then waiting (view s') (only (retry_record (ti_clk t 3) (n + 1) r))
    else waiting (view s') (\<lambda>_. []) \<and> (\<exists>r'. stored (view s') (jr_id r) (Some r') \<and> jr_state r' = FAILED
      \<and> jr_error r' = Some e \<and> jr_retries r' = Some n))" (is "returns _ _ ?P")
proof (rule returns_tick [OF assms(2)], rule returns_mono [OF dequeue_next [OF assms(1,3) in_order_only]], elim conjE exE)
  let ?R = "we_queue E" and ?c = "ti_clk t"
  let ?r0 = "r\<lparr>jr_state := RUNNING, jr_started := Some (?c 0)\<rparr>"
  fix x u Q assume x: "x = Some r" and u: "kept (view s) (view u)" "waiting (view u) Q" "in_order Q = []"
  have c: "dt_valid (?c i)" for i using assms(2) by (simp add: works_def)
  have "stored (view s) (jr_id r) (Some r)" using waitingD(1) [OF assms(3), of r] by (simp add: only_def)
  then have st: "stored (view u) (jr_id r) (Some r)" by (rule stored_via) (use u in \<open>simp add: kept_def\<close>)
  have r: "record_ok r" using stored_ne [OF st] by simp
  then have r0: "record_ok ?r0" using c by (simp add: record_ok_def)
  have w: "waiting (view u) (\<lambda>_. [])" using u(2) in_order_none [OF u(3)] by simp
  show "returns (case x of None \<Rightarrow> ret () | Some r \<Rightarrow> execute E (ti_clk t) (ti_duration t) r) u ?P"
    unfolding x option.case execute_def assms(6) assms(7) sum.case if_not_P [OF assms(5)]
  proof (rule returns_try, rule returns_running [OF assms(1) st])
    fix u1 assume v: "view u1 = after (SAdd RUNNING_KEY (jr_id r)) (put_job ?r0 (view u))"
    let ?run = "jb_run job (model_override E r None None) (update_progress ?R (jr_id r)) u1"
    obtain u2 where run: "?run = (Inl e, u2)" and v2: "spares_queue (jr_id r) (view u1) (view u2)"
      using assms(8) [unfolded always_fails_def]
      by (metis prod.collapse)
    have "stored (put_job ?r0 (view u)) (jr_id r) (Some ?r0)" using stored_put [of ?r0 "view u"] r0 by simp
    then have "stored (view u1) (jr_id r) (Some ?r0)" by (rule stored_via) (simp add: v)
    then obtain p where st2: "stored (view u2) (jr_id r) (Some (?r0\<lparr>jr_progress := p\<rparr>))"
      using v2 by (auto simp: spares_queue_def)
    let ?f = "failed_record (?c 2) e (?r0\<lparr>jr_progress := p\<rparr>)"
    have f: "record_ok ?f"
      using stored_ne [OF st2] c assms(8) by (intro failed_record_ok) (simp_all add: always_fails_def)
    have w2: "waiting (settled ts ?f (view u2)) (\<lambda>_. [])" for ts
      using w v2 by (simp add: waiting_none settled_def v spares_queue_def pending_def)
    have "returns (handle_failure E ?c r e) u2 ?P"
    proof (rule returns_failure [OF assms(1) st2 assms(4)], unfold Let_def, cases "n + 1 < we_max_retries E")
      case True
      fix s' assume "view s' = (if n + 1 < we_max_retries E
          then push_job (retry_record (?c 3) (n + 1) r) (settled (timestamp (?c 2)) ?f (view u2))
          else settled (timestamp (?c 2)) ?f (view u2))"
      then show "?P () s'"
        using True waiting_only [OF w2 retry_record_ok [OF r c [of 3]]] by simp
    next
      case False
      fix s' assume "view s' = (if n + 1 < we_max_retries E
          then push_job (retry_record (?c 3) (n + 1) r) (settled (timestamp (?c 2)) ?f (view u2))
          else settled (timestamp (?c 2)) ?f (view u2))"
      then have v': "view s' = settled (timestamp (?c 2)) ?f (view u2)" using False by simp
      have "stored (put_job ?f (view u2)) (jr_id ?f) (Some ?f)" using stored_put [of ?f "view u2"] f by simp
      then have "stored (view s') (jr_id ?f) (Some ?f)" by (rule stored_via) (simp add: v' settled_def)
      then have "stored (view s') (jr_id r) (Some ?f)" by simp
      then show "?P () s'"
        unfolding if_not_P [OF False] using w2 v' assms(4) by (intro conjI exI [of _ ?f]) simp_all
    qed
    then show "returns (run_job E ?c (ti_duration t) r job None None) u1 ?P"
      using run by (simp add: run_job_def try_else_def returns_def)
  qed
qed

text \<open>
  C13. A job that always fails is tried a bounded number of times. This is of a job that needs no model, alone
  in the queue with \<open>n\<close> retries behind it, below the limit, and whose runs fail with a message and may write to
  Redis anything but the pending lists, the pause flag and its own record, apart from its progress: it is
  still the only job that waits after fewer ticks than the limit leaves, with one more retry counted per
  tick; from then on, however many ticks follow, nothing is pending and its record says failed, with
  the last error.
\<close>
theorem failing_job_stops:
  assumes "serves view (we_queue E)" "list_all (works E) ts" "waiting (view s) (only r)" "jr_retries r = Some n"
    and "\<not> jr_llm r" "we_registry E (jr_type r) = Some cls" "cls (jr_payload r) = Inr job" "always_fails view (we_queue E) (jr_id r) job e"
    and "n < we_max_retries E"
  shows "returns (run_ticks E ts) s (\<lambda>_ s'.
    if n + int (length ts) < we_max_retries E
    then \<exists>r'. waiting (view s') (only r') \<and> jr_id r' = jr_id r \<and> jr_retries r' = Some (n + int (length ts))
    else waiting (view s') (\<lambda>_. []) \<and> (\<exists>r'. stored (view s') (jr_id r) (Some r') \<and> jr_state r' = FAILED
      \<and> jr_error r' = Some e \<and> jr_retries r' = Some (we_max_retries E - 1)))"
  using assms(2-9) unfolding run_ticks_def
proof (induction ts arbitrary: s r n)
  case Nil
  then show ?case by (auto simp: returns_simps)
next
  case (Cons t ts)
  let ?done = "\<lambda>s'. waiting (view s') (\<lambda>_. []) \<and> (\<exists>r'. stored (view s') (jr_id r) (Some r') \<and> jr_state r' = FAILED
      \<and> jr_error r' = Some e \<and> jr_retries r' = Some (we_max_retries E - 1))"
  have idle: "returns (fold_eff (\<lambda>t _. worker_tick E t) ts ()) u (\<lambda>_ s'. ?done s')" if "?done u" "list_all (works E) ts" for u
    using that
  proof (induction ts arbitrary: u)
    case (Cons t ts)
    then have t: "works E t" "list_all (works E) ts" "waiting (view u) (\<lambda>_. [])" by simp_all
    have "?done v" if "waiting (view v) (\<lambda>_. [])" "kept (view u) (view v)" for v
      using Cons.prems(1) that stored_via [of "view u" "jr_id r" _ "view v"] by (simp only: kept_def) metis
    note rest = Cons.IH [OF this t(2)]
    show ?case
      unfolding fold_eff.simps returns_simps
      by (rule returns_tick [OF t(1)], rule returns_mono [OF returns_idle [OF assms(1) t(3)]])
        (use rest in \<open>simp add: returns_simps\<close>)
  qed (simp add: returns_simps)
  have t: "works E t" "list_all (works E) ts" using Cons.prems by simp_all
  show ?case
    unfolding fold_eff.simps returns_simps
  proof (rule returns_mono [OF failing_tick [OF assms(1) t(1) Cons.prems(2-7)]], cases "n + 1 < we_max_retries E")
    case True
    let ?r = "retry_record (ti_clk t 3) (n + 1) r"
    fix a :: unit and u assume "if n + 1 < we_max_retries E then waiting (view u) (only ?r) else waiting (view u) (\<lambda>_. []) \<and>
      (\<exists>r'. stored (view u) (jr_id r) (Some r') \<and> jr_state r' = FAILED \<and> jr_error r' = Some e \<and> jr_retries r' = Some n)"
    then have w: "waiting (view u) (only ?r)" using True by simp
    have a: "a = ()" by simp
    show "returns (fold_eff (\<lambda>t _. worker_tick E t) ts a) u (\<lambda>_ s'.
        if n + int (length (t # ts)) < we_max_retries E
        then \<exists>r'. waiting (view s') (only r') \<and> jr_id r' = jr_id r \<and> jr_retries r' = Some (n + int (length (t # ts)))
        else ?done s')"
      unfolding a by (rule returns_mono [OF Cons.IH [OF t(2) w]])
        (use True Cons.prems in \<open>auto simp: algebra_simps split: if_splits\<close>)
  next
    case False
    have n: "n = we_max_retries E - 1" using False Cons.prems(8) by simp
    fix a u assume "if n + 1 < we_max_retries E then waiting (view u) (only (retry_record (ti_clk t 3) (n + 1) r))
      else waiting (view u) (\<lambda>_. []) \<and>
      (\<exists>r'. stored (view u) (jr_id r) (Some r') \<and> jr_state r' = FAILED \<and> jr_error r' = Some e \<and> jr_retries r' = Some n)"
    then have d: "?done u" by (simp add: n)
    have m: "\<not> n + int (length (t # ts)) < we_max_retries E" using False by simp
    then show "returns (fold_eff (\<lambda>t _. worker_tick E t) ts a) u (\<lambda>_ s'.
        if n + int (length (t # ts)) < we_max_retries E
        then \<exists>r'. waiting (view s') (only r') \<and> jr_id r' = jr_id r \<and> jr_retries r' = Some (n + int (length (t # ts)))
        else ?done s')"
      unfolding if_not_P [OF m] using idle [OF d t(2)] by simp
  qed
qed

subsection \<open>The spend that the cap compares\<close>

definition cost_value :: "string \<Rightarrow> rat" where
  "cost_value m =
     (case after_last_colon m of None \<Rightarrow> 0 | Some t \<Rightarrow> (case dec_parse t of None \<Rightarrow> 0 | Some d \<Rightarrow> dec_value d))"

lemma sum_cost_value: "dec_value (sum_cost_members ms) = sum_list (map cost_value ms)"
proof -
  have "dec_value (fold (\<lambda>m total. case after_last_colon m of
             None \<Rightarrow> total
           | Some t \<Rightarrow> (case dec_parse t of None \<Rightarrow> total | Some d \<Rightarrow> dec_add total d)) ms x) =
      dec_value x + sum_list (map cost_value ms)" for x
    by (induction ms arbitrary: x) (simp_all add: cost_value_def split: option.split)
  then show ?thesis by (simp add: sum_cost_members_def dec_value_def)
qed

lemma cost_value_member: "cost_value (cost_member jid c) = dec_value c"
proof -
  have "list_all is_digit (show_nat n)" for n using show_nat_digits by (auto simp: list_all_iff)
  from dec_body_chars [OF this]
  have "CHR '':'' \<notin> set (dec_str c)" by (fastforce simp: dec_str_def list_all_iff is_digit_def)
  then have "takeWhile (\<lambda>x. x \<noteq> CHR '':'') (rev (dec_str c) @ CHR '':'' # rev jid) = rev (dec_str c)"
    by (intro takeWhile_run) (auto simp: list_all_iff)
  then show ?thesis by (simp add: cost_value_def after_last_colon_def cost_member_def dec_roundtrip)
qed

lemma from_score_put:
  assumes "m \<notin> snd ` set z" "lo \<le> sc"
  shows "mset (from_score lo (put_member m sc z)) = add_mset m (mset (from_score lo z))"
proof -
  have "drop_member m z = z" using assms(1) by (force simp: drop_member_def intro: filter_True)
  with assms(2) show ?thesis by (simp add: from_score_def put_member_def)
qed

lemma sum_list_mset: "mset xs = mset ys \<Longrightarrow> sum_list (map f xs) = (sum_list (map f ys) :: rat)"
  by (metis mset_map sum_mset_sum_list)

lemma returns_completion_cost:
  assumes "serves view R"
    and "\<And>s'. rv_zsets (view s') COST_KEY = put_member (cost_member jid cost) ts (rv_zsets (view s) COST_KEY) \<Longrightarrow> P () s'"
  shows "returns (record_completion R jid ts cost ty d) s P"
proof -
  have k: "COMPLETED_KEY \<noteq> COST_KEY" by (simp add: COMPLETED_KEY_def COST_KEY_def)
  show ?thesis
    unfolding record_completion_def sync_record_completion_def
    by (rule returns_catch, unfold returns_simps, rule returns_do [OF assms(1)], rule returns_do [OF assms(1)])
      (use assms(2) k in \<open>auto simp: returns_simps split: option.split intro!: returns_do [OF assms(1)]\<close>)
qed

text \<open>
  The monthly spend that the cap is compared with counts every completion: after a job that
  ended in the current month is recorded, the month's reader returns its previous total plus the
  recorded cost, read back exactly from the text that was stored.
\<close>
theorem spend_accumulates:
  assumes "serves view R" "cost_member jid cost \<notin> snd ` set (rv_zsets (view s) COST_KEY)"
    and "timestamp (month_start now) \<le> ts"
  shows "returns (bind_eff (processor_cost_usd_month R now) (\<lambda>before.
      then_eff (record_completion R jid ts cost ty d)
        (bind_eff (processor_cost_usd_month R now) (\<lambda>after. ret (before, after))))) s
    (\<lambda>(before, after) _. dec_value after = dec_value before + dec_value cost)"
  unfolding returns_simps processor_cost_usd_month_def
proof (rule returns_cost [OF assms(1)], rule returns_completion_cost [OF assms(1)], rule returns_cost [OF assms(1)], unfold prod.case)
  let ?lo = "timestamp (month_start now)" and ?z = "rv_zsets (view s) COST_KEY" and ?m = "cost_member jid cost"
  fix s1 s2 assume v: "view s1 = view s" "rv_zsets (view s2) COST_KEY = put_member ?m ts (rv_zsets (view s1) COST_KEY)"
  have "mset (from_score ?lo (put_member ?m ts ?z)) = mset (?m # from_score ?lo ?z)"
    using from_score_put [OF assms(2,3)] by simp
  then have "sum_list (map cost_value (from_score ?lo (put_member ?m ts ?z))) = sum_list (map cost_value (?m # from_score ?lo ?z))"
    by (rule sum_list_mset)
  then show "dec_value (sum_cost_members (from_score ?lo (rv_zsets (view s2) COST_KEY))) =
      dec_value (sum_cost_members (from_score ?lo ?z)) + dec_value cost"
    unfolding v(2) v(1) sum_cost_value by (simp add: cost_value_member)
qed

end
