(* ===== verification/ProcessorSamples.thy ===== *)
theory ProcessorSamples
  imports WorkerRetries
begin

text \<open>
  A small store and a worker environment on which the properties of the processor are evaluated.
\<close>

definition noon :: pydatetime where
  "noon = \<lparr>dt_year = 2026, dt_month = 1, dt_day = 5, dt_hour = 12, dt_minute = 0, dt_second = 0, dt_micro = 0, dt_offset = Some 0\<rparr>"

definition job_of :: "string \<Rightarrow> priority \<Rightarrow> job_record" where
  "job_of jid p =
     \<lparr>jr_id = jid, jr_type = ''wiki'', jr_state = PENDING, jr_priority = p, jr_payload = PDict [], jr_enqueued = noon,
      jr_retries = Some 0, jr_started = None, jr_completed = None, jr_est_in = Some 600, jr_est_out = Some 500,
      jr_act_in = None, jr_act_out = None, jr_llm = False, jr_model = None, jr_error = None, jr_metadata = PDict [],
      jr_progress = 0\<rparr>"

definition store_of :: "job_record list \<Rightarrow> string list \<Rightarrow> rstore" where
  \<comment> \<open>these jobs, those of these ids running and the others pending\<close>
  "store_of rs running = empty_store\<lparr>
     rs_hashes := (\<lambda>k. case find (\<lambda>r. job_key (jr_id r) = k) rs of None \<Rightarrow> [] | Some r \<Rightarrow> record_to_mapping r),
     rs_lists := (\<lambda>k. rev (map jr_id (filter (\<lambda>r. queue_key (jr_priority r) = k \<and> jr_id r \<notin> set running) rs))),
     rs_sets := (\<lambda>k. if k = RUNNING_KEY then running else [])\<rparr>"

definition failing_job :: "rstore job" where
  "failing_job = \<lparr>jb_run = (\<lambda>ov cb s. (Inl ''boom'', s)), jb_estimate = Inl ''none''\<rparr>"

definition worker_of :: "rstore job \<Rightarrow> rstore worker_env" where
  "worker_of job =
     \<lparr>we_queue = run_store, we_metrics = Some run_store, we_registry = (\<lambda>ty. Some (\<lambda>v. Inr job)),
      we_max_retries = DEFAULT_MAX_RETRIES, we_mode = Some ''hybrid'', we_threshold = 1000, we_cap = Dec 0 0,
      we_cap_fallback = ''hold'', we_smart = None, we_egress_refused = False, we_is_local = (\<lambda>m. False)\<rparr>"

definition quiet_tick :: tick_input where
  "quiet_tick = \<lparr>ti_clk = (\<lambda>n. noon), ti_load = None, ti_ceiling = 1, ti_suffix = ''00'', ti_duration = 1\<rparr>"

lemma worker_of_simps [simp]: "we_queue (worker_of job) = run_store" "we_metrics (worker_of job) = Some run_store"
    "we_registry (worker_of job) ty = Some (\<lambda>v. Inr job)" "we_max_retries (worker_of job) = 3"
    "we_mode (worker_of job) = Some ''hybrid''" "we_threshold (worker_of job) = 1000" "we_cap (worker_of job) = Dec 0 0"
    "we_cap_fallback (worker_of job) = ''hold''"
  by (simp_all add: worker_of_def DEFAULT_MAX_RETRIES_def)

lemma noon_valid [simp]: "dt_valid noon"
  by (simp add: noon_def dt_valid_def days_in_month_def)

lemma job_of_simps [simp]: "jr_id (job_of jid p) = jid" "jr_priority (job_of jid p) = p" "jr_type (job_of jid p) = ''wiki''"
    "jr_payload (job_of jid p) = PDict []" "jr_state (job_of jid p) = PENDING" "jr_retries (job_of jid p) = Some 0"
    "jr_llm (job_of jid p) = False" "jr_est_in (job_of jid p) = Some 600" "jr_est_out (job_of jid p) = Some 500"
    "jr_enqueued (job_of jid p) = noon"
  by (simp_all add: job_of_def)

lemma job_of_ok [simp]: "record_ok (job_of jid p) \<longleftrightarrow> jid \<noteq> []"
  by (simp add: record_ok_def job_of_def decimal_ok_def)

lemma store_of_simps [simp]: "rv_keys (store_view (store_of rs run)) k = None" "rv_zsets (store_view (store_of rs run)) k = []"
    "rv_sets (store_view (store_of rs run)) RUNNING_KEY = set run"
    "pending p (store_view (store_of rs run)) = map jr_id (filter (\<lambda>r. jr_priority r = p \<and> jr_id r \<notin> set run) rs)"
  by (simp_all add: store_view_def store_of_def empty_store_def pending_def)

lemma stored_store_of:
  "find (\<lambda>r. jr_id r = j) rs = x \<Longrightarrow> (\<And>r. x = Some r \<Longrightarrow> record_ok r) \<Longrightarrow> stored (store_view (store_of rs run)) j x"
  by (auto simp: stored_def store_view_def store_of_def empty_store_def find_Some_iff split: option.split)

lemma waiting_store_of:
  "list_all record_ok rs \<Longrightarrow> distinct (map jr_id rs) \<Longrightarrow> waiting (store_view (store_of rs [])) (\<lambda>p. filter (\<lambda>r. jr_priority r = p) rs)"
proof (rule waitingI)
  fix p r assume a: "list_all record_ok rs" "distinct (map jr_id rs)" "r \<in> set (filter (\<lambda>r. jr_priority r = p) rs)"
  then have "r \<in> set rs" by simp
  with a(2) have "find (\<lambda>x. jr_id x = jr_id r) rs = Some r"
    by (induction rs) (auto simp: image_iff)
  then show "stored (store_view (store_of rs [])) (jr_id r) (Some r) \<and> jr_priority r = p"
    using a by (auto intro!: stored_store_of simp: list_all_iff)
qed simp_all

lemma quiet_works: "works (worker_of job) quiet_tick"
proof -
  have "\<not> processor_is_disabled (resolve_processor_mode (Some ''hybrid''))" by code_simp
  then show ?thesis by (simp add: works_def quiet_tick_def is_throttled_def)
qed

subsection \<open>The queue\<close>

theorem work_in_order_witness:
  "returns (then_eff (enqueue_all run_store [job_of ''a'' LOW, job_of ''b'' HIGH, job_of ''c'' LOW]) (drain run_store 3)) empty_store
    (\<lambda>out s'. out = map Some [job_of ''b'' HIGH, job_of ''a'' LOW, job_of ''c'' LOW] \<and> (\<forall>p. pending p (store_view s') = []))"
  using work_in_order [OF store_serves, of empty_store "[job_of ''a'' LOW, job_of ''b'' HIGH, job_of ''c'' LOW]"]
  by (simp add: pending_def store_view_def empty_store_def numeral_3_eq_3)

theorem enqueued_job_read_back_witness:
  "returns (then_eff (enqueue run_store (job_of ''a'' LOW)) (get_job run_store ''a'')) empty_store
    (\<lambda>x s'. x = Some (job_of ''a'' LOW))"
  using enqueued_job_read_back [OF store_serves, of "job_of ''a'' LOW"] by simp

theorem recovery_requeues_witness:
  "returns (recover_orphaned_running run_store) (store_of [(job_of ''a'' LOW)\<lparr>jr_state := RUNNING\<rparr>] [''a''])
    (\<lambda>ids s'. rv_sets (store_view s') RUNNING_KEY = {} \<and> pending LOW (store_view s') = [''a''])"
proof -
  let ?r = "(job_of ''a'' LOW)\<lparr>jr_state := RUNNING\<rparr>"
  let ?jobs = "\<lambda>j. if j = ''a'' then Some ?r else None"
  have ok: "record_ok ?r" by (simp add: record_ok_def job_of_def decimal_ok_def)
  have "\<forall>j \<in> rv_sets (store_view (store_of [?r] [''a''])) RUNNING_KEY. stored (store_view (store_of [?r] [''a''])) j (?jobs j)"
    using ok by (auto intro!: stored_store_of)
  from recovery_requeues [OF store_serves this]
  show ?thesis
  proof (rule returns_mono, elim conjE, intro conjI)
    fix ids :: "string list" and s'
    assume d: "distinct ids" "set ids = {j \<in> rv_sets (store_view (store_of [?r] [''a''])) RUNNING_KEY. orphan ?jobs j}"
      and q: "requeues ?jobs (store_view (store_of [?r] [''a''])) ids (store_view s')"
    have "set ids = {''a''}" using d(2) by (auto simp: orphan_def)
    with d(1) have "ids = [''a'']" by (cases ids; cases "tl ids") auto
    with q show "pending LOW (store_view s') = [''a'']" by (simp add: requeues_def)
  qed
qed

theorem settling_ends_job_witness:
  "returns (mark_failed run_store noon ''a'' ''boom'') (store_of [job_of ''a'' LOW] [''a''])
    (\<lambda>_. ended store_view (store_of [job_of ''a'' LOW] [''a'']) FAILED (failed_record noon ''boom'' (job_of ''a'' LOW)))"
proof -
  have "stored (store_view (store_of [job_of ''a'' LOW] [''a''])) ''a'' (Some (job_of ''a'' LOW))"
    by (rule stored_store_of) auto
  from settling_ends_job [OF store_serves this noon_valid, of "held_result ''a'' ''x''" "''boom''"]
  show ?thesis by (simp add: held_result_def)
qed

theorem duplicates_collapse_witness:
  "returns (enqueue_if_absent run_store 3600 (\<lambda>n. noon) (job_of ''b'' HIGH)) (store_of [job_of ''a'' LOW] [])
    (\<lambda>x s'. x = None \<and> (\<forall>q. set (pending q (store_view s')) \<subseteq> set (pending q (store_view (store_of [job_of ''a'' LOW] [])))))"
proof (rule duplicates_collapse [OF store_serves])
  show "stored (store_view (store_of [job_of ''a'' LOW] [])) ''a'' (Some (job_of ''a'' LOW))" by (rule stored_store_of) auto
  have "\<not> is_stale_pending 3600 noon (Some (isoformat noon))"
    using isoformat_roundtrip [OF noon_valid] by (simp add: is_stale_pending_def noon_def isoformat_def)
  then show "''a'' \<in> rv_sets (store_view (store_of [job_of ''a'' LOW] [])) RUNNING_KEY
    \<or> ''a'' \<in> set (pending LOW (store_view (store_of [job_of ''a'' LOW] []))) \<and> fresh 3600 (\<lambda>n. noon) (job_of ''a'' LOW)"
    by (simp add: fresh_def)
qed simp_all

theorem expired_head_hides_work_witness:
  "returns (dequeue run_store priority_order)
      ((store_of [] [])\<lparr>rs_lists := (\<lambda>k. if k = queue_key HIGH then [''b'', ''a''] else [])\<rparr>)
    (\<lambda>x s'. x = None \<and> pending HIGH (store_view s') = [''b''])"
proof -
  let ?s = "(store_of [] [])\<lparr>rs_lists := (\<lambda>k. if k = queue_key HIGH then [''b'', ''a''] else [])\<rparr>"
  have "rv_keys (store_view ?s) PAUSED_KEY \<noteq> Some ''1''" "pending HIGH (store_view ?s) = [''a'', ''b'']"
    "stored (store_view ?s) ''a'' None"
    by (simp_all add: store_view_def store_of_def empty_store_def pending_def stored_def)
  from expired_head_hides_work [OF store_serves this(1,2) _ this(3)]
  show ?thesis by (rule returns_mono) simp_all
qed

theorem dequeued_job_not_recovered_witness:
  "returns (bind_eff (dequeue run_store priority_order) (\<lambda>_. recover_orphaned_running run_store)) (store_of [job_of ''a'' LOW] [])
    (\<lambda>ids s'. ids = [] \<and> stored (store_view s') ''a'' (Some (job_of ''a'' LOW)) \<and> (\<forall>p. ''a'' \<notin> set (pending p (store_view s'))))"
proof -
  let ?Q = "\<lambda>p. filter (\<lambda>r. jr_priority r = p) [job_of ''a'' LOW]"
  have "waiting (store_view (store_of [job_of ''a'' LOW] [])) ?Q" by (rule waiting_store_of) simp_all
  moreover have "in_order ?Q = [job_of ''a'' LOW]" by (simp add: in_order_def priority_order_def)
  ultimately show ?thesis
    using dequeued_job_not_recovered [OF store_serves, of "store_of [job_of ''a'' LOW] []" ?Q "job_of ''a'' LOW" "[]"] by simp
qed

subsection \<open>The worker\<close>

lemma failing_always: "always_fails store_view run_store jid failing_job ''boom''"
proof -
  have "r\<lparr>jr_progress := jr_progress r\<rparr> = r" for r :: job_record by simp
  then have "spares_queue jid v v" for v unfolding spares_queue_def by metis
  then show ?thesis by (simp add: always_fails_def failing_job_def)
qed

lemma failing_tidy: "tidy_job store_view run_store jid failing_job"
  by (rule reports_tidy) (simp add: failing_job_def)

theorem dispatched_job_settles_witness:
  "returns (execute (worker_of failing_job) (\<lambda>n. noon) 1 (job_of ''a'' LOW)) (store_of [job_of ''a'' LOW] [])
    (\<lambda>_ s'. job_settled 3 (job_of ''a'' LOW) (store_view s'))"
proof -
  have "stored (store_view (store_of [job_of ''a'' LOW] [])) (jr_id (job_of ''a'' LOW)) (Some (job_of ''a'' LOW))"
    by (rule stored_store_of) auto
  then show ?thesis
    using dispatched_job_settles [of store_view "worker_of failing_job" _ "job_of ''a'' LOW" "\<lambda>n. noon" 1] store_serves failing_tidy
    by simp
qed

theorem capped_job_held_witness:
  "returns (execute (worker_of failing_job) (\<lambda>n. noon) 1 ((job_of ''a'' LOW)\<lparr>jr_llm := True\<rparr>))
      (store_of [(job_of ''a'' LOW)\<lparr>jr_llm := True\<rparr>] [])
    (\<lambda>_ s'. \<exists>r'. stored (store_view s') ''a'' (Some r') \<and> jr_state r' = HELD)"
proof -
  let ?r = "(job_of ''a'' LOW)\<lparr>jr_llm := True\<rparr>"
  have ok: "record_ok ?r" by (simp add: record_ok_def job_of_def decimal_ok_def)
  have st: "stored (store_view (store_of [?r] [])) (jr_id ?r) (Some ?r)"
    using ok by (auto intro!: stored_store_of)
  have sp: "\<not> dec_less (spend_at (worker_of failing_job) noon (store_view (store_of [?r] []))) (Dec 0 0)"
    by (simp add: spend_at_def from_score_def sum_cost_members_def dec_less_def)
  have m: "resolve_processor_mode (Some ''hybrid'') = ''hybrid''" by code_simp
  from capped_job_held [of store_view "worker_of failing_job" _ ?r "\<lambda>n. noon" "\<lambda>v. Inr failing_job" failing_job 600 500 1,
      OF _ _ st] store_serves sp m
  have "returns (execute (worker_of failing_job) (\<lambda>n. noon) 1 ?r) (store_of [?r] []) (\<lambda>_ s'. \<exists>r'.
    stored (store_view s') (jr_id ?r) (Some r') \<and> jr_state r' = HELD \<and> jr_act_in r' = Some 0 \<and> jr_act_out r' = Some 0
    \<and> jr_id ?r \<notin> rv_sets (store_view s') RUNNING_KEY \<and> rv_lists (store_view s') = rv_lists (store_view (store_of [?r] [])))"
    by simp
  then show ?thesis by (rule returns_mono) auto
qed

theorem failing_job_stops_witness:
  "returns (run_ticks (worker_of failing_job) (replicate 5 quiet_tick)) (store_of [job_of ''a'' LOW] [])
    (\<lambda>_ s'. waiting (store_view s') (\<lambda>_. []) \<and> (\<exists>r'. stored (store_view s') ''a'' (Some r') \<and> jr_state r' = FAILED
      \<and> jr_error r' = Some ''boom'' \<and> jr_retries r' = Some 2))"
proof -
  have w: "waiting (store_view (store_of [job_of ''a'' LOW] [])) (only (job_of ''a'' LOW))"
  proof -
    have "(\<lambda>p. filter (\<lambda>r. jr_priority r = p) [job_of ''a'' LOW]) = only (job_of ''a'' LOW)" by (auto simp: only_def fun_eq_iff)
    then show ?thesis using waiting_store_of [of "[job_of ''a'' LOW]"] by simp
  qed
  have t: "list_all (works (worker_of failing_job)) (replicate 5 quiet_tick)" using quiet_works by (simp add: list_all_iff)
  show ?thesis
    using failing_job_stops [where view = store_view and E = "worker_of failing_job" and ts = "replicate 5 quiet_tick"
        and r = "job_of ''a'' LOW" and n = 0 and cls = "\<lambda>v. Inr failing_job" and job = failing_job and e = "''boom''",
        OF _ t w] store_serves failing_always
    by simp
qed

theorem spend_accumulates_witness:
  "returns (bind_eff (processor_cost_usd_month run_store noon) (\<lambda>before.
      then_eff (record_completion run_store ''a'' (timestamp noon) (Dec 15 (- 4)) (Some ''wiki'') (Some 1))
        (bind_eff (processor_cost_usd_month run_store noon) (\<lambda>after. ret (before, after))))) empty_store
    (\<lambda>(before, after) _. dec_value after = dec_value before + dec_value (Dec 15 (- 4)))"
proof (rule spend_accumulates [OF store_serves])
  show "timestamp (month_start noon) \<le> timestamp noon" by code_simp
qed (simp add: store_view_def empty_store_def)

end
