(* ===== verification/ForgetRegistry.thy ===== *)
theory ForgetRegistry
  imports Json Effects "HOL-Library.Product_Lexorder"
begin

text \<open>
  The forget registry (\<^verbatim>\<open>core/forget/registry.py\<close>): append-only logs of what a user asked to forget, one
  file per machine in a shared folder, their index, the local snapshot that stands in for an
  unreachable folder, and the cancellation of forgets by re-added content. The disk is a value: the
  files of the folder with their modification times, and the snapshot file.
\<close>

subsection \<open>Entries\<close>

definition FORGET_KINDS :: "string list" where
  "FORGET_KINDS = [''conversation'', ''artifact'', ''chunk'', ''memory'', ''operator_entry'']"

definition FORGET_STATES :: "string list" where
  "FORGET_STATES = [''trashed'', ''restored'', ''purged'', ''readded'']"

definition FORGOTTEN_STATES :: "string list" where
  "FORGOTTEN_STATES = [''trashed'', ''purged'']"

datatype subject = Subject (sb_kind: string) (sb_id: string)

record forget_entry =
  fe_forget :: string
  fe_subject :: subject
  fe_state :: string
  fe_at :: string
  fe_machine :: string
  fe_by :: string
  fe_user :: string

definition entry_to_json :: "forget_entry \<Rightarrow> pyval" where
  "entry_to_json e =
     PDict [(''forget_id'', PStr (fe_forget e)),
            (''subject'', PDict [(''kind'', PStr (sb_kind (fe_subject e))), (''id'', PStr (sb_id (fe_subject e)))]),
            (''state'', PStr (fe_state e)), (''at'', PStr (fe_at e)), (''machine_id'', PStr (fe_machine e)),
            (''requested_by'', PStr (fe_by e)), (''user_id'', PStr (fe_user e))]"

definition entry_of_json :: "pyval \<Rightarrow> forget_entry option" where
  "entry_of_json row =
     (case row of
        PDict d \<Rightarrow>
          (case dget d ''subject'' of
             PDict subj \<Rightarrow>
               if \<not> (has_key d ''forget_id'' \<and> has_key subj ''kind'' \<and> has_key subj ''id'' \<and> has_key d ''state'' \<and> has_key d ''at'')
               then None
               else
                 (let e = \<lparr>fe_forget = py_str (dget d ''forget_id''),
                           fe_subject = Subject (py_str (dget subj ''kind'')) (py_str (dget subj ''id'')),
                           fe_state = py_str (dget d ''state''), fe_at = py_str (dget d ''at''),
                           fe_machine = py_str (dget_or d ''machine_id'' (PStr [])),
                           fe_by = py_str (dget_or d ''requested_by'' (PStr [])),
                           fe_user = py_str (dget_or d ''user_id'' (PStr []))\<rparr>
                  in if sb_kind (fe_subject e) \<notin> set FORGET_KINDS \<or> fe_state e \<notin> set FORGET_STATES \<or> sb_id (fe_subject e) = []
                     then None else Some e)
           | _ \<Rightarrow> None)
      | _ \<Rightarrow> None)"

function sort_keys :: "pyval \<Rightarrow> pyval" where
  \<comment> \<open>\<open>sort_keys=True\<close>\<close>
  "sort_keys (PList xs) = PList (map sort_keys xs)"
| "sort_keys (PDict d) = PDict (sort_key fst (map (\<lambda>kv. (fst kv, sort_keys (snd kv))) d))"
| "sort_keys PNone = PNone"
| "sort_keys (PBool b) = PBool b"
| "sort_keys (PInt i) = PInt i"
| "sort_keys (PFloat r) = PFloat r"
| "sort_keys (PStr s) = PStr s"
  by pat_completeness auto
termination
  by (relation "measure size") (auto dest: plist_size pdict_size)

definition entry_line :: "forget_entry \<Rightarrow> string" where
  "entry_line e = json_dumps (sort_keys (entry_to_json e)) @ [CHR 0x0A]"

definition parse_lines :: "string list \<Rightarrow> forget_entry list" where
  "parse_lines ls = List.map_filter (\<lambda>l. case json_loads l of None \<Rightarrow> None | Some v \<Rightarrow> entry_of_json v) ls"

definition forget_wins :: "forget_entry \<Rightarrow> forget_entry option \<Rightarrow> bool" where
  "forget_wins new old =
     (case old of
        None \<Rightarrow> True
      | Some prev \<Rightarrow>
          if fe_state prev = ''purged'' \<and> fe_state new \<noteq> ''purged'' then False
          else if fe_state new = ''purged'' \<and> fe_state prev \<noteq> ''purged'' then True
          else fe_at prev \<le> fe_at new)"

subsection \<open>The registry and its disk\<close>

record reg_file =
  rf_text :: string
  rf_mtime :: int
  rf_readable :: bool

record reg_disk =
  rd_dir :: "(string \<times> reg_file) list option" \<comment> \<open>the files of the folder by name, \<open>None\<close> where it is missing\<close>
  rd_listable :: bool
  rd_snapshot :: "string option"
  rd_snap_readable :: bool
  rd_snap_writable :: bool

record registry =
  rg_root :: bool \<comment> \<open>a sync folder is configured\<close>
  rg_machine :: string
  rg_keeps_snapshot :: bool
  rg_signature :: "(string \<times> int \<times> int) list"
  rg_loaded :: bool
  rg_unreachable :: bool
  rg_per_file :: "(string \<times> forget_entry list) list"
  rg_by_subject :: "(subject \<times> forget_entry) list"
  rg_all :: "forget_entry list"
  rg_live :: "(subject \<times> string list) list"
  rg_live_by :: "(subject \<times> (string \<times> string) list) list"

definition new_registry :: "bool \<Rightarrow> string \<Rightarrow> bool \<Rightarrow> registry" where
  "new_registry synced mid snap =
     \<lparr>rg_root = synced, rg_machine = mid, rg_keeps_snapshot = snap, rg_signature = [], rg_loaded = False,
      rg_unreachable = False, rg_per_file = [], rg_by_subject = [], rg_all = [], rg_live = [], rg_live_by = []\<rparr>"

definition registry_name :: "string \<Rightarrow> bool" where
  \<comment> \<open>\<open>registry*.jsonl\<close>\<close>
  "registry_name n = (starts_with ''registry'' n \<and> ends_with ''.jsonl'' n)"

definition registry_files :: "registry \<Rightarrow> reg_disk \<Rightarrow> (string \<times> reg_file) list option" where
  \<comment> \<open>a file whose status cannot be read is skipped by the code: it is one that the folder value leaves out\<close>
  "registry_files r d =
     (if \<not> rg_root r then Some []
      else case rd_dir d of
             None \<Rightarrow> None
           | Some fs \<Rightarrow> if \<not> rd_listable d then None else Some (sort_key fst (filter (\<lambda>f. registry_name (fst f)) fs)))"

definition read_snapshot :: "registry \<Rightarrow> reg_disk \<Rightarrow> forget_entry list" where
  "read_snapshot r d =
     (if \<not> rg_keeps_snapshot r \<or> \<not> rd_snap_readable d then []
      else case rd_snapshot d of None \<Rightarrow> [] | Some t \<Rightarrow> parse_lines (splitlines t))"

definition write_snapshot :: "registry \<Rightarrow> forget_entry list \<Rightarrow> reg_disk \<Rightarrow> reg_disk" where
  "write_snapshot r es d =
     (if rg_keeps_snapshot r \<and> rd_snap_writable d then d\<lparr>rd_snapshot := Some (concat (map entry_line es))\<rparr> else d)"

subsection \<open>The index\<close>

definition forget_cancelled :: "forget_entry list \<Rightarrow> (subject \<times> string) list" where
  "forget_cancelled es = map (\<lambda>e. (fe_subject e, fe_forget e)) (filter (\<lambda>e. fe_state e = ''readded'') es)"

type_synonym by_forget = "((subject \<times> string) \<times> forget_entry) list"

definition index_step ::
    "(subject \<times> string) list \<Rightarrow> forget_entry \<Rightarrow> by_forget \<times> (subject \<times> forget_entry) list
     \<Rightarrow> by_forget \<times> (subject \<times> forget_entry) list" where
  "index_step cancelled e acc =
     (let (per, readds) = acc; s = fe_subject e; k = (s, fe_forget e)
      in if fe_state e = ''readded''
         then (per, case map_of readds s of
                      None \<Rightarrow> AList.update s e readds
                    | Some prev \<Rightarrow> if fe_at prev \<le> fe_at e then AList.update s e readds else readds)
         else if k \<notin> set cancelled \<and> forget_wins e (map_of per k) then (AList.update k e per, readds)
         else acc)"

definition put_winner :: "forget_entry \<Rightarrow> (subject \<times> forget_entry) list \<Rightarrow> (subject \<times> forget_entry) list" where
  "put_winner e bucket =
     (if forget_wins e (map_of bucket (fe_subject e)) then AList.update (fe_subject e) e bucket else bucket)"

record forget_buckets =
  fb_forgotten :: "(subject \<times> forget_entry) list"
  fb_other :: "(subject \<times> forget_entry) list"
  fb_live :: "(subject \<times> string list) list"
  fb_live_by :: "(subject \<times> (string \<times> string) list) list"

definition bucket_step :: "(subject \<times> string) \<times> forget_entry \<Rightarrow> forget_buckets \<Rightarrow> forget_buckets" where
  "bucket_step kv b =
     (let ((s, f), e) = kv
      in if fe_state e \<in> set FORGOTTEN_STATES
         then b\<lparr>fb_forgotten := put_winner e (fb_forgotten b),
                fb_live := AList.update s (List.insert f (case map_of (fb_live b) s of None \<Rightarrow> [] | Some fs \<Rightarrow> fs)) (fb_live b),
                fb_live_by := AList.update s
                  (AList.update f (fe_by e) (case map_of (fb_live_by b) s of None \<Rightarrow> [] | Some m \<Rightarrow> m)) (fb_live_by b)\<rparr>
         else b\<lparr>fb_other := put_winner e (fb_other b)\<rparr>)"

definition index_entries :: "forget_entry list \<Rightarrow> (string \<times> int \<times> int) list \<Rightarrow> registry \<Rightarrow> registry" where
  "index_entries es sig r =
     (let (per, readds) = fold (index_step (forget_cancelled es)) es ([], []);
          b = fold bucket_step per \<lparr>fb_forgotten = [], fb_other = [], fb_live = [], fb_live_by = []\<rparr>;
          merged = fold (\<lambda>(s, e). AList.update s e) (fb_forgotten b) (fb_other b);
          by_subject = fold (\<lambda>(s, e) m. if map_of m s = None then AList.update s e m else m) readds merged
      in r\<lparr>rg_by_subject := by_subject, rg_all := es, rg_signature := sig, rg_live := fb_live b,
           rg_live_by := fb_live_by b, rg_loaded := True\<rparr>)"

definition file_signature :: "(string \<times> reg_file) list \<Rightarrow> (string \<times> int \<times> int) list" where
  "file_signature fs = map (\<lambda>(n, f). (n, int (length (rf_text f)), rf_mtime f)) fs"

definition file_entries :: "registry \<Rightarrow> string \<times> reg_file \<Rightarrow> forget_entry list" where
  \<comment> \<open>what a file says now, or what it said when it was last read\<close>
  "file_entries r nf =
     (if rf_readable (snd nf) then parse_lines (splitlines (rf_text (snd nf)))
      else case map_of (rg_per_file r) (fst nf) of None \<Rightarrow> [] | Some es \<Rightarrow> es)"

definition reload :: "(string \<times> reg_file) list \<Rightarrow> registry \<Rightarrow> reg_disk \<Rightarrow> registry \<times> reg_disk" where
  "reload fs r d =
     (let per_file = map (\<lambda>nf. (fst nf, file_entries r nf)) fs; everything = concat (map snd per_file);
          r1 = r\<lparr>rg_per_file := per_file\<rparr>
      in if list_ex (\<lambda>nf. \<not> rf_readable (snd nf)) fs
         then (index_entries (everything @ filter (\<lambda>e. e \<notin> set everything) (read_snapshot r d)) [] r1, d)
         else (index_entries everything (file_signature fs) r1, write_snapshot r everything d))"

definition reg_refresh :: "registry \<Rightarrow> reg_disk \<Rightarrow> registry \<times> reg_disk" where
  "reg_refresh r d =
     (let files = (case registry_files r d of None \<Rightarrow> [] | Some fs \<Rightarrow> fs);
          known = (if rg_loaded r then rg_all r else read_snapshot r d)
      in if files = [] \<and> known \<noteq> []
         then (let r1 = r\<lparr>rg_unreachable := True\<rparr> in (if rg_loaded r then r1 else index_entries known [] r1, d))
         else
           (let r1 = r\<lparr>rg_unreachable := False\<rparr>
            in if rg_loaded r \<and> file_signature files = rg_signature r then (r1, d) else reload files r1 d))"

subsection \<open>Writing\<close>

definition own_file :: "registry \<Rightarrow> string" where
  "own_file r = ''registry-'' @ rg_machine r @ ''.jsonl''"

definition appended_text :: "string \<Rightarrow> forget_entry list \<Rightarrow> string" where
  \<comment> \<open>a write that was cut short gets its line ended first\<close>
  "appended_text old es =
     old @ (if old \<noteq> [] \<and> last old \<noteq> CHR 0x0A then [CHR 0x0A] else []) @ concat (map entry_line es)"

definition reg_append :: "int \<Rightarrow> forget_entry list \<Rightarrow> registry \<Rightarrow> reg_disk \<Rightarrow> string + registry \<times> reg_disk" where
  \<comment> \<open>the folder is made where it is missing; the file is created where it is missing\<close>
  "reg_append now es r d =
     (if \<not> rg_root r then Inl ''RuntimeError''
      else
        (let fs = (case rd_dir d of None \<Rightarrow> [] | Some fs \<Rightarrow> fs);
             old = (case map_of fs (own_file r) of None \<Rightarrow> \<lparr>rf_text = [], rf_mtime = now, rf_readable = True\<rparr> | Some f \<Rightarrow> f)
         in Inr (r\<lparr>rg_signature := []\<rparr>,
                 d\<lparr>rd_dir := Some (AList.update (own_file r)
                     (old\<lparr>rf_text := appended_text (rf_text old) es, rf_mtime := now\<rparr>) fs)\<rparr>)))"

subsection \<open>Reading\<close>

definition state_in :: "registry \<Rightarrow> subject \<Rightarrow> string option" where
  "state_in r s = map_option fe_state (map_of (rg_by_subject r) s)"

definition subject_state :: "subject \<Rightarrow> registry \<Rightarrow> reg_disk \<Rightarrow> string option" where
  "subject_state s r d = state_in (fst (reg_refresh r d)) s"

definition forgotten_in :: "registry \<Rightarrow> subject \<Rightarrow> bool" where
  "forgotten_in r s = (case state_in r s of None \<Rightarrow> False | Some st \<Rightarrow> st \<in> set FORGOTTEN_STATES)"

definition is_forgotten :: "string \<Rightarrow> string \<Rightarrow> registry \<Rightarrow> reg_disk \<Rightarrow> bool" where
  "is_forgotten kind i r d = (i \<noteq> [] \<and> forgotten_in (fst (reg_refresh r d)) (Subject kind i))"

definition ids_in_states :: "string \<Rightarrow> string list \<Rightarrow> registry \<Rightarrow> string list" where
  \<comment> \<open>over the entries kept after a refresh\<close>
  "ids_in_states kind states r =
     map (\<lambda>(s, e). sb_id s) (filter (\<lambda>(s, e). sb_kind s = kind \<and> fe_state e \<in> set states) (rg_by_subject r))"

definition forgotten_ids :: "string \<Rightarrow> registry \<Rightarrow> reg_disk \<Rightarrow> string list" where
  "forgotten_ids kind r d = ids_in_states kind FORGOTTEN_STATES (fst (reg_refresh r d))"

definition purged_ids :: "string \<Rightarrow> registry \<Rightarrow> reg_disk \<Rightarrow> string list" where
  "purged_ids kind r d = ids_in_states kind [''purged''] (fst (reg_refresh r d))"

definition forgotten_only_by :: "string \<Rightarrow> string list \<Rightarrow> registry \<Rightarrow> reg_disk \<Rightarrow> string list" where
  "forgotten_only_by kind allowed r d =
     map (\<lambda>(s, m). sb_id s)
       (filter (\<lambda>(s, m). sb_kind s = kind \<and> m \<noteq> [] \<and> list_all (\<lambda>fb. snd fb \<in> set allowed) m) (rg_live_by (fst (reg_refresh r d))))"

definition readd_forgets :: "subject \<Rightarrow> string list option \<Rightarrow> registry \<Rightarrow> string list" where
  \<comment> \<open>the forgets that a re-add cancels\<close>
  "readd_forgets s only r =
     (case map_of (rg_by_subject r) s of
        None \<Rightarrow> []
      | Some e \<Rightarrow>
          if fe_state e \<notin> set FORGOTTEN_STATES then []
          else
            (let fs = sort (List.insert (fe_forget e) (case map_of (rg_live r) s of None \<Rightarrow> [] | Some fs \<Rightarrow> fs))
             in case only of
                  None \<Rightarrow> fs
                | Some allowed \<Rightarrow>
                    filter (\<lambda>f. case map_of (case map_of (rg_live_by r) s of None \<Rightarrow> [] | Some m \<Rightarrow> m) f of
                                   None \<Rightarrow> False | Some by \<Rightarrow> by \<in> set allowed) fs))"

definition record_readd ::
    "int \<Rightarrow> string \<Rightarrow> string \<Rightarrow> string \<Rightarrow> string \<Rightarrow> string \<Rightarrow> string list option \<Rightarrow> registry \<Rightarrow> reg_disk
     \<Rightarrow> string + bool \<times> registry \<times> reg_disk" where
  \<comment> \<open>at this modification time and clock reading\<close>
  "record_readd mtime now kind i by mid only r d =
     (if i = [] then Inr (False, r, d)
      else
        (let (r1, d1) = reg_refresh r d; s = Subject kind i; fs = readd_forgets s only r1
         in if fs = [] then Inr (False, r1, d1)
            else case reg_append mtime
                        (map (\<lambda>f. \<lparr>fe_forget = f, fe_subject = s, fe_state = ''readded'', fe_at = now,
                                   fe_machine = (if mid = [] then rg_machine r1 else mid), fe_by = by, fe_user = []\<rparr>) fs) r1 d1 of
                   Inl e \<Rightarrow> Inl e
                 | Inr (r2, d2) \<Rightarrow> Inr (True, r2, d2)))"

definition latest_entries :: "string option \<Rightarrow> registry \<Rightarrow> forget_entry list" where
  "latest_entries since r =
     sort_key (\<lambda>e. (fe_at e, sb_kind (fe_subject e), sb_id (fe_subject e)))
       (filter (\<lambda>e. case since of None \<Rightarrow> True | Some t \<Rightarrow> t < fe_at e) (map snd (rg_by_subject r)))"

definition forget_entries :: "string \<Rightarrow> registry \<Rightarrow> forget_entry list" where
  "forget_entries f r = filter (\<lambda>e. fe_forget e = f) (map snd (rg_by_subject r))"

end
