(* ===== verification/ForgetEngine.thy ===== *)
theory ForgetEngine
  imports ForgetRegistry ProcessorJobs
begin

text \<open>
  The forget engine (\<^verbatim>\<open>app/services/forget/engine.py\<close>): trash, restore, purge, the retries of started
  purges and the application of forgets made on other machines, over the registry, the receipts, the
  log of what was applied here and the adapters of the stores. The adapters are parameters: effects
  on the stores that may read the registry and may raise. A receipt file is what it parses to,
  \<open>None\<close> when it cannot be read or parsed; the receipts lie in the shared folder and go with it.
\<close>

subsection \<open>Environment and state\<close>

record 's forget_adapter =
  ad_name :: string
  ad_kinds :: "string list"
  ad_hide :: "registry \<Rightarrow> reg_disk \<Rightarrow> subject \<Rightarrow> string \<Rightarrow> ('s, string, unit) eff"
  ad_restore :: "registry \<Rightarrow> reg_disk \<Rightarrow> subject \<Rightarrow> string \<Rightarrow> ('s, string, unit) eff"
  ad_purge :: "registry \<Rightarrow> reg_disk \<Rightarrow> subject \<Rightarrow> ('s, string, int) eff" \<comment> \<open>how many things it removed\<close>

record 's forget_env =
  fv_adapters :: "'s forget_adapter list"
  fv_machine :: string
  fv_clock :: "nat \<Rightarrow> pydatetime" \<comment> \<open>the readings of the clock, in their order\<close>
  fv_mtime :: "nat \<Rightarrow> int"
  fv_ids :: "nat \<Rightarrow> string" \<comment> \<open>\<open>new_forget_id()\<close>\<close>
  fv_remove :: "string \<Rightarrow> ('s, string, unit) eff" \<comment> \<open>the removal of an artifact where there is no registry\<close>

record 's engine =
  en_reg :: registry
  en_disk :: reg_disk
  en_receipts :: "(string \<times> pyval option) list"
  en_applied :: string \<comment> \<open>\<open>forget_applied.jsonl\<close>, empty where it is missing\<close>
  en_audit :: "(string \<times> string \<times> string \<times> pyval) list"
  en_tick :: nat
  en_stores :: 's

definition OUT_OF_REACH_NOTES :: "string list" where
  "OUT_OF_REACH_NOTES =
     [''KB backups made before this forget'', ''anything already sent to a cloud model provider'',
      ''analytics lists (ingest:log, verify:*) until their 30-day expiry'']"

definition PURGE_ORDER :: "(string \<times> nat) list" where
  "PURGE_ORDER = [(''artifact'', 0), (''chunk'', 1), (''memory'', 2), (''conversation'', 3)]"

definition kind_counts :: "subject list \<Rightarrow> pdict" where
  "kind_counts ss =
     fold (\<lambda>s counts. dset counts (sb_kind s)
       (PInt ((case dget counts (sb_kind s) of PInt n \<Rightarrow> n | _ \<Rightarrow> 0) + 1))) ss []"

definition purge_ordered :: "subject list \<Rightarrow> subject list" where
  "purge_ordered ss = sort_key (\<lambda>s. case map_of PURGE_ORDER (sb_kind s) of None \<Rightarrow> 99 | Some n \<Rightarrow> n) ss"

definition adapters_for :: "'s forget_env \<Rightarrow> string \<Rightarrow> 's forget_adapter list" where
  "adapters_for E kind = filter (\<lambda>a. kind \<in> set (ad_kinds a)) (fv_adapters E)"

definition engine_tick :: "('s engine, string, nat) eff" where
  "engine_tick = (\<lambda>w. (Inr (en_tick w), w\<lparr>en_tick := Suc (en_tick w)\<rparr>))"

definition utcnow_iso :: "'s forget_env \<Rightarrow> ('s engine, string, string) eff" where
  "utcnow_iso E = bind_eff engine_tick (\<lambda>n. ret (isoformat (fv_clock E n)))"

fun replace_z :: "string \<Rightarrow> string" where
  \<comment> \<open>\<open>replace("Z", "+00:00")\<close>\<close>
  "replace_z [] = []"
| "replace_z (c # s) = (if c = CHR ''Z'' then ''+00:00'' @ replace_z s else c # replace_z s)"

definition age_days :: "pydatetime \<Rightarrow> string \<Rightarrow> string + rat" where
  "age_days now stamp =
     (case fromisoformat (replace_z stamp) of
        None \<Rightarrow> Inl ''ValueError''
      | Some t \<Rightarrow> if dt_offset t = None then Inl ''TypeError'' else Inr ((timestamp now - timestamp t) / 86400))"

definition on_stores :: "(registry \<Rightarrow> reg_disk \<Rightarrow> ('s, string, 'a) eff) \<Rightarrow> ('s engine, string, 'a) eff" where
  "on_stores f = (\<lambda>w. case f (en_reg w) (en_disk w) (en_stores w) of (r, s) \<Rightarrow> (r, w\<lparr>en_stores := s\<rparr>))"

definition forget_audit :: "string \<Rightarrow> string \<Rightarrow> string \<Rightarrow> pyval \<Rightarrow> ('s engine, string, unit) eff" where
  "forget_audit action actor target detail = modify_eff (\<lambda>w. w\<lparr>en_audit := en_audit w @ [(action, actor, target, detail)]\<rparr>)"

subsection \<open>The registry\<close>

definition require_registry :: "('s engine, string, unit) eff" where
  "require_registry = bind_eff (gets_eff (\<lambda>w. rg_root (en_reg w))) (\<lambda>b. if b then ret () else raise_exc ''ForgetUnavailable'')"

definition refresh_eff :: "('s engine, string, unit) eff" where
  "refresh_eff = modify_eff (\<lambda>w. case reg_refresh (en_reg w) (en_disk w) of (r, d) \<Rightarrow> w\<lparr>en_reg := r, en_disk := d\<rparr>)"

definition latest_eff :: "('s engine, string, forget_entry list) eff" where
  "latest_eff = then_eff require_registry (then_eff refresh_eff (gets_eff (\<lambda>w. latest_entries None (en_reg w))))"

definition entries_eff :: "string \<Rightarrow> ('s engine, string, forget_entry list) eff" where
  "entries_eff f = then_eff require_registry (then_eff refresh_eff (gets_eff (\<lambda>w. forget_entries f (en_reg w))))"

definition receipts_of :: "'s engine \<Rightarrow> (string \<times> pyval option) list" where
  "receipts_of w = (if rd_dir (en_disk w) = None then [] else en_receipts w)"

definition state_entry :: "'s forget_env \<Rightarrow> string \<Rightarrow> string \<Rightarrow> string \<Rightarrow> string \<Rightarrow> string \<Rightarrow> subject \<Rightarrow> forget_entry" where
  "state_entry E f st stamp by user s =
     \<lparr>fe_forget = f, fe_subject = s, fe_state = st, fe_at = stamp, fe_machine = fv_machine E, fe_by = by, fe_user = user\<rparr>"

definition record_state :: "'s forget_env \<Rightarrow> subject list \<Rightarrow> string \<Rightarrow> string \<Rightarrow> string \<Rightarrow> string \<Rightarrow> ('s engine, string, unit) eff" where
  "record_state E ss f st by user =
     bind_eff engine_tick (\<lambda>n. then_eff require_registry
       (\<lambda>w. case reg_append (fv_mtime E n)
               (map (state_entry E f st (isoformat (fv_clock E n)) by user) ss) (en_reg w) (en_disk w) of
              Inl e \<Rightarrow> (Inl e, w)
            | Inr (r, d) \<Rightarrow> (Inr (), w\<lparr>en_reg := r, en_receipts := receipts_of w, en_disk := d\<rparr>)))"

subsection \<open>The log of what was applied here\<close>

definition applied_line :: "string \<Rightarrow> subject \<Rightarrow> string \<Rightarrow> string" where
  "applied_line f s st =
     json_dumps (PDict [(''forget_id'', PStr f), (''kind'', PStr (sb_kind s)), (''id'', PStr (sb_id s)), (''state'', PStr st)]) @ [CHR 0x0A]"

definition mark_applied :: "string \<Rightarrow> string \<Rightarrow> subject \<Rightarrow> ('s engine, string, unit) eff" where
  "mark_applied f st s = modify_eff (\<lambda>w. w\<lparr>en_applied := en_applied w @ applied_line f s st\<rparr>)"

fun hashable :: "pyval \<Rightarrow> bool" where
  "hashable (PList xs) = False"
| "hashable (PDict d) = False"
| "hashable _ = True"

definition applied_row :: "string \<Rightarrow> (pyval \<times> pyval \<times> pyval \<times> pyval) option" where
  "applied_row l =
     (case json_loads l of
        Some (PDict d) \<Rightarrow>
          if has_key d ''forget_id'' \<and> has_key d ''kind'' \<and> has_key d ''id'' \<and> has_key d ''state''
             \<and> list_all hashable [dget d ''forget_id'', dget d ''kind'', dget d ''id'', dget d ''state'']
          then Some (dget d ''forget_id'', dget d ''kind'', dget d ''id'', dget d ''state'') else None
      | _ \<Rightarrow> None)"

definition applied_rows :: "string \<Rightarrow> (pyval \<times> pyval \<times> pyval \<times> pyval) list" where
  "applied_rows t = List.map_filter applied_row (splitlines t)"

definition applied_key :: "forget_entry \<Rightarrow> pyval \<times> pyval \<times> pyval \<times> pyval" where
  "applied_key e = (PStr (fe_forget e), PStr (sb_kind (fe_subject e)), PStr (sb_id (fe_subject e)), PStr (fe_state e))"

subsection \<open>Receipts\<close>

definition purge_started :: "string \<Rightarrow> 's engine \<Rightarrow> bool" where
  "purge_started f w = (map_of (receipts_of w) f \<noteq> None)"

definition read_receipt :: "string \<Rightarrow> 's engine \<Rightarrow> pdict" where
  "read_receipt f w = (case map_of (receipts_of w) f of Some (Some (PDict d)) \<Rightarrow> d | _ \<Rightarrow> [])"

definition write_receipt :: "string \<Rightarrow> pdict \<Rightarrow> ('s engine, string, unit) eff" where
  \<comment> \<open>makes the folders where they are missing\<close>
  "write_receipt f receipt = modify_eff (\<lambda>w.
     w\<lparr>en_receipts := AList.update f (Some (sort_keys (PDict receipt))) (receipts_of w),
       en_disk := (if rd_dir (en_disk w) = None then (en_disk w)\<lparr>rd_dir := Some []\<rparr> else en_disk w)\<rparr>)"

subsection \<open>Trash and restore\<close>

definition hide_subject :: "'s forget_env \<Rightarrow> string \<Rightarrow> subject \<Rightarrow> ('s engine, string, bool) eff" where
  \<comment> \<open>every adapter gets its turn; whether all succeeded\<close>
  "hide_subject E f s =
     fold_eff (\<lambda>a hidden. catch_eff (then_eff (on_stores (\<lambda>r d. ad_hide a r d s f)) (ret hidden)) (\<lambda>_. ret False))
       (adapters_for E (sb_kind s)) True"

definition trash :: "'s forget_env \<Rightarrow> subject list \<Rightarrow> string \<Rightarrow> string \<Rightarrow> ('s engine, string, string) eff" where
  "trash E ss by user =
     bind_eff engine_tick (\<lambda>n. let f = fv_ids E n; ordered = purge_ordered ss in
       then_eff (record_state E ordered f ''trashed'' by user)
         (then_eff (fold_eff (\<lambda>s _. bind_eff (hide_subject E f s) (\<lambda>hidden. if hidden then mark_applied f ''trashed'' s else ret ())) ordered ())
           (then_eff (forget_audit ''forget.trash'' by f (PDict [(''subjects'', PDict (kind_counts ordered))])) (ret f))))"

definition each_adapter :: "('s forget_adapter \<Rightarrow> ('s engine, string, unit) eff) \<Rightarrow> 's forget_adapter list \<Rightarrow> ('s engine, string, unit) eff" where
  \<comment> \<open>stops at the first exception\<close>
  "each_adapter f as = fold_eff (\<lambda>a _. f a) as ()"

definition restore :: "'s forget_env \<Rightarrow> string \<Rightarrow> ('s engine, string, int) eff" where
  "restore E f =
     bind_eff (entries_eff f) (\<lambda>es. bind_eff (gets_eff (purge_started f)) (\<lambda>started.
       if list_ex (\<lambda>e. fe_state e = ''purged'') es \<or> started then raise_exc ''ForgetConflict''
       else
         (let in_trash = filter (\<lambda>e. fe_state e = ''trashed'') es; trashed = map fe_subject in_trash;
              owner = (case in_trash of [] \<Rightarrow> [] | e # _ \<Rightarrow> fe_user e)
          in then_eff (fold_eff (\<lambda>s _. each_adapter (\<lambda>a. on_stores (\<lambda>r d. ad_restore a r d s f)) (adapters_for E (sb_kind s))) trashed ())
               (if trashed = [] then ret 0
                else then_eff (record_state E trashed f ''restored'' ''ui'' owner)
                       (then_eff (fold_eff (\<lambda>s _. mark_applied f ''restored'' s) trashed ())
                         (then_eff (forget_audit ''forget.restore'' ''ui'' f (PDict [(''subjects'', PDict (kind_counts trashed))]))
                           (ret (int (length trashed)))))))))"

subsection \<open>Purge\<close>

definition subject_row :: "subject \<Rightarrow> pyval" where
  "subject_row s = PDict [(''kind'', PStr (sb_kind s)), (''id'', PStr (sb_id s))]"

type_synonym slots = "(string \<times> pdict) list" \<comment> \<open>the adapters of a receipt\<close>

definition prior_slots :: "pdict \<Rightarrow> slots" where
  "prior_slots prior =
     (case dget prior ''adapters'' of
        PDict as \<Rightarrow> List.map_filter (\<lambda>(n, v). case v of PDict a \<Rightarrow> Some (n, a) | _ \<Rightarrow> None) as
      | _ \<Rightarrow> [])"

definition receipt_rows :: "pyval \<Rightarrow> string + pyval list" where
  \<comment> \<open>the iteration over \<open>v or []\<close>\<close>
  "receipt_rows v =
     (if \<not> truthy v then Inr []
      else case v of
             PList rows \<Rightarrow> Inr rows
           | PDict d \<Rightarrow> Inr (map (PStr \<circ> fst) d)
           | PStr s \<Rightarrow> Inr (map (\<lambda>c. PStr [c]) s)
           | _ \<Rightarrow> Inl ''TypeError'')"

definition listed_rows :: "pyval list \<Rightarrow> subject list \<Rightarrow> pyval list" where
  \<comment> \<open>the rows of earlier attempts, then those of this one\<close>
  "listed_rows earlier ss =
     (let current = map subject_row ss in filter (\<lambda>row. row \<notin> set current) earlier @ current)"

definition receipt_doc :: "'s forget_env \<Rightarrow> string \<Rightarrow> string \<Rightarrow> string \<Rightarrow> pyval list \<Rightarrow> slots \<Rightarrow> pdict" where
  "receipt_doc E f stamp by rows slots =
     [(''forget_id'', PStr f), (''at'', PStr stamp), (''machine_id'', PStr (fv_machine E)), (''requested_by'', PStr by),
      (''subjects'', PList rows), (''adapters'', PDict (map (\<lambda>(n, a). (n, PDict a)) slots)),
      (''out_of_reach'', PList (map PStr OUT_OF_REACH_NOTES))]"

definition py_int_or_0 :: "pyval \<Rightarrow> string + int" where
  \<comment> \<open>\<open>int(v or 0)\<close> of what a receipt holds\<close>
  "py_int_or_0 v =
     (if \<not> truthy v then Inr 0
      else case v of
             PInt i \<Rightarrow> Inr i
           | PBool b \<Rightarrow> Inr 1
           | PFloat x \<Rightarrow> Inr (if x < 0 then - \<lfloor>- x\<rfloor> else \<lfloor>x\<rfloor>)
           | PStr s \<Rightarrow> (case py_int_text s of None \<Rightarrow> Inl ''ValueError'' | Some i \<Rightarrow> Inr i)
           | _ \<Rightarrow> Inl ''TypeError'')"

definition slot_of :: "slots \<Rightarrow> string \<Rightarrow> pdict" where
  "slot_of slots n = (case map_of slots n of None \<Rightarrow> [(''status'', PStr ''done''), (''removed'', PInt 0)] | Some a \<Rightarrow> a)"

definition removed_of :: "pdict \<Rightarrow> int" where
  "removed_of slot = (case dget slot ''removed'' of PInt i \<Rightarrow> i | _ \<Rightarrow> 0)"

record purge_run =
  pr_slots :: slots
  pr_touched :: "string list"
  pr_done :: "subject list"

definition fresh_slot :: "purge_run \<Rightarrow> string \<Rightarrow> string + pdict" where
  \<comment> \<open>the slot an adapter writes to, re-marked the first time it runs in this attempt\<close>
  "fresh_slot p n =
     (let slot = slot_of (pr_slots p) n
      in if n \<in> set (pr_touched p) then Inr slot
         else case py_int_or_0 (dget slot ''removed'') of
                Inl e \<Rightarrow> Inl e
              | Inr k \<Rightarrow> Inr (dset (dpop (dset slot ''status'' (PStr ''done'')) ''error'') ''removed'' (PInt k)))"

definition run_adapter :: "subject \<Rightarrow> 's forget_adapter \<Rightarrow> bool \<times> purge_run \<Rightarrow> ('s engine, string, bool \<times> purge_run) eff" where
  "run_adapter s a acc =
     (let (complete, p) = acc; n = ad_name a
      in case fresh_slot p n of
           Inl e \<Rightarrow> raise_exc e
         | Inr slot \<Rightarrow>
             (let put = (\<lambda>sl. p\<lparr>pr_slots := AList.update n sl (pr_slots p), pr_touched := List.insert n (pr_touched p)\<rparr>)
              in try_else (on_stores (\<lambda>r d. ad_purge a r d s))
                   (\<lambda>e. ret (False, put (dset (dset slot ''status'' (PStr ''pending'')) ''error'' (PStr e))))
                   (\<lambda>k. ret (complete, put (dset slot ''removed'' (PInt (removed_of slot + k)))))))"

definition purge_one :: "'s forget_env \<Rightarrow> subject \<Rightarrow> purge_run \<Rightarrow> ('s engine, string, purge_run) eff" where
  "purge_one E s p =
     (let as = adapters_for E (sb_kind s)
      in bind_eff (fold_eff (run_adapter s) as (as \<noteq> [], p))
           (\<lambda>(complete, p'). ret (if complete then p'\<lparr>pr_done := pr_done p' @ [s]\<rparr> else p')))"

definition slot_done :: "pdict \<Rightarrow> bool" where
  "slot_done a = (dget a ''status'' = PStr ''done'')"

definition finish_purge ::
    "'s forget_env \<Rightarrow> string \<Rightarrow> subject list \<Rightarrow> string \<Rightarrow> string \<Rightarrow> (slots \<Rightarrow> pdict) \<Rightarrow> purge_run \<Rightarrow> ('s engine, string, pdict) eff" where
  \<comment> \<open>what follows the adapters\<close>
  "finish_purge E f ordered by user doc p =
     then_eff
       (if pr_done p = [] then ret ()
        else then_eff (record_state E (pr_done p) f ''purged'' by user)
               (fold_eff (\<lambda>s _. mark_applied f ''purged'' s) (pr_done p) ()))
       (then_eff (write_receipt f (doc (pr_slots p)))
         (if list_ex (\<lambda>(n, a). \<not> has_key a ''status'') (pr_slots p) then raise_exc ''KeyError''
          else then_eff
                 (forget_audit ''forget.purge'' by f
                   (PDict [(''subjects'', PDict (kind_counts ordered)), (''purged'', PInt (int (length (pr_done p)))),
                           (''pending_adapters'', PList (map PStr (sort (map fst (filter (\<lambda>(n, a). \<not> slot_done a) (pr_slots p))))))]))
                 (ret (doc (pr_slots p)))))"

definition purge_subjects :: "'s forget_env \<Rightarrow> string \<Rightarrow> subject list \<Rightarrow> string \<Rightarrow> string \<Rightarrow> ('s engine, string, pdict) eff" where
  "purge_subjects E f ss by user =
     (let ordered = purge_ordered ss
      in bind_eff (gets_eff (read_receipt f)) (\<lambda>prior.
           case receipt_rows (dget prior ''subjects'') of
             Inl e \<Rightarrow> raise_exc e
           | Inr earlier \<Rightarrow>
               bind_eff (utcnow_iso E) (\<lambda>stamp.
                 let doc = receipt_doc E f stamp by (listed_rows earlier ordered)
                 in then_eff (write_receipt f (doc (prior_slots prior)))
                      (bind_eff (fold_eff (purge_one E) ordered \<lparr>pr_slots = prior_slots prior, pr_touched = [], pr_done = []\<rparr>)
                        (finish_purge E f ordered by user doc)))))"

definition purge :: "'s forget_env \<Rightarrow> string \<Rightarrow> ('s engine, string, pdict) eff" where
  "purge E f =
     bind_eff (entries_eff f) (\<lambda>es0. let es = filter (\<lambda>e. fe_state e = ''trashed'') es0
       in purge_subjects E f (map fe_subject es) ''ui'' (case es of [] \<Rightarrow> [] | e # _ \<Rightarrow> fe_user e))"

definition forget_permanently :: "'s forget_env \<Rightarrow> subject list \<Rightarrow> string \<Rightarrow> string \<Rightarrow> ('s engine, string, pdict) eff" where
  "forget_permanently E ss by user = bind_eff (trash E ss by user) (\<lambda>f. purge_subjects E f ss by user)"

definition all_done :: "pdict \<Rightarrow> bool" where
  "all_done receipt = list_all (\<lambda>(n, a). slot_done a) (prior_slots receipt)"

definition purge_artifact :: "'s forget_env \<Rightarrow> string \<Rightarrow> string \<Rightarrow> string \<Rightarrow> ('s engine, string, bool) eff" where
  "purge_artifact E i by user =
     bind_eff (gets_eff (\<lambda>w. rg_root (en_reg w))) (\<lambda>synced.
       if \<not> synced then then_eff (on_stores (\<lambda>_ _. fv_remove E i)) (ret True)
       else bind_eff (forget_permanently E [Subject ''artifact'' i] by user) (\<lambda>receipt. ret (all_done receipt)))"

subsection \<open>Maintenance\<close>

definition by_forget_id :: "forget_entry list \<Rightarrow> (string \<times> forget_entry list) list" where
  "by_forget_id es =
     fold (\<lambda>e g. AList.update (fe_forget e) ((case map_of g (fe_forget e) of None \<Rightarrow> [] | Some xs \<Rightarrow> xs) @ [e]) g) es []"

definition due :: "'s forget_env \<Rightarrow> int option \<Rightarrow> forget_entry \<Rightarrow> ('s engine, string, bool) eff" where
  \<comment> \<open>whether emptying the trash takes this entry; the clock is read for its age\<close>
  "due E older e =
     (if fe_state e \<noteq> ''trashed'' then ret False
      else case older of
             None \<Rightarrow> ret True
           | Some days \<Rightarrow>
               bind_eff engine_tick (\<lambda>n. case age_days (fv_clock E n) (fe_at e) of
                 Inl x \<Rightarrow> raise_exc x
               | Inr age \<Rightarrow> if of_int days \<le> age then ret True else gets_eff (purge_started (fe_forget e))))"

definition filter_eff :: "('a \<Rightarrow> ('s, string, bool) eff) \<Rightarrow> 'a list \<Rightarrow> ('s, string, 'a list) eff" where
  "filter_eff f xs = fold_eff (\<lambda>x acc. bind_eff (f x) (\<lambda>b. ret (if b then acc @ [x] else acc))) xs []"

definition purge_groups ::
    "'s forget_env \<Rightarrow> (forget_entry list \<Rightarrow> string) \<Rightarrow> (string \<times> forget_entry list) list \<Rightarrow> ('s engine, string, string list) eff" where
  \<comment> \<open>those forgets whose stores are all done\<close>
  "purge_groups E by groups =
     fold_eff (\<lambda>g finished.
       bind_eff (purge_subjects E (fst g) (map fe_subject (snd g)) (by (snd g)) (fe_user (hd (snd g))))
         (\<lambda>receipt. ret (if all_done receipt then finished @ [fst g] else finished))) groups []"

definition empty_trash :: "'s forget_env \<Rightarrow> int option \<Rightarrow> ('s engine, string, string list) eff" where
  "empty_trash E older =
     bind_eff latest_eff (\<lambda>es. bind_eff (filter_eff (due E older) es) (\<lambda>chosen.
       purge_groups E (\<lambda>_. if older = None \<or> older = Some 0 then ''ui'' else ''retention'') (by_forget_id chosen)))"

definition retry_started_purges :: "'s forget_env \<Rightarrow> ('s engine, string, string list) eff" where
  "retry_started_purges E =
     bind_eff latest_eff (\<lambda>es. bind_eff (gets_eff (\<lambda>w. filter (\<lambda>e. fe_state e = ''trashed'' \<and> purge_started (fe_forget e) w) es)) (\<lambda>chosen.
       purge_groups E (\<lambda>es. fe_by (hd es)) (by_forget_id chosen)))"

definition trash_row :: "(subject \<Rightarrow> string) \<Rightarrow> 's engine \<Rightarrow> string \<times> forget_entry list \<Rightarrow> pdict" where
  \<comment> \<open>one forget of the Trash view\<close>
  "trash_row label w g =
     (let (f, es) = g;
          ordered = rev (sort_key (\<lambda>e. case map_of PURGE_ORDER (sb_kind (fe_subject e)) of None \<Rightarrow> 99 | Some n \<Rightarrow> n) (rev es))
      in [(''forget_id'', PStr f), (''at'', PStr (hd (sort (map fe_at es)))), (''requested_by'', PStr (fe_by (hd es))),
          (''purge_started'', PBool (purge_started f w)),
          (''subjects'', PList (map (\<lambda>e. let s = fe_subject e in
             PDict [(''kind'', PStr (sb_kind s)), (''id'', PStr (sb_id s)), (''label'', PStr (label s))]) ordered))])"

definition list_trash :: "(subject list \<Rightarrow> ('s engine, string, subject \<Rightarrow> string) eff) \<Rightarrow> ('s engine, string, pdict list) eff" where
  \<comment> \<open>newest first; the labels are a parameter\<close>
  "list_trash labels =
     bind_eff latest_eff (\<lambda>es. let groups = by_forget_id (filter (\<lambda>e. fe_state e = ''trashed'') es) in
       bind_eff (labels (map fe_subject (concat (map snd groups)))) (\<lambda>label.
         gets_eff (\<lambda>w. rev (sort_key (\<lambda>r. gets r ''at'') (rev (map (trash_row label w) groups))))))"

record applied_counts =
  ac_hidden :: nat
  ac_restored :: nat
  ac_purged :: nat

definition apply_entry :: "'s forget_env \<Rightarrow> forget_entry \<Rightarrow> applied_counts \<Rightarrow> ('s engine, string, applied_counts) eff" where
  "apply_entry E e c =
     (let as = adapters_for E (sb_kind (fe_subject e)); s = fe_subject e; f = fe_forget e
      in if fe_state e = ''trashed''
         then then_eff (each_adapter (\<lambda>a. on_stores (\<lambda>r d. ad_hide a r d s f)) as) (ret (c\<lparr>ac_hidden := Suc (ac_hidden c)\<rparr>))
         else if fe_state e = ''restored''
         then then_eff (each_adapter (\<lambda>a. on_stores (\<lambda>r d. ad_restore a r d s f)) as) (ret (c\<lparr>ac_restored := Suc (ac_restored c)\<rparr>))
         else if fe_state e = ''readded'' then ret c
         else if fe_state e = ''purged''
         then then_eff (each_adapter (\<lambda>a. bind_eff (on_stores (\<lambda>r d. ad_purge a r d s)) (\<lambda>_. ret ())) as)
                (ret (c\<lparr>ac_purged := Suc (ac_purged c)\<rparr>))
         else ret c)"

definition apply_one_remote ::
    "'s forget_env \<Rightarrow> (pyval \<times> pyval \<times> pyval \<times> pyval) list \<Rightarrow> forget_entry \<Rightarrow> applied_counts \<Rightarrow> ('s engine, string, applied_counts) eff" where
  "apply_one_remote E applied e c =
     (if applied_key e \<in> set applied then ret c
      else try_else (apply_entry E e c) (\<lambda>_. ret c)
             (\<lambda>c'. then_eff (mark_applied (fe_forget e) (fe_state e) (fe_subject e)) (ret c')))"

definition apply_remote :: "'s forget_env \<Rightarrow> ('s engine, string, applied_counts) eff" where
  "apply_remote E =
     then_eff require_registry (bind_eff (gets_eff (\<lambda>w. applied_rows (en_applied w))) (\<lambda>applied.
       bind_eff latest_eff (\<lambda>es. fold_eff (apply_one_remote E applied) es \<lparr>ac_hidden = 0, ac_restored = 0, ac_purged = 0\<rparr>)))"

end
