(* ===== verification/ForgetIndex.thy ===== *)
theory ForgetIndex
  imports ForgetRegistry
begin

text \<open>
  What the index of the forget registry says, as a function of the entries: which forgets of a
  subject are live, that a purge prevails over every restore, that logs read in another order give
  the same answer, and what re-added content cancels.
\<close>

subsection \<open>Which entry of several wins\<close>

definition winner :: "forget_entry list \<Rightarrow> forget_entry option" where
  "winner vs = fold (\<lambda>e acc. if forget_wins e acc then Some e else acc) vs None"

lemma winner_Nil [simp]: "winner [] = None"
  and winner_snoc: "winner (vs @ [e]) = (if forget_wins e (winner vs) then Some e else winner vs)"
  by (simp_all add: winner_def)

lemma winner_spec:
  "vs \<noteq> [] \<Longrightarrow> \<exists>e \<in> set vs. winner vs = Some e \<and>
    (if \<exists>p \<in> set vs. fe_state p = ''purged'' then fe_state e = ''purged'' else \<forall>x \<in> set vs. fe_at x \<le> fe_at e)"
proof (induction vs rule: rev_induct)
  case (snoc v vs)
  show ?case
  proof (cases "vs = []")
    case True
    then show ?thesis using winner_snoc [of "[]" v] by (simp add: forget_wins_def)
  next
    case False
    then obtain e where "e \<in> set vs" "winner vs = Some e"
      "if \<exists>p \<in> set vs. fe_state p = ''purged'' then fe_state e = ''purged'' else \<forall>x \<in> set vs. fe_at x \<le> fe_at e"
      using snoc by blast
    then show ?thesis
      by (cases "forget_wins v (Some e)") (auto simp: winner_snoc forget_wins_def split: if_splits)
  qed
qed simp

lemma winner_None [simp]: "winner vs = None \<longleftrightarrow> vs = []"
  using winner_spec [of vs] by (cases "vs = []") auto

lemma winner_in: "winner vs = Some e \<Longrightarrow> e \<in> set vs"
  using winner_spec [of vs] by (cases "vs = []") auto

lemma winner_purged: "winner vs = Some e \<Longrightarrow> fe_state e = ''purged'' \<longleftrightarrow> (\<exists>p \<in> set vs. fe_state p = ''purged'')"
  using winner_spec [of vs] winner_in [of vs e] by (cases "vs = []") (auto split: if_splits)

lemma winner_latest: "winner vs = Some e \<Longrightarrow> \<forall>p \<in> set vs. fe_state p \<noteq> ''purged'' \<Longrightarrow> x \<in> set vs \<Longrightarrow> fe_at x \<le> fe_at e"
  using winner_spec [of vs] by (cases "vs = []") (auto split: if_splits)

subsection \<open>The index of the entries of one forget\<close>

definition votes :: "subject \<Rightarrow> string \<Rightarrow> forget_entry list \<Rightarrow> forget_entry list" where
  "votes s f es = filter (\<lambda>e. fe_state e \<noteq> ''readded'' \<and> fe_subject e = s \<and> fe_forget e = f) es"

definition cancelled :: "forget_entry list \<Rightarrow> subject \<Rightarrow> string \<Rightarrow> bool" where
  "cancelled es s f \<longleftrightarrow> (\<exists>e \<in> set es. fe_state e = ''readded'' \<and> fe_subject e = s \<and> fe_forget e = f)"

lemma forget_cancelled_iff: "(s, f) \<in> set (forget_cancelled es) \<longleftrightarrow> cancelled es s f"
  by (auto simp: forget_cancelled_def cancelled_def)

definition per_forget :: "(subject \<times> string) list \<Rightarrow> forget_entry list \<Rightarrow> by_forget \<times> (subject \<times> forget_entry) list" where
  "per_forget c es = fold (index_step c) es ([], [])"

lemma per_forget_snoc: "per_forget c (es @ [e]) = index_step c e (per_forget c es)"
  by (simp add: per_forget_def)

lemma per_forget_lookup:
  "map_of (fst (per_forget c es)) (s, f) = (if (s, f) \<in> set c then None else winner (votes s f es))"
proof (induction es rule: rev_induct)
  case (snoc e es)
  obtain per re where p: "per_forget c es = (per, re)" by fastforce
  have v: "votes s f (es @ [e]) = (if fe_state e \<noteq> ''readded'' \<and> fe_subject e = s \<and> fe_forget e = f
      then votes s f es @ [e] else votes s f es)" by (simp add: votes_def)
  show ?case
    using snoc unfolding per_forget_snoc p v
    by (auto simp: index_step_def Let_def update_conv' winner_snoc)
qed (simp add: per_forget_def votes_def)

lemma per_forget_distinct: "distinct (map fst (fst (per_forget c es)))"
proof (induction es rule: rev_induct)
  case (snoc e es)
  then show ?case by (auto simp: per_forget_snoc index_step_def Let_def distinct_update split: prod.split)
qed (simp add: per_forget_def)

lemma per_forget_set:
  "((s, f), e) \<in> set (fst (per_forget c es)) \<longleftrightarrow> (s, f) \<notin> set c \<and> winner (votes s f es) = Some e"
proof -
  have "((s, f), e) \<in> set (fst (per_forget c es)) \<longleftrightarrow> map_of (fst (per_forget c es)) (s, f) = Some e"
    using per_forget_distinct by (simp add: map_of_eq_Some_iff)
  then show ?thesis by (simp add: per_forget_lookup)
qed

lemma votes_winner: "winner (votes s f es) = Some e \<Longrightarrow> fe_subject e = s \<and> fe_forget e = f \<and> fe_state e \<noteq> ''readded'' \<and> e \<in> set es"
  by (drule winner_in) (auto simp: votes_def)

lemma per_forget_readds:
  "map_of (snd (per_forget c es)) s = Some e \<Longrightarrow> fe_state e = ''readded''"
proof (induction es arbitrary: e rule: rev_induct)
  case (snoc x es)
  then show ?case
    by (auto simp: per_forget_snoc index_step_def Let_def update_conv' split: prod.splits option.splits if_splits)
qed (simp add: per_forget_def)

lemma per_forget_readd_dom:
  "map_of (snd (per_forget c es)) s \<noteq> None \<longleftrightarrow> (\<exists>e \<in> set es. fe_state e = ''readded'' \<and> fe_subject e = s)"
proof (induction es rule: rev_induct)
  case (snoc x es)
  then show ?case
    by (auto simp: per_forget_snoc index_step_def Let_def update_conv' split: prod.splits option.splits if_splits)
qed (simp add: per_forget_def)

subsection \<open>The index of a subject\<close>

lemma put_winner_fold:
  "map_of (fold put_winner es b) s = fold (\<lambda>e acc. if forget_wins e acc then Some e else acc) (filter (\<lambda>e. fe_subject e = s) es) (map_of b s)"
  by (induction es arbitrary: b) (simp_all add: put_winner_def update_conv')

definition forgotten_state :: "forget_entry \<Rightarrow> bool" where
  "forgotten_state e \<longleftrightarrow> fe_state e \<in> set FORGOTTEN_STATES"

definition no_buckets :: forget_buckets where
  "no_buckets = \<lparr>fb_forgotten = [], fb_other = [], fb_live = [], fb_live_by = []\<rparr>"

lemma buckets_forgotten: "fb_forgotten (fold bucket_step per b) = fold put_winner (filter forgotten_state (map snd per)) (fb_forgotten b)"
  by (induction per arbitrary: b) (auto simp: bucket_step_def Let_def forgotten_state_def)

lemma buckets_other: "fb_other (fold bucket_step per b) = fold put_winner (filter (\<lambda>e. \<not> forgotten_state e) (map snd per)) (fb_other b)"
  by (induction per arbitrary: b) (auto simp: bucket_step_def Let_def forgotten_state_def)

lemma update_all: "map_of (fold (\<lambda>(s, e). AList.update s e) new old) s = (case map_of (rev new) s of None \<Rightarrow> map_of old s | Some e \<Rightarrow> Some e)"
  by (induction new arbitrary: old) (auto simp: update_conv' map_add_def split: option.split)

lemma put_winner_distinct: "distinct (map fst b) \<Longrightarrow> distinct (map fst (fold put_winner es b))"
  by (induction es arbitrary: b) (simp_all add: put_winner_def distinct_update)

lemma set_default: "map_of (fold (\<lambda>(s, e) m. if map_of m s = None then AList.update s e m else m) new old) s =
    (case map_of old s of None \<Rightarrow> map_of new s | Some e \<Rightarrow> Some e)"
proof (induction new arbitrary: old)
  case (Cons p new)
  then show ?case
    by (cases p; cases "map_of old (fst p)"; cases "map_of old s"; cases "fst p = s") (simp_all add: update_conv')
qed (simp split: option.split)

definition candidates :: "forget_entry list \<Rightarrow> subject \<Rightarrow> forget_entry list" where
  \<comment> \<open>the winning entries of the forgets of a subject, in the order of the index\<close>
  "candidates es s = filter (\<lambda>e. fe_subject e = s) (map snd (fst (per_forget (forget_cancelled es) es)))"

lemma in_candidates: "e \<in> set (candidates es s) \<longleftrightarrow> (\<exists>f. \<not> cancelled es s f \<and> winner (votes s f es) = Some e)"
proof -
  have "e \<in> set (candidates es s) \<longleftrightarrow> (\<exists>k. (k, e) \<in> set (fst (per_forget (forget_cancelled es) es)) \<and> fe_subject e = s)"
    by (auto simp: candidates_def image_iff Bex_def)
  also have "\<dots> \<longleftrightarrow> (\<exists>f. \<not> cancelled es s f \<and> winner (votes s f es) = Some e)"
    by (auto simp: per_forget_set forget_cancelled_iff dest: votes_winner)
  finally show ?thesis .
qed

lemma by_subject_lookup:
  "map_of (rg_by_subject (index_entries es sig r)) s =
     (case winner (filter forgotten_state (candidates es s)) of Some e \<Rightarrow> Some e
      | None \<Rightarrow> (case winner (filter (\<lambda>e. \<not> forgotten_state e) (candidates es s)) of Some e \<Rightarrow> Some e
               | None \<Rightarrow> map_of (snd (per_forget (forget_cancelled es) es)) s))"
proof -
  obtain per re where p: "per_forget (forget_cancelled es) es = (per, re)" by fastforce
  have w: "map_of (fold put_winner (filter P (map snd per)) []) s = winner (filter P (candidates es s))" for P
    by (simp add: put_winner_fold winner_def candidates_def p conj_commute filter_map)
  have d: "distinct (map fst (fold put_winner es' []))" for es' by (rule put_winner_distinct) simp
  show ?thesis
    unfolding index_entries_def per_forget_def [symmetric] p Let_def prod.case
    by (simp add: set_default update_all map_of_rev_distinct [OF d] buckets_forgotten buckets_other w split: option.split)
qed

lemma update_keys: "distinct (map fst m) \<Longrightarrow> distinct (map fst (fold (\<lambda>(s, e). AList.update s e) new m))"
  by (induction new arbitrary: m) (auto simp: distinct_update split: prod.split)

lemma default_keys:
  "distinct (map fst m) \<Longrightarrow> distinct (map fst (fold (\<lambda>(s, e) m. if map_of m s = None then AList.update s e m else m) new m))"
  by (induction new arbitrary: m) (auto simp: distinct_update split: prod.split)

lemma subjects_distinct: "distinct (map fst (rg_by_subject (index_entries es sig r)))"
  unfolding index_entries_def Let_def
  by (auto simp: buckets_other split: prod.split intro!: default_keys update_keys put_winner_distinct)

subsection \<open>What is forgotten\<close>

definition live_forget :: "forget_entry list \<Rightarrow> subject \<Rightarrow> string \<Rightarrow> bool" where
  \<comment> \<open>a forget in force: not re-added, and its last word is trashed or purged\<close>
  "live_forget es s f \<longleftrightarrow> \<not> cancelled es s f \<and> (\<exists>e. winner (votes s f es) = Some e \<and> forgotten_state e)"

lemma readded_not_forgotten: "fe_state e = ''readded'' \<Longrightarrow> \<not> forgotten_state e"
  by (simp add: forgotten_state_def FORGOTTEN_STATES_def)

lemma purged_forgotten: "fe_state e = ''purged'' \<Longrightarrow> forgotten_state e"
  by (simp add: forgotten_state_def FORGOTTEN_STATES_def)

lemma live_candidates: "(\<exists>f. live_forget es s f) \<longleftrightarrow> filter forgotten_state (candidates es s) \<noteq> []"
proof -
  have "filter forgotten_state (candidates es s) \<noteq> [] \<longleftrightarrow> (\<exists>e. e \<in> set (candidates es s) \<and> forgotten_state e)"
    by (auto simp: filter_empty_conv)
  then show ?thesis unfolding in_candidates live_forget_def by blast
qed

lemma forgotten_by_live: "forgotten_in (index_entries es sig r) s \<longleftrightarrow> (\<exists>f. live_forget es s f)"
proof (cases "winner (filter forgotten_state (candidates es s))")
  case (Some e)
  then have "e \<in> set (filter forgotten_state (candidates es s))" by (rule winner_in)
  then have "forgotten_state e" "filter forgotten_state (candidates es s) \<noteq> []" by (simp, force)
  then show ?thesis
    unfolding live_candidates forgotten_in_def state_in_def by_subject_lookup Some by (simp add: forgotten_state_def)
next
  case None
  have "\<not> forgotten_state e" if "map_of (rg_by_subject (index_entries es sig r)) s = Some e" for e
  proof (cases "winner (filter (\<lambda>e. \<not> forgotten_state e) (candidates es s))")
    case Some': (Some x)
    then have "x \<in> set (filter (\<lambda>e. \<not> forgotten_state e) (candidates es s))" by (rule winner_in)
    then show ?thesis using that Some' None by (simp add: by_subject_lookup)
  next
    case None': None
    then have "map_of (snd (per_forget (forget_cancelled es) es)) s = Some e"
      using that unfolding by_subject_lookup None by simp
    then show ?thesis using per_forget_readds readded_not_forgotten by blast
  qed
  then have "\<not> forgotten_in (index_entries es sig r) s"
    by (auto simp: forgotten_in_def state_in_def forgotten_state_def split: option.split)
  moreover have "filter forgotten_state (candidates es s) = []" using None by simp
  ultimately show ?thesis by (simp add: live_candidates)
qed

text \<open>
  C37. A subject is forgotten exactly while one of its forgets is in force: a forget is in force when
  no re-add names it and the last word about it, a purge before any other, is trashed or purged.
\<close>
theorem forgotten_iff_live:
  "forgotten_in (index_entries es sig r) s \<longleftrightarrow>
     (\<exists>f e. \<not> cancelled es s f \<and> winner (votes s f es) = Some e \<and> fe_state e \<in> {''trashed'', ''purged''})"
  unfolding forgotten_by_live live_forget_def forgotten_state_def FORGOTTEN_STATES_def by auto

lemma purged_iff:
  "state_in (index_entries es sig r) s = Some ''purged'' \<longleftrightarrow>
     (\<exists>p. p \<in> set es \<and> fe_state p = ''purged'' \<and> fe_subject p = s \<and> \<not> cancelled es s (fe_forget p))"
proof
  assume a: "state_in (index_entries es sig r) s = Some ''purged''"
  then obtain e where e: "map_of (rg_by_subject (index_entries es sig r)) s = Some e" "fe_state e = ''purged''"
    by (auto simp: state_in_def)
  have "e \<in> set (candidates es s)"
    using e per_forget_readds [of _ es s e] winner_in [of "filter forgotten_state (candidates es s)" e]
      winner_in [of "filter (\<lambda>e. \<not> forgotten_state e) (candidates es s)" e]
    by (auto simp: by_subject_lookup split: option.splits)
  then show "\<exists>p. p \<in> set es \<and> fe_state p = ''purged'' \<and> fe_subject p = s \<and> \<not> cancelled es s (fe_forget p)"
    using e(2) by (auto simp: in_candidates dest: votes_winner)
next
  assume "\<exists>p. p \<in> set es \<and> fe_state p = ''purged'' \<and> fe_subject p = s \<and> \<not> cancelled es s (fe_forget p)"
  then obtain p where p: "p \<in> set (votes s (fe_forget p) es)" "fe_state p = ''purged''" "\<not> cancelled es s (fe_forget p)"
    by (auto simp: votes_def)
  then obtain w where w: "winner (votes s (fe_forget p) es) = Some w" by (cases "winner (votes s (fe_forget p) es)") auto
  then have ws: "fe_state w = ''purged''" using winner_purged [OF w] p by blast
  then have "w \<in> set (filter forgotten_state (candidates es s))"
    using w p(3) by (auto simp: in_candidates purged_forgotten)
  moreover from this have "filter forgotten_state (candidates es s) \<noteq> []" by force
  then obtain e where e: "winner (filter forgotten_state (candidates es s)) = Some e"
    by (cases "winner (filter forgotten_state (candidates es s))") simp_all
  ultimately have "fe_state e = ''purged''" using winner_purged [OF e] ws by blast
  with e show "state_in (index_entries es sig r) s = Some ''purged''" by (simp add: state_in_def by_subject_lookup)
qed

text \<open>
  C3. A purge always wins: a subject reads as purged exactly when some purge of it was recorded
  whose forget no re-add names, whatever else any machine recorded before or after, with any clock,
  and in whatever order the logs are read.
\<close>
theorem purge_prevails:
  "state_in (index_entries es sig r) s = Some ''purged'' \<longleftrightarrow>
     (\<exists>p. p \<in> set es \<and> fe_state p = ''purged'' \<and> fe_subject p = s \<and> \<not> cancelled es s (fe_forget p))"
  by (rule purged_iff)

definition clear_times :: "forget_entry list \<Rightarrow> bool" where
  \<comment> \<open>no two machines say different things about a forget at the same time\<close>
  "clear_times es \<longleftrightarrow>
     (\<forall>x \<in> set es. \<forall>y \<in> set es. fe_subject x = fe_subject y \<and> fe_forget x = fe_forget y \<and> fe_at x = fe_at y \<longrightarrow>
        fe_state x = fe_state y \<or> {fe_state x, fe_state y} \<inter> {''purged'', ''readded''} \<noteq> {})"

lemma clear_timesD:
  assumes "clear_times es" "x \<in> set es" "y \<in> set es" "fe_subject x = fe_subject y" "fe_forget x = fe_forget y" "fe_at x = fe_at y"
    and "fe_state x \<notin> {''purged'', ''readded''}" "fe_state y \<notin> {''purged'', ''readded''}"
  shows "fe_state x = fe_state y"
proof -
  have "{fe_state x, fe_state y} \<inter> {''purged'', ''readded''} = {}" using assms(7,8) by blast
  then show ?thesis using assms(1-6) unfolding clear_times_def by blast
qed

lemma winner_state_cong:
  assumes "clear_times es" "set vs = set (votes s f es)" "winner vs = Some x" "winner (votes s f es) = Some y"
  shows "fe_state x = fe_state y"
proof (cases "\<exists>p \<in> set vs. fe_state p = ''purged''")
  case True
  then show ?thesis using winner_purged [OF assms(3)] winner_purged [OF assms(4)] assms(2) by simp
next
  case False
  have "x \<in> set vs" "y \<in> set vs" using winner_in assms by blast+
  moreover then have "fe_at x \<le> fe_at y" "fe_at y \<le> fe_at x"
    using winner_latest [OF assms(3)] winner_latest [OF assms(4)] False assms(2) by auto
  moreover have "x \<in> set (votes s f es)" "y \<in> set (votes s f es)" using assms(2) calculation by simp_all
  then have "x \<in> set es" "y \<in> set es" "fe_subject x = fe_subject y" "fe_forget x = fe_forget y"
    "fe_state x \<noteq> ''readded''" "fe_state y \<noteq> ''readded''" by (simp_all add: votes_def)
  moreover have "fe_state x \<noteq> ''purged''" "fe_state y \<noteq> ''purged''" using False calculation(1,2) by blast+
  ultimately show ?thesis by (intro clear_timesD [OF assms(1)]) simp_all
qed

text \<open>
  C15. Machines that have read the same entries agree on what is forgotten, as long as no forget of a
  subject has entries of different states at the same instant (trashed and restored, say): the answer then
  depends only on the set of entries, not on the order of the files, of the lines, or on copies of them.
\<close>
theorem registries_converge:
  assumes "set es = set es'" "clear_times es"
  shows "forgotten_in (index_entries es sig r) s \<longleftrightarrow> forgotten_in (index_entries es' sig' r') s"
proof -
  have v: "set (votes s f es') = set (votes s f es)" for f using assms(1) by (auto simp: votes_def)
  have "live_forget es s f \<longleftrightarrow> live_forget es' s f" for f
  proof (cases "votes s f es = []")
    case True
    then have "votes s f es' = []" using v by (metis set_empty)
    with True show ?thesis by (simp add: live_forget_def)
  next
    case False
    then have "votes s f es' \<noteq> []" using v by (metis set_empty)
    with False obtain x y where w: "winner (votes s f es) = Some x" "winner (votes s f es') = Some y"
      by (metis not_None_eq winner_None)
    then have "fe_state y = fe_state x" using winner_state_cong [OF assms(2) v] by blast
    with w show ?thesis using assms(1) by (simp add: live_forget_def cancelled_def forgotten_state_def)
  qed
  then show ?thesis by (simp add: forgotten_by_live)
qed

subsection \<open>The live forgets of a subject\<close>

definition found :: "(subject \<times> 'a list) list \<Rightarrow> subject \<Rightarrow> 'a list" where
  "found m s = (case map_of m s of None \<Rightarrow> [] | Some x \<Rightarrow> x)"

lemma found_update: "found (AList.update s x m) s' = (if s' = s then x else found m s')"
  by (simp add: found_def update_conv')

lemma live_lookup:
  "set (found (fb_live (fold bucket_step per b)) s) = set (found (fb_live b) s) \<union> {f. \<exists>e. ((s, f), e) \<in> set per \<and> forgotten_state e}"
proof (induction per arbitrary: b)
  case (Cons kv per)
  obtain s' f e where "kv = ((s', f), e)" by (metis prod.exhaust)
  with Cons show ?case
    by (auto simp: bucket_step_def Let_def found_update forgotten_state_def found_def [symmetric])
qed simp

lemma live_by_lookup:
  "distinct (map fst per) \<Longrightarrow> map_of (found (fb_live_by (fold bucket_step per b)) s) f =
     (case map_of per (s, f) of
        Some e \<Rightarrow> if forgotten_state e then Some (fe_by e) else map_of (found (fb_live_by b) s) f
      | None \<Rightarrow> map_of (found (fb_live_by b) s) f)"
proof (induction per arbitrary: b)
  case (Cons kv per)
  obtain s' f' e where "kv = ((s', f'), e)" by (metis prod.exhaust)
  moreover from this Cons.prems have "map_of per (s', f') = None" by (simp add: map_of_eq_None_iff)
  ultimately show ?case
    using Cons
    by (auto simp: bucket_step_def Let_def found_update forgotten_state_def found_def [symmetric] update_conv'
        split: option.split)
qed simp

lemma index_live: "set (found (rg_live (index_entries es sig r)) s) = {f. live_forget es s f}"
proof -
  obtain per re where p: "per_forget (forget_cancelled es) es = (per, re)" by fastforce
  have "rg_live (index_entries es sig r) = fb_live (fold bucket_step per no_buckets)"
    unfolding index_entries_def per_forget_def [symmetric] p by (simp add: Let_def no_buckets_def)
  then have "set (found (rg_live (index_entries es sig r)) s) = {f. \<exists>e. ((s, f), e) \<in> set per \<and> forgotten_state e}"
    by (simp add: live_lookup) (simp add: no_buckets_def found_def)
  moreover have "((s, f), e) \<in> set per \<longleftrightarrow> \<not> cancelled es s f \<and> winner (votes s f es) = Some e" for f e
    using per_forget_set [of s f e "forget_cancelled es" es] by (simp add: p forget_cancelled_iff)
  ultimately show ?thesis by (auto simp: live_forget_def)
qed

lemma index_live_by:
  "map_of (found (rg_live_by (index_entries es sig r)) s) f =
     (if live_forget es s f then map_option fe_by (winner (votes s f es)) else None)"
proof -
  obtain per re where p: "per_forget (forget_cancelled es) es = (per, re)" by fastforce
  have d: "distinct (map fst per)" using per_forget_distinct [of "forget_cancelled es" es] by (simp add: p)
  have "rg_live_by (index_entries es sig r) = fb_live_by (fold bucket_step per no_buckets)"
    unfolding index_entries_def per_forget_def [symmetric] p by (simp add: Let_def no_buckets_def)
  moreover have "map_of per (s, f) = (if cancelled es s f then None else winner (votes s f es))"
    using per_forget_lookup [of "forget_cancelled es" es s f] by (simp add: p forget_cancelled_iff)
  ultimately show ?thesis
    by (auto simp: live_by_lookup [OF d] live_forget_def) (simp_all add: no_buckets_def found_def split: option.split)
qed

end
