(* ===== verification/ForgetLog.thy ===== *)
theory ForgetLog
  imports ForgetIndex
begin

text \<open>
  The text of the registry files: every entry that is appended is read back as it was written, also
  after a write that was cut short, and the local snapshot holds what was loaded.
\<close>

subsection \<open>One entry\<close>

definition entry_ok :: "forget_entry \<Rightarrow> bool" where
  "entry_ok e \<longleftrightarrow> sb_kind (fe_subject e) \<in> set FORGET_KINDS \<and> fe_state e \<in> set FORGET_STATES \<and> sb_id (fe_subject e) \<noteq> []"

lemma sorted_entry:
  "sort_keys (entry_to_json e) =
     PDict [(''at'', PStr (fe_at e)), (''forget_id'', PStr (fe_forget e)), (''machine_id'', PStr (fe_machine e)),
            (''requested_by'', PStr (fe_by e)), (''state'', PStr (fe_state e)),
            (''subject'', PDict [(''id'', PStr (sb_id (fe_subject e))), (''kind'', PStr (sb_kind (fe_subject e)))]),
            (''user_id'', PStr (fe_user e))]"
  by (simp add: entry_to_json_def)

lemma entry_of_sorted: "entry_ok e \<Longrightarrow> entry_of_json (sort_keys (entry_to_json e)) = Some e"
  by (cases "fe_subject e")
    (simp add: sorted_entry entry_of_json_def entry_ok_def Let_def dget_Cons has_key_def dget_or_def)

lemma entry_text_read: "entry_ok e \<Longrightarrow>
    (case json_loads (json_dumps (sort_keys (entry_to_json e))) of None \<Rightarrow> None | Some v \<Rightarrow> entry_of_json v) = Some e"
  using json_roundtrip [of "sort_keys (entry_to_json e)"] entry_of_sorted by (simp add: sorted_entry)

lemma entry_of_json_ok:
  assumes "entry_of_json v = Some e"
  shows "entry_ok e"
proof -
  obtain d where d: "v = PDict d" using assms by (cases v) (simp_all add: entry_of_json_def)
  obtain subj where subj: "dget d ''subject'' = PDict subj"
    using assms unfolding d entry_of_json_def pyval.case by (cases "dget d ''subject''") simp_all
  show ?thesis
    using assms unfolding d entry_of_json_def pyval.case subj Let_def
    by (simp only: entry_ok_def split: if_splits) (auto simp only: option.inject de_Morgan_disj not_not)
qed

lemma parsed_ok: "e \<in> set (parse_lines ls) \<Longrightarrow> entry_ok e"
  by (auto simp: parse_lines_def List.map_filter_def entry_of_json_ok split: option.splits)

lemma parse_lines_append: "parse_lines (xs @ ys) = parse_lines xs @ parse_lines ys"
  by (simp add: parse_lines_def List.map_filter_def)

subsection \<open>Lines\<close>

definition unbroken :: "string \<Rightarrow> bool" where
  "unbroken s \<longleftrightarrow> list_all (\<lambda>c. \<not> is_linebreak c) s"

lemma unbroken_append [simp]: "unbroken (s @ t) \<longleftrightarrow> unbroken s \<and> unbroken t"
  and unbroken_Nil [simp]: "unbroken []"
  and unbroken_Cons: "unbroken (c # s) \<longleftrightarrow> \<not> is_linebreak c \<and> unbroken s"
  by (simp_all add: unbroken_def)

lemma unbroken_esc: "unbroken (esc_char c)"
proof -
  have h: "\<not> is_linebreak (hex_digit n)" if "n < 16" for n
    using that by (auto simp: hex_digit_def is_linebreak_def Let_def)
  have c: "(of_char c :: nat) < 256" by simp
  then have "(of_char c :: nat) div 16 < 16" by (intro less_mult_imp_div_less) simp
  then have "\<not> is_linebreak (hex_digit (of_char c div 16))" "\<not> is_linebreak (hex_digit (of_char c mod 16))"
    by (auto intro!: h)
  then show ?thesis by (auto simp: esc_char_def unbroken_def is_linebreak_def Let_def)
qed

lemma unbroken_str: "unbroken (json_str s)"
proof -
  have "unbroken (concat (map esc_char s))" by (induction s) (simp_all add: unbroken_esc)
  then show ?thesis by (simp add: json_str_def unbroken_def is_linebreak_def)
qed

lemma entry_text_unbroken: "unbroken (json_dumps (sort_keys (entry_to_json e)))"
  by (simp add: sorted_entry unbroken_str json_dumps.simps unbroken_Cons) (simp add: is_linebreak_def)

lemma splitlines_line: "unbroken l \<Longrightarrow> splitlines_aux cur (l @ CHR 0x0A # rest) = (rev cur @ l) # splitlines rest"
  by (induction l arbitrary: cur) (simp_all add: unbroken_def splitlines_def is_linebreak_def)

lemma splitlines_ended:
  "old \<noteq> [] \<and> last old = CHR 0x0A \<or> old = [] \<and> cur = [] \<Longrightarrow> splitlines_aux cur (old @ rest) = splitlines_aux cur old @ splitlines rest"
proof (induction cur old rule: splitlines_aux.induct)
  case (1 cur)
  then show ?case by (simp add: splitlines_def)
next
  case (2 cur c cs)
  let ?t = "if c = CHR 0x0D \<and> cs \<noteq> [] \<and> hd cs = CHR 0x0A then tl cs else cs"
  show ?case
  proof (cases "is_linebreak c")
    case True
    have r: "(if c = CHR 0x0D \<and> cs @ rest \<noteq> [] \<and> hd (cs @ rest) = CHR 0x0A then tl (cs @ rest) else cs @ rest) = ?t @ rest"
      using 2(3) by (cases cs) auto
    have "?t \<noteq> [] \<and> last ?t = CHR 0x0A \<or> ?t = []" using 2(3) by (cases cs; cases "tl cs") auto
    then have "splitlines_aux [] (?t @ rest) = splitlines_aux [] ?t @ splitlines rest" using 2(1) [OF True] by blast
    then show ?thesis using True r by simp
  next
    case False
    then have "cs \<noteq> [] \<and> last cs = CHR 0x0A" using 2(3) by (auto simp: is_linebreak_def split: if_splits)
    then show ?thesis using False 2(2) by simp
  qed
qed

lemma splitlines_entries: "splitlines (concat (map entry_line es)) = map (\<lambda>e. json_dumps (sort_keys (entry_to_json e))) es"
proof (induction es)
  case (Cons e es)
  then show ?case
    using splitlines_line [OF entry_text_unbroken, of "[]" e] by (simp add: entry_line_def splitlines_def)
qed (simp add: splitlines_def)

lemma parse_entries: "list_all entry_ok es \<Longrightarrow> parse_lines (splitlines (concat (map entry_line es))) = es"
  unfolding splitlines_entries by (induction es) (simp_all add: parse_lines_def List.map_filter_def entry_text_read)

lemma parse_blank: "parse_lines [[]] = []"
  by (simp add: parse_lines_def List.map_filter_def json_loads_def)

lemma splitlines_newline:
  "s \<noteq> [] \<Longrightarrow> last s \<noteq> CHR 0x0A \<Longrightarrow> parse_lines (splitlines_aux cur (s @ [CHR 0x0A])) = parse_lines (splitlines_aux cur s)"
proof (induction cur s rule: splitlines_aux.induct)
  case (2 cur c cs)
  let ?n = "CHR 0x0A"
  let ?t = "if c = CHR 0x0D \<and> cs \<noteq> [] \<and> hd cs = ?n then tl cs else cs"
  have n: "is_linebreak ?n" by (simp add: is_linebreak_def)
  show ?case
  proof (cases "cs = []")
    case True
    then have "c \<noteq> ?n" using 2(4) by simp
    moreover have "parse_lines [rev cur, []] = parse_lines [rev cur]"
      using parse_lines_append [of "[rev cur]" "[[]]"] parse_blank by simp
    ultimately show ?thesis unfolding True using n by (cases "is_linebreak c") simp_all
  next
    case ne: False
    show ?thesis
    proof (cases "is_linebreak c")
      case True
      have r: "(if c = CHR 0x0D \<and> cs @ [?n] \<noteq> [] \<and> hd (cs @ [?n]) = ?n then tl (cs @ [?n]) else cs @ [?n]) = ?t @ [?n]"
        using ne by (cases cs) simp_all
      have "?t \<noteq> []" "last ?t \<noteq> ?n" using ne 2(4) by (cases cs; cases "tl cs"; auto)+
      then have "parse_lines (splitlines_aux [] (?t @ [?n])) = parse_lines (splitlines_aux [] ?t)"
        using 2(1) [OF True] by blast
      then have "parse_lines ([rev cur] @ splitlines_aux [] (?t @ [?n])) = parse_lines ([rev cur] @ splitlines_aux [] ?t)"
        by (simp only: parse_lines_append)
      then show ?thesis
        unfolding append_Cons splitlines_aux.simps if_P [OF True] r by simp
    next
      case False
      then have "parse_lines (splitlines_aux (c # cur) (cs @ [?n])) = parse_lines (splitlines_aux (c # cur) cs)"
        using 2(2) ne 2(4) by simp
      then show ?thesis unfolding append_Cons splitlines_aux.simps if_not_P [OF False] .
    qed
  qed
qed simp

lemma parse_appended:
  assumes "list_all entry_ok es"
  shows "parse_lines (splitlines (appended_text old es)) = parse_lines (splitlines old) @ es"
proof -
  let ?old = "old @ (if old \<noteq> [] \<and> last old \<noteq> CHR 0x0A then [CHR 0x0A] else [])"
  have "splitlines (?old @ concat (map entry_line es)) = splitlines ?old @ splitlines (concat (map entry_line es))"
    using splitlines_ended [of ?old "[]"] by (simp add: splitlines_def)
  moreover have "parse_lines (splitlines ?old) = parse_lines (splitlines old)"
    using splitlines_newline [of old "[]"] by (simp add: splitlines_def)
  ultimately show ?thesis
    using parse_entries [OF assms] by (simp add: appended_text_def parse_lines_append)
qed

text \<open>
  C36. What is appended to a registry file is read back: whatever the file held, also a line that a
  crash cut short, its entries are followed by exactly the new ones.
\<close>
theorem appended_entries_read_back:
  assumes "list_all entry_ok es"
  shows "parse_lines (splitlines (appended_text old es)) = parse_lines (splitlines old) @ es"
  using assms by (rule parse_appended)

end
