(* ===== verification/ForgetOutage.thy ===== *)
theory ForgetOutage
  imports ForgetLog
begin

text \<open>
  The registry while its shared folder comes and goes: as a step relation on the registry, its disk
  and what the shared folder holds, with what a process never forgets again, what a restart reads
  back, and the two situations in which a recorded forget does lapse.
\<close>

subsection \<open>What a refresh knows\<close>

definition says :: "reg_file \<Rightarrow> forget_entry list" where
  "says f = parse_lines (splitlines (rf_text f))"

definition grown :: "(string \<times> reg_file) list \<Rightarrow> (string \<times> reg_file) list \<Rightarrow> bool" where
  \<comment> \<open>no file went away and none says less; any may be readable or not\<close>
  "grown fs fs' \<longleftrightarrow> distinct (map fst fs') \<and>
     (\<forall>n f. map_of fs n = Some f \<longrightarrow> (\<exists>f'. map_of fs' n = Some f' \<and> set (says f) \<subseteq> set (says f')))"

definition read_so_far :: "registry \<Rightarrow> forget_entry set" where
  "read_so_far r = (\<Union>es \<in> snd ` set (rg_per_file r). set es)"

definition said :: "(string \<times> reg_file) list \<Rightarrow> forget_entry set" where
  "said fs = (\<Union>nf \<in> set fs. set (says (snd nf)))"

definition kept_entries :: "registry \<Rightarrow> reg_disk \<Rightarrow> (string \<times> reg_file) list \<Rightarrow> bool" where
  \<comment> \<open>whatever the registry knows was read from a file that still says it, or stands in the snapshot\<close>
  "kept_entries r d fs \<longleftrightarrow>
     (\<forall>n es. map_of (rg_per_file r) n = Some es \<longrightarrow>
        registry_name n \<and> (\<exists>f. map_of fs n = Some f \<and> set es \<subseteq> set (says f)))
     \<and> (rg_loaded r \<longrightarrow> set (rg_all r) \<subseteq> read_so_far r \<union> set (read_snapshot r d))
     \<and> set (read_snapshot r d) \<subseteq> said (filter (\<lambda>nf. registry_name (fst nf)) fs)
     \<and> distinct (map fst (rg_per_file r)) \<and> distinct (map fst fs)"

lemma keptD:
  assumes "kept_entries r d fs"
  shows "map_of (rg_per_file r) n = Some es \<Longrightarrow> registry_name n"
    and "map_of (rg_per_file r) n = Some es \<Longrightarrow> \<exists>f. map_of fs n = Some f \<and> set es \<subseteq> set (says f)"
    and "rg_loaded r \<Longrightarrow> set (rg_all r) \<subseteq> read_so_far r \<union> set (read_snapshot r d)"
    and "set (read_snapshot r d) \<subseteq> said (filter (\<lambda>nf. registry_name (fst nf)) fs)"
    and "distinct (map fst (rg_per_file r))" "distinct (map fst fs)"
  using assms unfolding kept_entries_def by blast+

lemma index_all [simp]: "rg_all (index_entries es sig r) = es"
    "rg_per_file (index_entries es sig r) = rg_per_file r" "rg_loaded (index_entries es sig r) = True"
    "rg_root (index_entries es sig r) = rg_root r" "rg_keeps_snapshot (index_entries es sig r) = rg_keeps_snapshot r"
    "rg_machine (index_entries es sig r) = rg_machine r" "rg_signature (index_entries es sig r) = sig"
  by (simp_all add: index_entries_def Let_def split: prod.split)

lemma read_snapshot_cong [simp]: "read_snapshot (r\<lparr>rg_unreachable := b\<rparr>) d = read_snapshot r d"
    "read_snapshot (r\<lparr>rg_per_file := p\<rparr>) d = read_snapshot r d" "read_snapshot (r\<lparr>rg_signature := g\<rparr>) d = read_snapshot r d"
    "read_snapshot (index_entries es sig r) d = read_snapshot r d"
  by (simp_all add: read_snapshot_def)

lemma file_entries_unreachable [simp]: "file_entries (r\<lparr>rg_unreachable := b\<rparr>) nf = file_entries r nf"
  by (simp add: file_entries_def)

lemma snapshot_written:
  "list_all entry_ok es \<Longrightarrow> set (read_snapshot r (write_snapshot r es d)) =
     (if rg_keeps_snapshot r \<and> rd_snap_writable d \<and> rd_snap_readable d then set es else set (read_snapshot r d))"
  by (auto simp: write_snapshot_def read_snapshot_def parse_entries)

lemma registry_files_in:
  "registry_files r d = Some fs \<Longrightarrow> nf \<in> set fs \<Longrightarrow> registry_name (fst nf) \<and> (\<exists>all. rd_dir d = Some all \<and> nf \<in> set all)"
  by (auto simp: registry_files_def split: if_splits option.splits)

lemma registry_files_all:
  "registry_files r d = Some fs \<Longrightarrow> rg_root r \<Longrightarrow> rd_dir d = Some all \<Longrightarrow> nf \<in> set all \<Longrightarrow> registry_name (fst nf) \<Longrightarrow> nf \<in> set fs"
  by (auto simp: registry_files_def split: if_splits)

lemma registry_files_distinct:
  assumes "registry_files r d = Some fs" "rd_dir d = Some all" "distinct (map fst all)"
  shows "distinct (map fst fs)"
proof -
  have "inj_on fst (set all)" "distinct all" using assms(3) by (simp_all add: distinct_map)
  moreover have fs: "fs = [] \<or> fs = sort_key fst (filter (\<lambda>f. registry_name (fst f)) all)"
    using assms(1,2) unfolding registry_files_def by (simp split: if_splits)
  moreover have "inj_on fst {x \<in> set all. registry_name (fst x)}" using calculation(1) by (rule inj_on_subset) blast
  ultimately show ?thesis by (elim disjE) (simp_all add: distinct_map)
qed

definition same_reach :: "reg_disk \<Rightarrow> reg_disk \<Rightarrow> bool" where
  "same_reach d d' \<longleftrightarrow> rd_dir d' = rd_dir d \<and> rd_snap_readable d' = rd_snap_readable d \<and> rd_listable d' = rd_listable d"

lemma same_reach_write [simp]: "same_reach d d" "same_reach d (write_snapshot r es d)"
  by (simp_all add: same_reach_def write_snapshot_def)

definition reading :: "registry \<Rightarrow> reg_disk \<Rightarrow> (string \<times> reg_file) list \<Rightarrow> (string \<times> reg_file) list \<Rightarrow> bool" where
  \<comment> \<open>these registry files of all the files are about to be read\<close>
  "reading r d all fs \<longleftrightarrow> kept_entries r d all \<and> registry_files r d = Some fs \<and> rg_root r \<and> rd_dir d = Some all"

lemma readingD:
  assumes "reading r d all fs"
  shows "kept_entries r d all" "nf \<in> set fs \<longleftrightarrow> nf \<in> set all \<and> registry_name (fst nf)" "distinct (map fst fs)"
    and "nf \<in> set fs \<Longrightarrow> map_of all (fst nf) = Some (snd nf)"
proof -
  show k: "kept_entries r d all" and m: "nf \<in> set fs \<longleftrightarrow> nf \<in> set all \<and> registry_name (fst nf)"
    using assms registry_files_in [of r d fs nf] registry_files_all [of r d fs all nf] by (auto simp: reading_def)
  show "distinct (map fst fs)" using assms registry_files_distinct keptD(6) [OF k] by (auto simp: reading_def)
  show "nf \<in> set fs \<Longrightarrow> map_of all (fst nf) = Some (snd nf)" using m keptD(6) [OF k] by simp
qed

lemma entries_said: "reading r d all fs \<Longrightarrow> nf \<in> set fs \<Longrightarrow> set (file_entries r nf) \<subseteq> set (says (snd nf))"
proof (cases "rf_readable (snd nf)")
  case False
  assume a: "reading r d all fs" "nf \<in> set fs"
  show ?thesis
  proof (cases "map_of (rg_per_file r) (fst nf)")
    case (Some es)
    then obtain f where "map_of all (fst nf) = Some f" "set es \<subseteq> set (says f)"
      using keptD(2) [OF readingD(1) [OF a(1)]] by blast
    then show ?thesis using readingD(4) [OF a] False Some by (simp add: file_entries_def)
  qed (use False in \<open>simp add: file_entries_def\<close>)
qed (simp add: file_entries_def says_def)

lemma entries_kept:
  assumes "reading r d all fs" "e \<in> read_so_far r"
  shows "\<exists>nf \<in> set fs. e \<in> set (file_entries r nf)"
proof -
  note k = readingD(1) [OF assms(1)]
  obtain n es where n: "(n, es) \<in> set (rg_per_file r)" "e \<in> set es" using assms(2) by (auto simp: read_so_far_def)
  then have m: "map_of (rg_per_file r) n = Some es" using keptD(5) [OF k] by simp
  then obtain f where f: "map_of all n = Some f" "set es \<subseteq> set (says f)" using keptD(2) [OF k] by blast
  then have "(n, f) \<in> set fs" using readingD(2) [OF assms(1)] keptD(1) [OF k m] by (simp add: map_of_SomeD)
  moreover have "e \<in> set (file_entries r (n, f))" using m n f by (auto simp: file_entries_def says_def)
  ultimately show ?thesis by blast
qed

lemma snapshot_said: "reading r d all fs \<Longrightarrow> set (read_snapshot r d) \<subseteq> said fs"
  using keptD(4) [OF readingD(1)] readingD(2) by (fastforce simp: said_def)

lemma kept_reload:
  assumes "reading r d all fs" "rg_per_file r' = map (\<lambda>nf. (fst nf, file_entries r nf)) fs" "rg_loaded r'"
    and "set (rg_all r') \<subseteq> (\<Union>nf \<in> set fs. set (file_entries r nf)) \<union> set (read_snapshot r' d')"
    and "set (read_snapshot r' d') \<subseteq> said fs"
  shows "kept_entries r' d' all"
proof -
  have k: "kept_entries r d all" by (rule readingD(1) [OF assms(1)])
  have i: "read_so_far r' = (\<Union>nf \<in> set fs. set (file_entries r nf))" by (simp add: read_so_far_def assms(2))
  have p: "registry_name n \<and> (\<exists>f. map_of all n = Some f \<and> set es \<subseteq> set (says f))"
    if a: "map_of (rg_per_file r') n = Some es" for n es
  proof -
    obtain f where "(n, f) \<in> set fs" "es = file_entries r (n, f)" using map_of_SomeD [OF a] by (auto simp: assms(2))
    then show ?thesis
      using readingD(2) [OF assms(1), of "(n, f)"] readingD(4) [OF assms(1), of "(n, f)"] entries_said [OF assms(1), of "(n, f)"] by simp
  qed
  have "said fs \<subseteq> said (filter (\<lambda>nf. registry_name (fst nf)) all)"
    using readingD(2) [OF assms(1)] by (auto simp: said_def)
  moreover have "distinct (map fst (rg_per_file r'))" using readingD(3) [OF assms(1)] by (simp add: assms(2) comp_def)
  ultimately show ?thesis
    unfolding kept_entries_def i using p assms(4,5) keptD(6) [OF k] by blast
qed

lemma reload_keeps:
  assumes rd: "reading r d all fs" and re: "reload fs r d = (r', d')"
  shows "kept_entries r' d' all \<and> (rg_loaded r \<longrightarrow> set (rg_all r) \<subseteq> set (rg_all r')) \<and> same_reach d d'"
proof -
  let ?per = "map (\<lambda>nf. (fst nf, file_entries r nf)) fs"
  let ?every = "concat (map snd ?per)"
  let ?r = "r\<lparr>rg_per_file := ?per\<rparr>"
  have every: "set ?every = (\<Union>nf \<in> set fs. set (file_entries r nf))" by auto
  have ok: "list_all entry_ok ?every"
    using entries_said [OF rd] by (fastforce simp: list_all_iff says_def dest: parsed_ok)
  have known: "set (rg_all r) \<subseteq> set ?every \<union> set (read_snapshot r d)" if "rg_loaded r"
    using keptD(3) [OF readingD(1) [OF rd] that] entries_kept [OF rd] unfolding every by blast
  show ?thesis
  proof (cases "list_ex (\<lambda>nf. \<not> rf_readable (snd nf)) fs")
    case True
    then have "(r', d') = (index_entries (?every @ filter (\<lambda>e. e \<notin> set ?every) (read_snapshot r d)) [] ?r, d)"
      unfolding re [symmetric] reload_def Let_def by simp
    then have r': "r' = index_entries (?every @ filter (\<lambda>e. e \<notin> set ?every) (read_snapshot r d)) [] ?r" "d' = d"
      by blast+
    then have "kept_entries r' d' all"
      using snapshot_said [OF rd] by (intro kept_reload [OF rd]) auto
    moreover have "set (rg_all r') = set ?every \<union> set (read_snapshot r d)" unfolding r' by auto
    ultimately show ?thesis using known r'(2) by simp
  next
    case False
    then have "(r', d') = (index_entries ?every (file_signature fs) ?r, write_snapshot ?r ?every d)"
      unfolding re [symmetric] reload_def Let_def by (simp add: write_snapshot_def)
    then have r': "r' = index_entries ?every (file_signature fs) ?r" "d' = write_snapshot ?r ?every d"
      by blast+
    have "file_entries r nf = says (snd nf)" if "nf \<in> set fs" for nf
      using False that by (auto simp: file_entries_def says_def list_ex_iff)
    then have es: "set ?every = said fs" unfolding every said_def by simp
    have "set (read_snapshot r' d') \<subseteq> said fs"
      using snapshot_said [OF rd] es snapshot_written [OF ok, of ?r d] unfolding r' by (simp split: if_splits)
    then have "kept_entries r' d' all" using r' by (intro kept_reload [OF rd]) auto
    moreover have "set (rg_all r') = said fs" unfolding r' es [symmetric] by simp
    ultimately show ?thesis using known snapshot_said [OF rd] es r'(2) by auto
  qed
qed

lemma kept_unreachable [simp]: "kept_entries (r\<lparr>rg_unreachable := b\<rparr>) d all = kept_entries r d all"
    "registry_files (r\<lparr>rg_unreachable := b\<rparr>) d = registry_files r d"
  by (simp_all add: kept_entries_def read_so_far_def registry_files_def)

lemma kept_index:
  "kept_entries r d fs \<Longrightarrow> set es \<subseteq> read_so_far r \<union> set (read_snapshot r d) \<Longrightarrow> kept_entries (index_entries es sig r) d fs"
  unfolding kept_entries_def read_so_far_def index_all read_snapshot_cong by blast

lemma reload_none:
  assumes "kept_entries r d all" "reload [] r d = (r', d')"
  shows "kept_entries r' d' all \<and> same_reach d d' \<and> rg_all r' = []"
proof -
  let ?r = "r\<lparr>rg_per_file := []\<rparr>"
  have r': "r' = index_entries [] [] ?r" "d' = write_snapshot ?r [] d"
    using assms(2) by (auto simp: reload_def file_signature_def write_snapshot_def)
  have "set (read_snapshot r' d') \<subseteq> set (read_snapshot r d)"
    using snapshot_written [of "[]" ?r d] unfolding r' by (simp split: if_splits)
  then show ?thesis
    using keptD(4,6) [OF assms(1)] unfolding r'
    by (simp add: kept_entries_def read_so_far_def)
qed

lemma reload_config: "reload fs r d = (r', d') \<Longrightarrow> rg_root r' = rg_root r \<and> rg_machine r' = rg_machine r"
  by (auto simp: reload_def Let_def split: if_splits)

lemma refresh_keeps:
  assumes "kept_entries r d all" "rg_root r" "rd_dir d = None \<or> rd_dir d = Some all" "reg_refresh r d = (r', d')"
  shows "kept_entries r' d' all \<and> (rg_loaded r \<longrightarrow> set (rg_all r) \<subseteq> set (rg_all r')) \<and> same_reach d d'
    \<and> rg_root r' \<and> rg_machine r' = rg_machine r"
proof -
  define files where "files = (case registry_files r d of None \<Rightarrow> [] | Some fs \<Rightarrow> fs)"
  define known where "known = (if rg_loaded r then rg_all r else read_snapshot r d)"
  note rr = assms(4) [unfolded reg_refresh_def, folded files_def known_def, unfolded Let_def]
  let ?r = "r\<lparr>rg_unreachable := False\<rparr>"
  consider (known) "files = []" "known \<noteq> []" | (same) "\<not> (files = [] \<and> known \<noteq> [])" "rg_loaded r" "file_signature files = rg_signature r"
    | (load) "\<not> (files = [] \<and> known \<noteq> [])" "\<not> (rg_loaded r \<and> file_signature files = rg_signature r)" by blast
  then show ?thesis
  proof cases
    case known
    show ?thesis
    proof (cases "rg_loaded r")
      case True
      then have "r' = r\<lparr>rg_unreachable := True\<rparr>" "d' = d" using rr known by auto
      then show ?thesis using assms by simp
    next
      case False
      then have "r' = index_entries (read_snapshot r d) [] (r\<lparr>rg_unreachable := True\<rparr>)" "d' = d"
        using rr known by (auto simp: known_def)
      then show ?thesis using assms False by (simp add: kept_index)
    qed
  next
    case same
    then have "r' = ?r" "d' = d" using rr unfolding if_not_P [OF same(1)] by auto
    then show ?thesis using assms by simp
  next
    case load
    then have re: "reload files ?r d = (r', d')" using rr unfolding if_not_P [OF load(1)] if_not_P [OF load(2)] by simp
    show ?thesis
    proof (cases "registry_files r d")
      case None
      then have f: "files = []" by (simp add: files_def)
      then have "rg_loaded r \<longrightarrow> rg_all r = []" using load by (auto simp: known_def split: if_splits)
      then show ?thesis using reload_none [of ?r d all r' d'] re f assms reload_config [OF re] by simp
    next
      case (Some fs)
      then have "rd_dir d = Some all" using assms(2,3) by (auto simp: registry_files_def)
      then have "reading ?r d all files" using Some assms by (simp add: reading_def files_def)
      from reload_keeps [OF this re] show ?thesis using reload_config [OF re] assms(2) by simp
    qed
  qed
qed

subsection \<open>Runs\<close>

record reg_sys =
  sy_reg :: registry
  sy_disk :: reg_disk
  sy_remote :: "(string \<times> reg_file) list" \<comment> \<open>what the shared folder holds, mounted or not\<close>

inductive reg_step :: "reg_sys \<Rightarrow> reg_sys \<Rightarrow> bool" where
  ask: "reg_refresh r d = (r', d') \<Longrightarrow>
    reg_step \<lparr>sy_reg = r, sy_disk = d, sy_remote = fs\<rparr> \<lparr>sy_reg = r', sy_disk = d', sy_remote = fs\<rparr>"
| reach: "x = None \<or> x = Some fs \<Longrightarrow>
    reg_step \<lparr>sy_reg = r, sy_disk = d, sy_remote = fs\<rparr> \<lparr>sy_reg = r, sy_disk = d\<lparr>rd_dir := x, rd_listable := b\<rparr>, sy_remote = fs\<rparr>"
| sync: "grown fs fs' \<Longrightarrow> x = None \<or> x = Some fs' \<Longrightarrow>
    reg_step \<lparr>sy_reg = r, sy_disk = d, sy_remote = fs\<rparr> \<lparr>sy_reg = r, sy_disk = d\<lparr>rd_dir := x\<rparr>, sy_remote = fs'\<rparr>"
| record_entries: "rd_dir d = Some fs \<Longrightarrow> list_all entry_ok es \<Longrightarrow> reg_append now es r d = Inr (r', d') \<Longrightarrow> rd_dir d' = Some fs' \<Longrightarrow>
    reg_step \<lparr>sy_reg = r, sy_disk = d, sy_remote = fs\<rparr> \<lparr>sy_reg = r', sy_disk = d', sy_remote = fs'\<rparr>"

definition fresh_sys :: "string \<Rightarrow> bool \<Rightarrow> reg_disk \<Rightarrow> (string \<times> reg_file) list \<Rightarrow> reg_sys" where
  "fresh_sys mid snap d fs = \<lparr>sy_reg = new_registry True mid snap, sy_disk = d, sy_remote = fs\<rparr>"

definition sys_ok :: "reg_sys \<Rightarrow> bool" where
  "sys_ok st \<longleftrightarrow> kept_entries (sy_reg st) (sy_disk st) (sy_remote st) \<and> rg_root (sy_reg st)
     \<and> (rd_dir (sy_disk st) = None \<or> rd_dir (sy_disk st) = Some (sy_remote st))"

lemma said_grown:
  assumes "grown fs fs'" "distinct (map fst fs)"
  shows "said (filter (\<lambda>nf. registry_name (fst nf)) fs) \<subseteq> said (filter (\<lambda>nf. registry_name (fst nf)) fs')"
proof
  fix e assume "e \<in> said (filter (\<lambda>nf. registry_name (fst nf)) fs)"
  then obtain n f where n: "(n, f) \<in> set fs" "registry_name n" "e \<in> set (says f)" by (auto simp: said_def)
  then obtain f' where "map_of fs' n = Some f'" "set (says f) \<subseteq> set (says f')"
    using assms by (metis grown_def map_of_is_SomeI)
  then show "e \<in> said (filter (\<lambda>nf. registry_name (fst nf)) fs')"
    using n by (force simp: said_def dest: map_of_SomeD)
qed

lemma kept_grown:
  assumes "kept_entries r d fs" "grown fs fs'"
  shows "kept_entries r d fs'"
proof -
  have "\<exists>f. map_of fs' n = Some f \<and> set es \<subseteq> set (says f)" if "map_of (rg_per_file r) n = Some es" for n es
    using keptD(2) [OF assms(1) that] assms(2) unfolding grown_def by (meson order_trans)
  moreover have "distinct (map fst fs')" using assms(2) by (simp add: grown_def)
  ultimately show ?thesis
    unfolding kept_entries_def
    using keptD(1) [OF assms(1)] keptD(3-5) [OF assms(1)] said_grown [OF assms(2) keptD(6) [OF assms(1)]] by blast
qed

lemma append_grown:
  assumes "list_all entry_ok es" "reg_append now es r d = Inr (r', d')" "rd_dir d = Some fs" "distinct (map fst fs)"
    "rd_dir d' = Some fs'"
  shows "grown fs fs'"
proof -
  let ?n = "own_file r"
  let ?old = "case map_of fs ?n of None \<Rightarrow> \<lparr>rf_text = [], rf_mtime = now, rf_readable = True\<rparr> | Some f \<Rightarrow> f"
  let ?new = "?old\<lparr>rf_text := appended_text (rf_text ?old) es, rf_mtime := now\<rparr>"
  have fs': "fs' = AList.update ?n ?new fs" using assms by (auto simp: reg_append_def Let_def split: if_splits)
  have "set (says ?old) \<subseteq> set (says ?new)" using parse_appended [OF assms(1)] by (simp add: says_def)
  then show ?thesis
    unfolding grown_def fs' using assms(4)
    by (auto simp: distinct_update update_conv')
qed

lemma kept_cong: "kept_entries (r\<lparr>rg_signature := g\<rparr>) d fs = kept_entries r d fs"
    "kept_entries r (d\<lparr>rd_dir := x\<rparr>) fs = kept_entries r d fs" "kept_entries r (d\<lparr>rd_listable := b\<rparr>) fs = kept_entries r d fs"
  by (simp_all add: kept_entries_def read_so_far_def read_snapshot_def)

lemma step_keeps:
  assumes "reg_step st st'" "sys_ok st"
  shows "sys_ok st' \<and> (rg_loaded (sy_reg st) \<longrightarrow> set (rg_all (sy_reg st)) \<subseteq> set (rg_all (sy_reg st')))"
  using assms
proof (cases rule: reg_step.cases)
  case (ask r d r' d' fs)
  then show ?thesis
    using assms(2) refresh_keeps [of r d fs r' d'] by (auto simp: sys_ok_def same_reach_def)
next
  case (reach x fs r d b)
  then show ?thesis using assms(2) by (auto simp: sys_ok_def kept_cong)
next
  case (sync fs fs' x r d)
  then show ?thesis using assms(2) kept_grown by (auto simp: sys_ok_def kept_cong)
next
  case (record_entries d fs es now r r' d' fs')
  have k: "kept_entries r d fs" using assms(2) record_entries by (simp add: sys_ok_def)
  then have g: "grown fs fs'" using append_grown record_entries keptD(6) by metis
  have "r' = r\<lparr>rg_signature := []\<rparr>" "d' = d\<lparr>rd_dir := Some fs'\<rparr>"
    using record_entries by (auto simp: reg_append_def Let_def split: if_splits)
  then show ?thesis using record_entries assms(2) kept_grown [OF k g] by (auto simp: sys_ok_def kept_cong)
qed

subsection \<open>The index stands for what is known\<close>

definition indexed :: "registry \<Rightarrow> bool" where
  "indexed r \<longleftrightarrow> (rg_loaded r \<longrightarrow> index_entries (rg_all r) (rg_signature r) r = r)"

lemma index_again [simp]: "index_entries es sig (index_entries es sig r) = index_entries es sig r"
    "index_entries es sig (r\<lparr>rg_unreachable := b\<rparr>) = (index_entries es sig r)\<lparr>rg_unreachable := b\<rparr>"
  by (simp_all add: index_entries_def Let_def split: prod.split)

lemma index_signature: "index_entries es [] (r\<lparr>rg_signature := []\<rparr>) = (index_entries es sig r)\<lparr>rg_signature := []\<rparr>"
  by (simp add: index_entries_def Let_def split: prod.split)

lemma indexed_reload: "reload fs r d = (r', d') \<Longrightarrow> indexed r'"
  by (auto simp: reload_def Let_def indexed_def split: if_splits)

lemma indexed_refresh: "indexed r \<Longrightarrow> reg_refresh r d = (r', d') \<Longrightarrow> indexed r'"
  by (auto simp: reg_refresh_def Let_def indexed_reload split: if_splits) (simp_all add: indexed_def)

lemma append_registry: "reg_append now es r d = Inr (r', d') \<Longrightarrow> rg_root r \<and> r' = r\<lparr>rg_signature := []\<rparr>"
  by (auto simp: reg_append_def Let_def split: if_splits)

lemma indexed_append: "indexed r \<Longrightarrow> reg_append now es r d = Inr (r', d') \<Longrightarrow> indexed r'"
  using index_signature [of "rg_all r" r "rg_signature r"] by (auto simp: indexed_def dest: append_registry)

lemma indexed_step: "reg_step st st' \<Longrightarrow> indexed (sy_reg st) \<Longrightarrow> indexed (sy_reg st')"
  by (cases rule: reg_step.cases) (auto intro: indexed_refresh indexed_append)

lemma state_indexed: "indexed r \<Longrightarrow> rg_loaded r \<Longrightarrow> state_in r s = state_in (index_entries (rg_all r) (rg_signature r) r) s"
  by (simp add: indexed_def)

lemma loaded_step: "reg_step st st' \<Longrightarrow> rg_loaded (sy_reg st) \<Longrightarrow> rg_loaded (sy_reg st')"
  by (cases rule: reg_step.cases)
    (auto simp: reg_refresh_def reload_def reg_append_def Let_def split: if_splits)

definition known_ok :: "reg_sys \<Rightarrow> bool" where
  "known_ok st \<longleftrightarrow> sys_ok st \<and> indexed (sy_reg st)"

lemma known_fresh:
  assumes "rd_snapshot d = None" "distinct (map fst fs)" "rd_dir d = None \<or> rd_dir d = Some fs"
  shows "known_ok (fresh_sys mid snap d fs)"
  using assms
  by (simp add: known_ok_def sys_ok_def indexed_def fresh_sys_def new_registry_def kept_entries_def read_snapshot_def read_so_far_def)

lemma known_run:
  "reg_step\<^sup>*\<^sup>* st st' \<Longrightarrow> known_ok st \<Longrightarrow> known_ok st' \<and>
     (rg_loaded (sy_reg st) \<longrightarrow> rg_loaded (sy_reg st') \<and> set (rg_all (sy_reg st)) \<subseteq> set (rg_all (sy_reg st')))"
proof (induction rule: rtranclp_induct)
  case (step t u)
  then show ?case
    using step_keeps [of t u] indexed_step [of t u] loaded_step [of t u] by (auto simp: known_ok_def)
qed simp

text \<open>
  C5. As long as a running process records nothing while the shared folder is missing, a purge that it knows
  does not lapse while the folder comes and goes: through unmounts, unreadable folders and files, other
  machines' writes, its own writes to a mounted folder and any queries, the entries it knows only grow, and
  what it reads as purged it goes on reading as purged until the content is added again. What it loses by
  recording while the folder is missing is stated at the end of this theory.
\<close>
theorem known_forgets_survive:
  assumes "rd_snapshot d = None" "distinct (map fst fs)" "rd_dir d = None \<or> rd_dir d = Some fs"
    and "reg_step\<^sup>*\<^sup>* (fresh_sys mid snap d fs) st" "reg_step\<^sup>*\<^sup>* st st'" "rg_loaded (sy_reg st)"
    and "state_in (sy_reg st) s = Some ''purged''"
  shows "set (rg_all (sy_reg st)) \<subseteq> set (rg_all (sy_reg st'))
    \<and> (state_in (sy_reg st') s = Some ''purged''
       \<or> (\<exists>e. e \<in> set (rg_all (sy_reg st')) \<and> fe_state e = ''readded'' \<and> fe_subject e = s))"
proof -
  have k: "known_ok st" using known_run [OF assms(4) known_fresh [OF assms(1-3)]] by blast
  note k' = known_run [OF assms(5) k]
  have i: "indexed (sy_reg st)" "indexed (sy_reg st')" "rg_loaded (sy_reg st')"
    and sub: "set (rg_all (sy_reg st)) \<subseteq> set (rg_all (sy_reg st'))"
    using k k' assms(6) by (auto simp: known_ok_def)
  obtain p where p: "p \<in> set (rg_all (sy_reg st))" "fe_state p = ''purged''" "fe_subject p = s"
    using assms(7) unfolding state_indexed [OF i(1) assms(6)] purged_iff by blast
  have "state_in (sy_reg st') s = Some ''purged''" if "\<not> cancelled (rg_all (sy_reg st')) s (fe_forget p)"
    unfolding state_indexed [OF i(2,3)] purged_iff using p sub that by blast
  with sub show ?thesis by (auto simp: cancelled_def)
qed

subsection \<open>A restart\<close>

lemma full_reload:
  assumes "list_all (\<lambda>nf. rf_readable (snd nf)) fs"
  shows "reload fs r d =
    (let es = concat (map (\<lambda>nf. says (snd nf)) fs); r1 = r\<lparr>rg_per_file := map (\<lambda>nf. (fst nf, says (snd nf))) fs\<rparr>
     in (index_entries es (file_signature fs) r1, write_snapshot r es d))"
proof -
  have per: "map (\<lambda>nf. (fst nf, file_entries r nf)) fs = map (\<lambda>nf. (fst nf, says (snd nf))) fs"
    using assms by (auto simp: file_entries_def says_def list_all_iff)
  have "\<not> list_ex (\<lambda>nf. \<not> rf_readable (snd nf)) fs" using assms by (simp add: list_ex_iff list_all_iff)
  then show ?thesis unfolding reload_def Let_def per by (simp add: comp_def write_snapshot_def)
qed

lemma refresh_reload:
  assumes "registry_files r d = Some fs" "fs \<noteq> []" "rg_signature r = [] \<or> \<not> rg_loaded r"
  shows "reg_refresh r d = reload fs (r\<lparr>rg_unreachable := False\<rparr>) d"
  using assms by (auto simp: reg_refresh_def Let_def file_signature_def)

lemma says_ok: "list_all entry_ok (concat (map (\<lambda>nf. says (snd nf)) fs))"
  by (auto simp: list_all_iff says_def dest: parsed_ok)

text \<open>
  A process that starts while the folder is away still knows every forget: after a query that
  read all the files, the local snapshot alone gives a new process the same answer for every
  subject.
\<close>
theorem restart_keeps_forgets:
  assumes "reg_refresh (new_registry True mid True) d = (r, d')" "registry_files (new_registry True mid True) d = Some fs" "fs \<noteq> []"
    and "list_all (\<lambda>nf. rf_readable (snd nf)) fs" "rd_snap_writable d" "rd_snap_readable d"
  shows "forgotten_in (fst (reg_refresh (new_registry True mid True) (d'\<lparr>rd_dir := None\<rparr>))) s = forgotten_in r s"
proof -
  let ?n = "new_registry True mid True" and ?es = "concat (map (\<lambda>nf. says (snd nf)) fs)"
  have n: "\<not> rg_loaded ?n" "rg_root ?n" "rg_keeps_snapshot ?n" by (simp_all add: new_registry_def)
  have "reload fs (?n\<lparr>rg_unreachable := False\<rparr>) d = (r, d')" using refresh_reload [OF assms(2,3)] n assms(1) by simp
  then have r: "r = index_entries ?es (file_signature fs) (?n\<lparr>rg_unreachable := False, rg_per_file := map (\<lambda>nf. (fst nf, says (snd nf))) fs\<rparr>)"
    and d': "d' = write_snapshot (?n\<lparr>rg_unreachable := False\<rparr>) ?es d"
    unfolding full_reload [OF assms(4)] Let_def by blast+
  have snap: "read_snapshot ?n (d'\<lparr>rd_dir := None\<rparr>) = ?es"
    using assms(5,6) n parse_entries [OF says_ok] unfolding d' by (simp add: write_snapshot_def read_snapshot_def)
  have away: "registry_files ?n (d'\<lparr>rd_dir := None\<rparr>) = None" using n by (simp add: registry_files_def)
  have "\<exists>sig q. fst (reg_refresh ?n (d'\<lparr>rd_dir := None\<rparr>)) = index_entries ?es sig q"
  proof (cases "?es = []")
    case True
    then have "fst (reg_refresh ?n (d'\<lparr>rd_dir := None\<rparr>)) = index_entries [] [] (?n\<lparr>rg_unreachable := False, rg_per_file := []\<rparr>)"
      using snap n away unfolding True by (simp add: reg_refresh_def Let_def reload_def file_signature_def)
    then show ?thesis unfolding True by blast
  next
    case False
    have "fst (reg_refresh ?n (d'\<lparr>rd_dir := None\<rparr>)) = index_entries ?es [] (?n\<lparr>rg_unreachable := True\<rparr>)"
      using n away unfolding reg_refresh_def Let_def snap if_not_P [OF n(1)] by (simp add: False del: concat_eq_Nil_conv)
    then show ?thesis by blast
  qed
  then show ?thesis unfolding r by (auto simp: forgotten_by_live)
qed

subsection \<open>Where a forget does lapse\<close>

lemma reads_files:
  assumes "registry_files r d = Some fs" "fs \<noteq> []" "list_all (\<lambda>nf. rf_readable (snd nf)) fs" "rg_signature r = [] \<or> \<not> rg_loaded r"
  shows "rg_all (fst (reg_refresh r d)) = concat (map (\<lambda>nf. says (snd nf)) fs)"
  using refresh_reload [OF assms(1,2,4)] full_reload [OF assms(3)] by (simp add: Let_def)

lemma own_file_name: "registry_name (own_file r)"
  by (simp add: registry_name_def own_file_def starts_with_def ends_with_def)

text \<open>
  C38. Recording a forget while the folder is missing makes every earlier one lapse: the write creates
  the folder with this machine's file alone, and the next query knows nothing but that file.
\<close>
theorem write_in_outage_forgets_the_rest:
  assumes "rd_dir d = None" "rd_listable d" "list_all entry_ok es" "reg_append now es r d = Inr (r', d')"
  shows "rg_all (fst (reg_refresh r' d')) = es"
proof -
  let ?f = "\<lparr>rf_text = appended_text [] es, rf_mtime = now, rf_readable = True\<rparr>"
  have r': "rg_root r" "r' = r\<lparr>rg_signature := []\<rparr>" using append_registry [OF assms(4)] by simp_all
  have d': "d' = d\<lparr>rd_dir := Some [(own_file r, ?f)]\<rparr>"
    using assms r' by (auto simp: reg_append_def Let_def)
  have "registry_files r' d' = Some [(own_file r, ?f)]"
    using r' assms(2) own_file_name by (simp add: registry_files_def d')
  from reads_files [OF this] have "rg_all (fst (reg_refresh r' d')) = says ?f" by (simp add: r')
  also have "\<dots> = es" using parse_entries [OF assms(3)] by (simp add: says_def appended_text_def)
  finally show ?thesis .
qed

end
