(* ===== verification/ForgetWrites.thy ===== *)
theory ForgetWrites
  imports ForgetOutage
begin

text \<open>
  What a write to the registry changes in what it answers: the new entries stand among the old ones,
  the forgets that re-added content cancels, and a new forget.
\<close>

subsection \<open>A registry that has read its files\<close>

definition in_sync :: "registry \<Rightarrow> reg_disk \<Rightarrow> forget_entry list \<Rightarrow> bool" where
  \<comment> \<open>every registry file can be read, and these are the entries\<close>
  "in_sync r d es \<longleftrightarrow>
     rg_root r \<and> rd_listable d \<and> indexed r \<and> rg_loaded r \<and> rg_all r = es
     \<and> (\<exists>all. rd_dir d = Some all \<and> distinct (map fst all) \<and> list_all (\<lambda>nf. rf_readable (snd nf)) all
          \<and> es = concat (map (\<lambda>nf. says (snd nf)) (sort_key fst (filter (\<lambda>f. registry_name (fst f)) all))))"

lemma forgotten_synced: "in_sync r d es \<Longrightarrow> forgotten_in r s \<longleftrightarrow> (\<exists>f. live_forget es s f)"
  using forgotten_by_live [of "rg_all r" "rg_signature r" r s] by (auto simp: in_sync_def indexed_def)

lemma state_synced: "in_sync r d es \<Longrightarrow> state_in r s = state_in (index_entries es [] r) s"
proof -
  assume "in_sync r d es"
  then have "index_entries es (rg_signature r) r = r" by (auto simp: in_sync_def indexed_def)
  then have "state_in r s = state_in (index_entries es (rg_signature r) r) s" by simp
  then show ?thesis by (simp add: state_in_def by_subject_lookup)
qed

definition files_of :: "(string \<times> reg_file) list \<Rightarrow> (string \<times> reg_file) list" where
  "files_of all = sort_key fst (filter (\<lambda>f. registry_name (fst f)) all)"

definition entries_of :: "(string \<times> reg_file) list \<Rightarrow> forget_entry list" where
  "entries_of all = concat (map (\<lambda>nf. says (snd nf)) (files_of all))"

lemma in_sync_iff:
  "in_sync r d es \<longleftrightarrow> rg_root r \<and> rd_listable d \<and> indexed r \<and> rg_loaded r \<and> rg_all r = es
     \<and> (\<exists>all. rd_dir d = Some all \<and> distinct (map fst all) \<and> list_all (\<lambda>nf. rf_readable (snd nf)) all \<and> es = entries_of all)"
  by (simp add: in_sync_def entries_of_def files_of_def)

lemma reload_synced:
  assumes "rg_root r" "rd_listable d" "rd_dir d = Some all" "distinct (map fst all)" "list_all (\<lambda>nf. rf_readable (snd nf)) all"
    and "reload (files_of all) r d = (r', d')"
  shows "in_sync r' d' (entries_of all) \<and> rg_machine r' = rg_machine r"
proof -
  have "list_all (\<lambda>nf. rf_readable (snd nf)) (files_of all)" using assms(5) by (auto simp: list_all_iff files_of_def)
  from full_reload [OF this] have "rg_all r' = entries_of all" "rg_loaded r'" "same_reach d d'"
    using assms(6) by (auto simp: Let_def entries_of_def)
  then show ?thesis
    using assms reload_config [OF assms(6)] indexed_reload [OF assms(6)] by (simp add: in_sync_iff same_reach_def)
qed

lemma indexed_unreachable: "indexed (r\<lparr>rg_unreachable := b\<rparr>) \<longleftrightarrow> indexed r"
proof -
  have "x\<lparr>rg_unreachable := b\<rparr> = r\<lparr>rg_unreachable := b\<rparr> \<longleftrightarrow> x = r" if "rg_unreachable x = rg_unreachable r" for x :: registry
    using that by (cases x; cases r) simp
  moreover have "rg_unreachable (index_entries es g r) = rg_unreachable r" for es g
    by (simp add: index_entries_def Let_def split: prod.split)
  ultimately show ?thesis by (simp add: indexed_def)
qed

lemma refresh_again:
  assumes "in_sync r d es" "reg_refresh r d = (r', d')"
  shows "in_sync r' d' es \<and> rg_machine r' = rg_machine r"
proof -
  obtain all where a: "rg_root r" "rd_listable d" "rd_dir d = Some all" "distinct (map fst all)"
      "list_all (\<lambda>nf. rf_readable (snd nf)) all" "rg_loaded r" "rg_all r = entries_of all" "es = entries_of all"
    using assms(1) by (auto simp: in_sync_iff)
  have f: "registry_files r d = Some (files_of all)" using a by (simp add: registry_files_def files_of_def)
  have e: "files_of all = [] \<Longrightarrow> rg_all r = []" using a by (simp add: entries_of_def)
  let ?r = "r\<lparr>rg_unreachable := False\<rparr>"
  have rr: "(r', d') = (if file_signature (files_of all) = rg_signature r then (?r, d) else reload (files_of all) ?r d)"
    unfolding assms(2) [symmetric] reg_refresh_def f Let_def option.case using e a(6) by auto
  show ?thesis
  proof (cases "file_signature (files_of all) = rg_signature r")
    case True
    then show ?thesis using rr assms(1) by (simp add: in_sync_iff indexed_unreachable)
  next
    case False
    then have "reload (files_of all) ?r d = (r', d')" using rr by simp
    from reload_synced [OF _ _ _ _ _ this] show ?thesis using a by simp
  qed
qed

lemma refresh_new:
  assumes "rg_root r" "rd_listable d" "rd_dir d = Some all" "distinct (map fst all)" "list_all (\<lambda>nf. rf_readable (snd nf)) all"
    and "rg_signature r = []" "files_of all \<noteq> []" "reg_refresh r d = (r', d')"
  shows "in_sync r' d' (entries_of all) \<and> rg_machine r' = rg_machine r"
proof -
  have "registry_files r d = Some (files_of all)" using assms by (simp add: registry_files_def files_of_def)
  from refresh_reload [OF this assms(7)] have "reload (files_of all) (r\<lparr>rg_unreachable := False\<rparr>) d = (r', d')"
    using assms(6,8) by simp
  from reload_synced [OF _ _ _ _ _ this] show ?thesis using assms by simp
qed

subsection \<open>Where a write puts its entries\<close>

lemma insort_split: "\<exists>xs ys. zs = xs @ ys \<and> insort_key f z zs = xs @ z # ys"
proof (induction zs)
  case (Cons a zs)
  then obtain xs ys where xy: "zs = xs @ ys" "insort_key f z zs = xs @ z # ys" by blast
  show ?case
  proof (cases "f z \<le> f a")
    case True
    then show ?thesis by (intro exI [of _ "[]"] exI [of _ "a # zs"]) simp
  next
    case False
    then show ?thesis using xy by (intro exI [of _ "a # xs"] exI [of _ ys]) simp
  qed
qed simp

lemma files_unique:
  assumes "distinct (map fst xs)" "distinct (map fst ys)" "sorted (map fst xs)" "sorted (map fst ys)" "set xs = set ys"
  shows "xs = ys"
  using assms by (intro map_sorted_distinct_set_unique [of fst]) (auto simp: distinct_map)

lemma files_of_facts: "distinct (map fst all) \<Longrightarrow> distinct (map fst (files_of all)) \<and> sorted (map fst (files_of all))
    \<and> set (files_of all) = {f \<in> set all. registry_name (fst f)}"
proof -
  assume "distinct (map fst all)"
  then have i: "inj_on fst (set all)" "distinct all" by (simp_all add: distinct_map)
  then have "inj_on fst {x \<in> set all. registry_name (fst x)}" by (auto intro: inj_on_subset)
  with i show ?thesis by (simp add: files_of_def distinct_map)
qed

lemma set_update: "distinct (map fst all) \<Longrightarrow> set (AList.update n x all) = {nf \<in> set all. fst nf \<noteq> n} \<union> {(n, x)}"
proof (induction all)
  case (Cons a all)
  then show ?case by (cases a) (auto simp: image_iff)
qed simp

lemma entries_of_write:
  assumes "distinct (map fst all)" "registry_name n"
    and "says f' = (case map_of all n of None \<Rightarrow> [] | Some f \<Rightarrow> says f) @ new"
  shows "\<exists>xs ys. entries_of all = xs @ ys \<and> entries_of (AList.update n f' all) = xs @ new @ ys"
proof (cases "map_of all n")
  case (Some f)
  let ?up = "\<lambda>nf. if fst nf = n then (n, f') else nf"
  note ff = files_of_facts [OF assms(1)]
  have d: "distinct (map fst (AList.update n f' all))" using assms(1) by (simp add: distinct_update)
  note fu = files_of_facts [OF d]
  have m: "map fst (map ?up (files_of all)) = map fst (files_of all)" by (induction "files_of all") auto
  have nf: "(n, f) \<in> set all" using Some by (rule map_of_SomeD)
  have eq: "set (map ?up (files_of all)) = set (files_of (AList.update n f' all))"
  proof -
    let ?R = "{x \<in> set all. registry_name (fst x)}" and ?K = "{x \<in> set all. fst x \<noteq> n \<and> registry_name (fst x)}"
    have "?R = ?K \<union> {x \<in> set all. fst x = n}" using assms(2) by blast
    then have "?up ` ?R = ?up ` ?K \<union> ?up ` {x \<in> set all. fst x = n}" by (simp only: image_Un)
    moreover have "?up ` ?K = (\<lambda>x. x) ` ?K" by (rule image_cong) simp_all
    moreover have "?up ` {x \<in> set all. fst x = n} = {(n, f')}" using nf by force
    ultimately have "?up ` ?R = ?K \<union> {(n, f')}" by simp
    moreover have "{x \<in> set (AList.update n f' all). registry_name (fst x)} = ?K \<union> {(n, f')}"
      unfolding set_update [OF assms(1)] using assms(2) by auto
    ultimately show ?thesis using ff fu by simp
  qed
  have "distinct (map fst (map ?up (files_of all)))" "sorted (map fst (map ?up (files_of all)))"
    using ff unfolding m by blast+
  then have up: "map ?up (files_of all) = files_of (AList.update n f' all)"
    using files_unique [OF _ conjunct1 [OF fu] _ conjunct1 [OF conjunct2 [OF fu]] eq] by blast
  have "(n, f) \<in> set (files_of all)" using ff nf assms(2) by simp
  then obtain P Q where PQ: "files_of all = P @ (n, f) # Q" by (auto dest: split_list)
  from conjunct1 [OF ff] have "n \<notin> fst ` set P" "n \<notin> fst ` set Q" unfolding PQ by simp_all
  then have "\<And>nf. nf \<in> set P \<Longrightarrow> fst nf \<noteq> n" "\<And>nf. nf \<in> set Q \<Longrightarrow> fst nf \<noteq> n" by blast+
  then have "map ?up P = P" "map ?up Q = Q" by (simp_all add: map_idI)
  then have "files_of (AList.update n f' all) = P @ (n, f') # Q" unfolding up [symmetric] PQ by simp
  then show ?thesis
    using PQ assms(3) Some
    by (intro exI [of _ "concat (map (\<lambda>nf. says (snd nf)) P) @ says f"] exI [of _ "concat (map (\<lambda>nf. says (snd nf)) Q)"])
      (simp add: entries_of_def)
next
  case None
  note ff = files_of_facts [OF assms(1)]
  have d: "distinct (map fst (AList.update n f' all))" using assms(1) by (simp add: distinct_update)
  note fu = files_of_facts [OF d]
  have n: "n \<notin> fst ` set all" using None by (simp add: map_of_eq_None_iff)
  let ?in = "insort_key fst (n, f') (files_of all)"
  have "set ?in = set (files_of (AList.update n f' all))"
  proof -
    have "{nf \<in> set all. fst nf \<noteq> n} = set all" using n by blast
    then have "set (AList.update n f' all) = insert (n, f') (set all)" using set_update [OF assms(1), of n f'] by simp
    then have "set (files_of (AList.update n f' all)) = insert (n, f') {f \<in> set all. registry_name (fst f)}"
      using fu assms(2) by (simp only: Collect_conv_if2) auto
    then show ?thesis using ff by (simp add: set_insort_key)
  qed
  moreover have "sorted (map fst ?in)" using ff by (simp add: sorted_insort_key)
  moreover have "distinct (map fst ?in)"
  proof -
    have n': "n \<notin> fst ` set (files_of all)" using ff n by blast
    obtain xs ys where xy: "files_of all = xs @ ys" "?in = xs @ (n, f') # ys" using insort_split [where zs = "files_of all" and f = fst and z = "(n, f')"] by (elim exE conjE)
    have "distinct (map fst (xs @ ys))" using ff unfolding xy(1) by blast
    moreover have "n \<notin> set (map fst xs)" "n \<notin> set (map fst ys)" using n' unfolding xy(1) by (simp_all add: image_Un)
    ultimately show ?thesis unfolding xy(2) by simp
  qed
  ultimately have up: "files_of (AList.update n f' all) = ?in" using files_unique [OF _ conjunct1 [OF fu] _ conjunct1 [OF conjunct2 [OF fu]], symmetric] by blast
  obtain xs ys where "files_of all = xs @ ys" "?in = xs @ (n, f') # ys" using insort_split [where zs = "files_of all" and f = fst and z = "(n, f')"] by (elim exE conjE)
  then show ?thesis
    using up assms(3) None
    by (intro exI [of _ "concat (map (\<lambda>nf. says (snd nf)) xs)"] exI [of _ "concat (map (\<lambda>nf. says (snd nf)) ys)"])
      (simp add: entries_of_def)
qed

definition on_disk :: "reg_disk \<Rightarrow> forget_entry list \<Rightarrow> bool" where
  \<comment> \<open>every registry file can be read, and these are the entries\<close>
  "on_disk d es \<longleftrightarrow> rd_listable d \<and>
     (\<exists>all. rd_dir d = Some all \<and> distinct (map fst all) \<and> list_all (\<lambda>nf. rf_readable (snd nf)) all \<and> es = entries_of all)"

definition upcoming :: "registry \<Rightarrow> reg_disk \<Rightarrow> forget_entry list \<Rightarrow> bool" where
  \<comment> \<open>the next refresh reads these entries, or they were read\<close>
  "upcoming r d es \<longleftrightarrow> in_sync r d es \<or>
     (rg_root r \<and> rg_signature r = [] \<and> on_disk d es \<and> (\<forall>all. rd_dir d = Some all \<longrightarrow> files_of all \<noteq> []))"

lemma in_sync_disk: "in_sync r d es \<Longrightarrow> on_disk d es"
  by (auto simp: in_sync_iff on_disk_def)

lemma upcomingD: "upcoming r d es \<Longrightarrow> rg_root r \<and> on_disk d es"
  using in_sync_disk by (auto simp: upcoming_def in_sync_iff)

lemma upcoming_refresh:
  assumes "upcoming r d es" "reg_refresh r d = (r', d')"
  shows "in_sync r' d' es \<and> rg_machine r' = rg_machine r"
proof (cases "in_sync r d es")
  case True
  then show ?thesis using refresh_again assms(2) by blast
next
  case False
  then obtain all where "rg_root r" "rd_listable d" "rd_dir d = Some all" "distinct (map fst all)"
      "list_all (\<lambda>nf. rf_readable (snd nf)) all" "rg_signature r = []" "files_of all \<noteq> []" "es = entries_of all"
    using assms(1) by (auto simp: upcoming_def on_disk_def)
  then show ?thesis using refresh_new [of r d all r' d'] assms(2) by blast
qed

lemma forgotten_upcoming: "upcoming r d es \<Longrightarrow> forgotten_in (fst (reg_refresh r d)) s \<longleftrightarrow> (\<exists>f. live_forget es s f)"
  using upcoming_refresh forgotten_synced by (metis prod.collapse)

lemma upcoming_sync: "in_sync r d es \<Longrightarrow> upcoming r d es"
  by (simp add: upcoming_def)

lemma append_splits:
  assumes "rg_root r" "on_disk d es" "list_all entry_ok new" "reg_append now new r d = Inr (r1, d1)"
  obtains xs ys where "es = xs @ ys" "upcoming r1 d1 (xs @ new @ ys)" "rg_machine r1 = rg_machine r"
proof -
  obtain all where a: "rd_listable d" "rd_dir d = Some all" "distinct (map fst all)"
      "list_all (\<lambda>nf. rf_readable (snd nf)) all" "es = entries_of all"
    using assms(2) by (auto simp: on_disk_def)
  let ?n = "own_file r"
  let ?old = "case map_of all ?n of None \<Rightarrow> \<lparr>rf_text = [], rf_mtime = now, rf_readable = True\<rparr> | Some f \<Rightarrow> f"
  let ?new = "?old\<lparr>rf_text := appended_text (rf_text ?old) new, rf_mtime := now\<rparr>"
  let ?all = "AList.update ?n ?new all"
  have r1: "r1 = r\<lparr>rg_signature := []\<rparr>" "d1 = d\<lparr>rd_dir := Some ?all\<rparr>"
    using assms(1,4) a by (auto simp: reg_append_def Let_def)
  have "says ?new = says ?old @ new" using parse_appended [OF assms(3)] by (simp add: says_def)
  moreover have "says ?old = (case map_of all ?n of None \<Rightarrow> [] | Some f \<Rightarrow> says f)"
    by (simp add: says_def splitlines_def parse_lines_def List.map_filter_def split: option.split)
  ultimately obtain xs ys where xy: "entries_of all = xs @ ys" "entries_of ?all = xs @ new @ ys"
    using entries_of_write [OF a(3) own_file_name [of r], of ?new new] by auto
  have "rf_readable ?old"
  proof (cases "map_of all ?n")
    case (Some f)
    from map_of_SomeD [OF this] a(4) show ?thesis unfolding Some by (auto simp: list_all_iff)
  qed simp
  then have readable: "list_all (\<lambda>nf. rf_readable (snd nf)) ?all"
    using a(4) unfolding list_all_iff set_update [OF a(3), of ?n ?new] by fastforce
  have d: "distinct (map fst ?all)" using a(3) by (simp add: distinct_update)
  then have "(?n, ?new) \<in> set (files_of ?all)" using files_of_facts [OF d] set_update [OF a(3), of ?n ?new] own_file_name by simp
  then have "files_of ?all \<noteq> []" by auto
  then have "upcoming r1 d1 (xs @ new @ ys)"
    unfolding upcoming_def on_disk_def r1 using assms(1) a(1) d readable xy(2) by simp
  with xy(1) a(5) r1 show thesis by (intro that) simp_all
qed

lemma write_splits:
  assumes "in_sync r d es" "list_all entry_ok new" "reg_append now new r d = Inr (r1, d1)" "reg_refresh r1 d1 = (r2, d2)"
  obtains xs ys where "es = xs @ ys" "in_sync r2 d2 (xs @ new @ ys)" "rg_machine r2 = rg_machine r"
proof -
  have "rg_root r" using assms(1) by (simp add: in_sync_def)
  from append_splits [OF this in_sync_disk [OF assms(1)] assms(2,3)] obtain xs ys
    where xy: "es = xs @ ys" "upcoming r1 d1 (xs @ new @ ys)" "rg_machine r1 = rg_machine r" by blast
  note u = upcoming_refresh [OF xy(2) assms(4)]
  show thesis by (rule that [OF xy(1) conjunct1 [OF u]]) (use u xy(3) in simp)
qed

subsection \<open>Content that was added again\<close>

definition covers :: "string list option \<Rightarrow> string \<Rightarrow> bool" where
  \<comment> \<open>the forgets a re-add may cancel: all, or those of these requesters\<close>
  "covers only by = (case only of None \<Rightarrow> True | Some allowed \<Rightarrow> by \<in> set allowed)"

lemma in_sync_index: "in_sync r d es \<Longrightarrow> r = index_entries es (rg_signature r) r"
  by (auto simp: in_sync_def indexed_def)

lemma index_fields:
  "rg_by_subject (index_entries es sig r) = rg_by_subject (index_entries es [] undefined)"
  "rg_live (index_entries es sig r) = rg_live (index_entries es [] undefined)"
  "rg_live_by (index_entries es sig r) = rg_live_by (index_entries es [] undefined)"
  by (simp_all add: index_entries_def Let_def split: prod.split)

lemma synced_fields:
  assumes "in_sync r d es"
  shows "rg_by_subject r = rg_by_subject (index_entries es [] undefined)" "rg_live r = rg_live (index_entries es [] undefined)"
    "rg_live_by r = rg_live_by (index_entries es [] undefined)"
  using index_fields [of es "rg_signature r" r] in_sync_index [OF assms] by auto

lemma winning_forget:
  assumes "map_of (rg_by_subject (index_entries es sig r)) s = Some e" "fe_state e \<in> set FORGOTTEN_STATES"
  shows "live_forget es s (fe_forget e)"
proof -
  have nr: "fe_state e \<noteq> ''readded''" using assms(2) by (auto simp: FORGOTTEN_STATES_def)
  have "e \<in> set (candidates es s)"
  proof (cases "winner (filter forgotten_state (candidates es s))")
    case (Some x)
    then show ?thesis using assms(1) winner_in [OF Some] by (simp add: by_subject_lookup)
  next
    case None
    show ?thesis
    proof (cases "winner (filter (\<lambda>e. \<not> forgotten_state e) (candidates es s))")
      case (Some x)
      then show ?thesis using assms(1) winner_in [OF Some] None by (simp add: by_subject_lookup)
    next
      case None': None
      then have "map_of (snd (per_forget (forget_cancelled es) es)) s = Some e"
        using assms(1) unfolding by_subject_lookup None by simp
      then show ?thesis using per_forget_readds nr by blast
    qed
  qed
  then obtain f where f: "\<not> cancelled es s f" "winner (votes s f es) = Some e" by (auto simp: in_candidates)
  moreover have "fe_forget e = f" using votes_winner [OF f(2)] by blast
  ultimately show ?thesis using assms(2) by (simp add: live_forget_def forgotten_state_def)
qed

lemma readd_forgets_set:
  assumes "in_sync r d es"
  shows "set (readd_forgets s only r) = {f. live_forget es s f \<and> (\<exists>e. winner (votes s f es) = Some e \<and> covers only (fe_by e))}"
proof (cases "forgotten_in r s")
  case False
  then have no: "\<not> live_forget es s f" for f using forgotten_synced [OF assms] by blast
  have "readd_forgets s only r = []"
    using False by (auto simp: readd_forgets_def forgotten_in_def state_in_def split: option.splits)
  with no show ?thesis by simp
next
  case True
  then obtain e where e: "map_of (rg_by_subject r) s = Some e" "fe_state e \<in> set FORGOTTEN_STATES"
    by (auto simp: forgotten_in_def state_in_def split: option.splits)
  let ?fs = "sort (List.insert (fe_forget e) (found (rg_live r) s))"
  have "live_forget es s (fe_forget e)"
    using winning_forget [of es "[]" undefined s e] e synced_fields [OF assms] by simp
  moreover have "set (found (rg_live r) s) = {f. live_forget es s f}"
    using index_live [of es "[]" undefined s] synced_fields [OF assms] by simp
  ultimately have fs: "set ?fs = {f. live_forget es s f}" by auto
  have requester: "map_of (found (rg_live_by r) s) f = (if live_forget es s f then map_option fe_by (winner (votes s f es)) else None)" for f
    using index_live_by [of es "[]" undefined s f] synced_fields [OF assms] by simp
  have eq: "readd_forgets s only r = (case only of None \<Rightarrow> ?fs
      | Some allowed \<Rightarrow> filter (\<lambda>f. case map_of (found (rg_live_by r) s) f of None \<Rightarrow> False | Some by \<Rightarrow> by \<in> set allowed) ?fs)"
    using e unfolding readd_forgets_def found_def [symmetric] Let_def by simp
  show ?thesis
  proof (cases only)
    case None
    have "(\<exists>e. winner (votes s f es) = Some e)" if "live_forget es s f" for f using that by (auto simp: live_forget_def)
    moreover have "set (readd_forgets s only r) = set ?fs" unfolding eq using None by simp
    moreover have "covers only b" for b using None by (simp add: covers_def)
    ultimately show ?thesis unfolding fs by auto
  next
    case (Some allowed)
    have "set (readd_forgets s only r) = {f \<in> set ?fs. case map_of (found (rg_live_by r) s) f of None \<Rightarrow> False | Some by \<Rightarrow> by \<in> set allowed}"
      unfolding eq using Some by simp
    also have "\<dots> = {f. live_forget es s f \<and> (\<exists>e. winner (votes s f es) = Some e \<and> covers only (fe_by e))}"
    proof (rule Collect_cong)
      fix f
      show "(f \<in> set ?fs \<and> (case map_of (found (rg_live_by r) s) f of None \<Rightarrow> False | Some by \<Rightarrow> by \<in> set allowed)) \<longleftrightarrow>
          live_forget es s f \<and> (\<exists>e. winner (votes s f es) = Some e \<and> covers only (fe_by e))"
        unfolding fs by (cases "winner (votes s f es)") (simp_all add: requester Some covers_def)
    qed
    finally show ?thesis .
  qed
qed

lemma live_after_readd:
  assumes "es = xs @ ys" "\<And>e. e \<in> set new \<Longrightarrow> fe_state e = ''readded'' \<and> fe_subject e = s" "fe_forget ` set new = F"
  shows "live_forget (xs @ new @ ys) s' f \<longleftrightarrow> live_forget es s' f \<and> \<not> (s' = s \<and> f \<in> F)"
    and "winner (votes s' f (xs @ new @ ys)) = winner (votes s' f es)"
proof -
  have "votes s' f new = []" using assms(2) by (auto simp: votes_def filter_empty_conv)
  then have v: "votes s' f (xs @ new @ ys) = votes s' f es" unfolding assms(1) by (simp add: votes_def)
  have "cancelled (xs @ new @ ys) s' f \<longleftrightarrow> cancelled es s' f \<or> (s' = s \<and> f \<in> F)"
    using assms(2) unfolding assms(1) assms(3) [symmetric] by (auto simp: cancelled_def)
  with v show "live_forget (xs @ new @ ys) s' f \<longleftrightarrow> live_forget es s' f \<and> \<not> (s' = s \<and> f \<in> F)"
    and "winner (votes s' f (xs @ new @ ys)) = winner (votes s' f es)"
    by (auto simp: live_forget_def)
qed

lemma readd_effect:
  assumes "in_sync r d es" "kind \<in> set FORGET_KINDS" "i \<noteq> []"
    and "record_readd mtime now kind i by mid only r d = Inr (cancelled_any, r1, d1)" "reg_refresh r1 d1 = (r2, d2)"
  shows "(cancelled_any \<longleftrightarrow> (\<exists>f e. live_forget es (Subject kind i) f \<and> winner (votes (Subject kind i) f es) = Some e \<and> covers only (fe_by e)))
    \<and> (forgotten_in r2 s \<longleftrightarrow> (\<exists>f e. live_forget es s f \<and> winner (votes s f es) = Some e \<and> \<not> (s = Subject kind i \<and> covers only (fe_by e))))"
proof -
  let ?s = "Subject kind i"
  obtain r0 d0 where rf: "reg_refresh r d = (r0, d0)" by fastforce
  have s0: "in_sync r0 d0 es" using refresh_again [OF assms(1) rf] by blast
  let ?fs = "readd_forgets ?s only r0"
  let ?m = "if mid = [] then rg_machine r0 else mid"
  let ?new = "map (\<lambda>f. \<lparr>fe_forget = f, fe_subject = ?s, fe_state = ''readded'', fe_at = now, fe_machine = ?m, fe_by = by, fe_user = []\<rparr>) ?fs"
  note F = readd_forgets_set [OF s0, of ?s only]
  have some: "live_forget es s f \<Longrightarrow> \<exists>e. winner (votes s f es) = Some e" for s f by (auto simp: live_forget_def)
  show ?thesis
  proof (cases "?fs = []")
    case True
    then have none: "{f. live_forget es ?s f \<and> (\<exists>e. winner (votes ?s f es) = Some e \<and> covers only (fe_by e))} = {}"
      unfolding F [symmetric] by simp
    then have no_more: "\<not> (live_forget es ?s f \<and> winner (votes ?s f es) = Some e \<and> covers only (fe_by e))" for f e
      by blast
    have "(cancelled_any, r1, d1) = (False, r0, d0)"
      using assms(3,4) True unfolding record_readd_def rf Let_def prod.case by simp
    then have "in_sync r2 d2 es" "\<not> cancelled_any" using refresh_again [OF s0, of r2 d2] assms(5) by simp_all
    moreover have left: "\<exists>e. winner (votes s f es) = Some e \<and> \<not> (s = ?s \<and> covers only (fe_by e))" if lf: "live_forget es s f" for f
    proof -
      obtain e where w: "winner (votes s f es) = Some e" using some [OF lf] by (elim exE)
      then have "\<not> (s = ?s \<and> covers only (fe_by e))" using no_more [of f e] lf by blast
      with w show ?thesis by (intro exI [of _ e] conjI)
    qed
    have "(\<exists>f. live_forget es s f) \<longleftrightarrow> (\<exists>f e. live_forget es s f \<and> winner (votes s f es) = Some e \<and> \<not> (s = ?s \<and> covers only (fe_by e)))"
      by (intro iffI; elim exE conjE) (use left in blast)+
    ultimately show ?thesis using no_more forgotten_synced [of r2 d2 es s] by blast
  next
    case False
    then obtain r1' d1' where ap: "reg_append mtime ?new r0 d0 = Inr (r1', d1')" "(cancelled_any, r1, d1) = (True, r1', d1')"
      using assms(3,4) unfolding record_readd_def rf Let_def prod.case by (simp split: sum.splits prod.splits)
    have "list_all entry_ok ?new" using assms(2,3) by (simp add: list_all_iff entry_ok_def FORGET_STATES_def)
    then obtain xs ys where xy: "es = xs @ ys" "in_sync r2 d2 (xs @ ?new @ ys)"
      using write_splits [OF s0 _ ap(1), of r2 d2] assms(5) ap(2) by blast
    have img: "fe_forget ` set ?new = set ?fs" by force
    have la: "live_forget (xs @ ?new @ ys) s f \<longleftrightarrow> live_forget es s f \<and> \<not> (s = ?s \<and> f \<in> set ?fs)" for f
      by (rule live_after_readd(1) [OF xy(1) _ img]) auto
    have "(\<exists>f. live_forget (xs @ ?new @ ys) s f) \<longleftrightarrow>
        (\<exists>f e. live_forget es s f \<and> winner (votes s f es) = Some e \<and> \<not> (s = ?s \<and> covers only (fe_by e)))"
      unfolding la F using some by fastforce
    moreover have "set ?fs \<noteq> {}" using False by simp
    then have "\<exists>f e. live_forget es ?s f \<and> winner (votes ?s f es) = Some e \<and> covers only (fe_by e)" unfolding F by blast
    ultimately show ?thesis using ap(2) forgotten_synced [OF xy(2), of s] by blast
  qed
qed

text \<open>
  C34. Content that comes back cancels the forgets it may cancel and no others: after a re-add of a
  subject a forget of it is still in force exactly when its requester is not among those named, every
  other subject is forgotten as before, and the call reports whether it cancelled anything.
\<close>
theorem readd_cancels:
  assumes "in_sync r d es" "kind \<in> set FORGET_KINDS" "i \<noteq> []"
    and "record_readd mtime now kind i by mid only r d = Inr (cancelled_any, r1, d1)" "reg_refresh r1 d1 = (r2, d2)"
  shows "(cancelled_any \<longleftrightarrow> (\<exists>f e. live_forget es (Subject kind i) f \<and> winner (votes (Subject kind i) f es) = Some e \<and> covers only (fe_by e)))
    \<and> (forgotten_in r2 s \<longleftrightarrow> (\<exists>f e. live_forget es s f \<and> winner (votes s f es) = Some e \<and> \<not> (s = Subject kind i \<and> covers only (fe_by e))))"
  using assms by (rule readd_effect)

subsection \<open>A new forget\<close>

definition new_forget :: "string \<Rightarrow> forget_entry list \<Rightarrow> bool" where
  "new_forget f new \<longleftrightarrow> list_all (\<lambda>e. entry_ok e \<and> fe_forget e = f \<and> fe_state e \<in> set FORGOTTEN_STATES) new"

lemma live_after_forget:
  assumes "new_forget f new" "f \<notin> fe_forget ` set (xs @ ys)"
  shows "live_forget (xs @ new @ ys) s g \<longleftrightarrow> live_forget (xs @ ys) s g \<or> (g = f \<and> s \<in> fe_subject ` set new)"
proof -
  have n: "fe_forget e = f" "fe_state e \<in> set FORGOTTEN_STATES" "fe_state e \<noteq> ''readded''" if "e \<in> set new" for e
    using assms(1) that by (auto simp: new_forget_def list_all_iff FORGOTTEN_STATES_def)
  have c: "cancelled (xs @ new @ ys) s g \<longleftrightarrow> cancelled (xs @ ys) s g" using n(3) by (auto simp: cancelled_def)
  show ?thesis
  proof (cases "g = f")
    case False
    then have "votes s g new = []" using n(1) by (auto simp: votes_def filter_empty_conv)
    then have "votes s g (xs @ new @ ys) = votes s g (xs @ ys)" by (simp add: votes_def)
    with False c show ?thesis by (simp add: live_forget_def)
  next
    case True
    have old: "votes s f (xs @ ys) = []" "\<not> cancelled (xs @ ys) s f"
      using assms(2) by (auto simp: votes_def filter_empty_conv cancelled_def)
    then have "votes s f xs = []" "votes s f ys = []" by (simp_all add: votes_def)
    then have v: "votes s f (xs @ new @ ys) = votes s f new" by (simp add: votes_def)
    have "set (votes s f new) = {e \<in> set new. fe_subject e = s}" using n by (auto simp: votes_def)
    then have "votes s f new \<noteq> [] \<longleftrightarrow> s \<in> fe_subject ` set new" by (auto simp: set_empty [symmetric] simp del: set_empty)
    moreover have "forgotten_state e" if "winner (votes s f new) = Some e" for e
      using winner_in [OF that] n(2) by (auto simp: votes_def forgotten_state_def)
    ultimately have "(\<exists>e. winner (votes s f new) = Some e \<and> forgotten_state e) \<longleftrightarrow> s \<in> fe_subject ` set new"
      by (cases "winner (votes s f new)") auto
    then show ?thesis using True c old by (simp add: live_forget_def v)
  qed
qed

lemma live_among: "new_forget f new \<Longrightarrow> f \<notin> fe_forget ` set es \<Longrightarrow> es = xs @ ys \<Longrightarrow>
    (\<exists>g. live_forget (xs @ new @ ys) s g) \<longleftrightarrow> (\<exists>g. live_forget es s g) \<or> s \<in> fe_subject ` set new"
proof -
  assume a: "new_forget f new" "f \<notin> fe_forget ` set es" "es = xs @ ys"
  have "live_forget (xs @ new @ ys) s g \<longleftrightarrow> live_forget es s g \<or> (g = f \<and> s \<in> fe_subject ` set new)" for g
    unfolding a(3) by (rule live_after_forget [OF a(1)]) (use a(2,3) in simp)
  then show ?thesis by (intro iffI; elim exE disjE) blast+
qed

lemma new_forget_ok: "new_forget f new \<Longrightarrow> list_all entry_ok new"
  by (auto simp: new_forget_def list_all_iff)

end
