(* ===== verification/ForgetPurge.thy ===== *)
theory ForgetPurge
  imports ForgetEngine ForgetWrites
begin

text \<open>
  What the forget engine does with failing and succeeding stores: a trash takes whatever the adapters
  do, a purge that started is never undone by a restore, a subject is recorded as purged exactly when
  every store that holds its kind erased it, and what is left pending is purged by a later retry.
\<close>

subsection \<open>Steps that leave the registry alone\<close>

definition registry_recorded :: "'s engine \<Rightarrow> registry \<times> reg_disk" where
  "registry_recorded w = (en_reg w, en_disk w)"

definition mounted :: "'s engine \<Rightarrow> bool" where
  "mounted w \<longleftrightarrow> rd_dir (en_disk w) \<noteq> None"

definition quiet :: "('s engine, string, 'a) eff \<Rightarrow> bool" where
  \<comment> \<open>returns, and leaves the registry and its folder as they are where the folder is there\<close>
  "quiet m \<longleftrightarrow> (\<forall>w. mounted w \<longrightarrow> returns m w (\<lambda>_ w'. registry_recorded w' = registry_recorded w))"

named_theorems quiet_intros \<open>effects that leave the registry alone\<close>

lemma recorded_mounted: "registry_recorded w' = registry_recorded w \<Longrightarrow> mounted w' = mounted w"
  by (simp add: registry_recorded_def mounted_def)

lemma quietD: "quiet m \<Longrightarrow> mounted w \<Longrightarrow> returns m w (\<lambda>_ w'. registry_recorded w' = registry_recorded w)"
  by (simp add: quiet_def)

lemma quiet_pure [quiet_intros]: "quiet (ret a)" "quiet (gets_eff g)" "quiet engine_tick" "quiet (mark_applied f st s)"
    "quiet (forget_audit ac actor target detail)" "quiet (write_receipt f receipt)"
  by (simp_all add: quiet_def returns_def eff_defs engine_tick_def mark_applied_def forget_audit_def write_receipt_def registry_recorded_def mounted_def)

lemma quiet_bind [quiet_intros]:
  fixes m :: "('s engine, string, 'a) eff"
  assumes "quiet m" "\<And>a. quiet (f a)"
  shows "quiet (bind_eff m f)"
  unfolding quiet_def returns_bind
proof (intro allI impI)
  fix w :: "'s engine"
  assume w: "mounted w"
  show "returns m w (\<lambda>a s'. returns (f a) s' (\<lambda>_ w'. registry_recorded w' = registry_recorded w))"
  proof (rule returns_mono [OF quietD [OF assms(1) w]])
    fix a and w1 :: "'s engine"
    assume r: "registry_recorded w1 = registry_recorded w"
    then have "mounted w1" using w recorded_mounted by blast
    from quietD [OF assms(2) this] show "returns (f a) w1 (\<lambda>_ w'. registry_recorded w' = registry_recorded w)" unfolding r .
  qed
qed

lemma quiet_then [quiet_intros]: "quiet m \<Longrightarrow> quiet n \<Longrightarrow> quiet (then_eff m n)"
  by (simp add: then_eff_def quiet_bind)

lemma quiet_if [quiet_intros]: "quiet m \<Longrightarrow> quiet n \<Longrightarrow> quiet (if b then m else n)"
  by simp

lemma quiet_fold [quiet_intros]: "(\<And>x a. quiet (f x a)) \<Longrightarrow> quiet (fold_eff f xs a)"
  by (induction xs arbitrary: a) (auto intro: quiet_intros)

lemma stores_recorded: "registry_recorded (snd (on_stores f w)) = registry_recorded w"
  by (simp add: on_stores_def registry_recorded_def split: prod.split)

lemma quiet_caught [quiet_intros]: "quiet (k ()) \<Longrightarrow> (\<And>e. quiet (h e)) \<Longrightarrow> quiet (catch_eff (then_eff (on_stores f) (k ())) h)"
proof -
  assume a: "quiet (k ())" "\<And>e. quiet (h e)"
  have "returns (catch_eff (then_eff (on_stores f) (k ())) h) w (\<lambda>_ w'. registry_recorded w' = registry_recorded w)" if "mounted w" for w
  proof -
    obtain x w1 where x: "on_stores f w = (x, w1)" by fastforce
    have r: "registry_recorded w1 = registry_recorded w" using stores_recorded [of f w] x by simp
    then have m: "mounted w1" using that recorded_mounted by blast
    show ?thesis
    proof (cases x)
      case (Inl e)
      have "returns (h e) w1 (\<lambda>_ w'. registry_recorded w' = registry_recorded w)" using quietD [OF a(2) m] r by simp
      then show ?thesis using x Inl by (simp add: returns_def catch_eff_def then_eff_def bind_eff_def)
    next
      case (Inr u)
      then have "returns (then_eff (on_stores f) (k ())) w (\<lambda>_ w'. registry_recorded w' = registry_recorded w)"
        using quietD [OF a(1) m] r x by (simp add: returns_def then_eff_def bind_eff_def)
      then show ?thesis by (rule returns_catch)
    qed
  qed
  then show ?thesis by (simp add: quiet_def)
qed

lemma quiet_hide: "quiet (hide_subject E f s)"
  unfolding hide_subject_def by (intro quiet_fold quiet_caught [of "\<lambda>_. ret _"] quiet_intros)

subsection \<open>Writing to the registry\<close>

lemma append_mounted: "reg_append now es r d = Inr (r', d') \<Longrightarrow> rd_dir d' \<noteq> None \<and> rg_root r'"
  by (auto simp: reg_append_def Let_def split: if_splits)

definition appended :: "'s forget_env \<Rightarrow> subject list \<Rightarrow> string \<Rightarrow> string \<Rightarrow> string \<Rightarrow> string \<Rightarrow> registry \<times> reg_disk \<Rightarrow> registry \<times> reg_disk \<Rightarrow> bool" where
  "appended E ss f st by user rd rd' \<longleftrightarrow> rg_root (fst rd') \<and>
     (\<exists>now stamp. reg_append now (map (state_entry E f st stamp by user) ss) (fst rd) (snd rd) = Inr rd')"

lemma record_run:
  assumes "rg_root (en_reg w)"
  shows "returns (record_state E ss f st by user) w (\<lambda>_ w'. mounted w' \<and> appended E ss f st by user (registry_recorded w) (registry_recorded w'))"
proof -
  let ?es = "\<lambda>n. map (state_entry E f st (isoformat (fv_clock E n)) by user) ss"
  obtain r d where a: "reg_append (fv_mtime E (en_tick w)) (?es (en_tick w)) (en_reg w) (en_disk w) = Inr (r, d)"
    using assms by (auto simp: reg_append_def Let_def)
  then show ?thesis
    using assms append_mounted [OF a]
    by (auto simp: returns_def record_state_def require_registry_def engine_tick_def eff_defs registry_recorded_def mounted_def appended_def)
qed

lemma then_quiet:
  fixes w :: "'s engine"
  assumes "returns m w (\<lambda>_ w1. mounted w1 \<and> Q (registry_recorded w1))" "quiet n" "\<And>w1 :: 's engine. mounted w1 \<Longrightarrow> returns n w1 (\<lambda>b _. R b)"
  shows "returns (then_eff m n) w (\<lambda>b w'. R b \<and> mounted w' \<and> Q (registry_recorded w'))"
  unfolding returns_then
proof (rule returns_mono [OF assms(1)])
  fix a and w1 :: "'s engine"
  assume w1: "mounted w1 \<and> Q (registry_recorded w1)"
  then have "returns n w1 (\<lambda>b _. R b)" using assms(3) by blast
  from returns_conj [OF this quietD [OF assms(2)]] w1
  have "returns n w1 (\<lambda>b w'. R b \<and> registry_recorded w' = registry_recorded w1)" by blast
  then show "returns n w1 (\<lambda>b w'. R b \<and> mounted w' \<and> Q (registry_recorded w'))"
    by (rule returns_mono) (use w1 recorded_mounted in auto)
qed

lemma quiet_then_value:
  fixes w :: "'s engine"
  assumes "quiet m" "mounted w" "\<And>w1 :: 's engine. mounted w1 \<Longrightarrow> returns n w1 R"
  shows "returns (then_eff m n) w R"
  unfolding returns_then
proof (rule returns_mono [OF quietD [OF assms(1,2)]])
  fix a and w1 :: "'s engine"
  assume "registry_recorded w1 = registry_recorded w"
  then have "mounted w1" using assms(2) recorded_mounted by blast
  then show "returns n w1 R" by (rule assms(3))
qed

lemma trash_run:
  assumes "rg_root (en_reg w)"
  shows "returns (trash E ss by user) w (\<lambda>f w'. f = fv_ids E (en_tick w) \<and> mounted w' \<and>
    appended E (purge_ordered ss) f ''trashed'' by user (registry_recorded w) (registry_recorded w'))"
proof -
  let ?f = "fv_ids E (en_tick w)" and ?w = "w\<lparr>en_tick := Suc (en_tick w)\<rparr>"
  let ?audit = "forget_audit ''forget.trash'' by ?f (PDict [(''subjects'', PDict (kind_counts (purge_ordered ss)))])"
  let ?hide = "fold_eff (\<lambda>s _. bind_eff (hide_subject E ?f s) (\<lambda>hidden. if hidden then mark_applied ?f ''trashed'' s else ret ())) (purge_ordered ss) ()"
  let ?rest = "then_eff ?hide (then_eff ?audit (ret ?f))"
  have q: "quiet ?hide" by (intro quiet_fold quiet_bind quiet_hide quiet_if quiet_pure)
  have q2: "quiet ?audit" by (rule quiet_pure)
  have "returns ?rest w1 (\<lambda>f _. f = ?f)" if "mounted w1" for w1
    by (intro quiet_then_value [OF q that] quiet_then_value [OF q2]) (simp_all add: returns_ret)
  moreover have "quiet ?rest" using q q2 by (intro quiet_then quiet_pure)
  moreover have "registry_recorded ?w = registry_recorded w" by (simp add: registry_recorded_def)
  ultimately have "returns (then_eff (record_state E (purge_ordered ss) ?f ''trashed'' by user) ?rest) ?w
      (\<lambda>f w'. f = ?f \<and> mounted w' \<and> appended E (purge_ordered ss) ?f ''trashed'' by user (registry_recorded w) (registry_recorded w'))"
    using then_quiet [OF record_run [of ?w E "purge_ordered ss" ?f "''trashed''" "by" user], of ?rest "\<lambda>f. f = ?f"] assms by auto
  then have "returns (then_eff (record_state E (purge_ordered ss) ?f ''trashed'' by user) ?rest) ?w
      (\<lambda>f w'. f = ?f \<and> mounted w' \<and> appended E (purge_ordered ss) f ''trashed'' by user (registry_recorded w) (registry_recorded w'))"
    by (rule returns_mono) simp
  then show ?thesis
    by (simp only: trash_def Let_def returns_bind) (simp add: returns_def engine_tick_def)
qed

subsection \<open>A trash takes\<close>

definition valid_subjects :: "subject list \<Rightarrow> bool" where
  "valid_subjects ss \<longleftrightarrow> list_all (\<lambda>s. sb_kind s \<in> set FORGET_KINDS \<and> sb_id s \<noteq> []) ss"

lemma set_ordered [simp]: "set (purge_ordered ss) = set ss"
  by (simp add: purge_ordered_def)

lemma entry_fields [simp]: "fe_forget (state_entry E f st stamp by user s) = f" "fe_subject (state_entry E f st stamp by user s) = s"
    "fe_state (state_entry E f st stamp by user s) = st" "fe_by (state_entry E f st stamp by user s) = by"
  by (simp_all add: state_entry_def)

lemma valid_entries:
  "valid_subjects ss \<Longrightarrow> st \<in> set FORGET_STATES \<Longrightarrow> list_all entry_ok (map (state_entry E f st stamp by user) ss)"
  by (auto simp: valid_subjects_def list_all_iff entry_ok_def)

text \<open>
  C35. A trash takes whatever the stores do: it returns, and from then on the subjects it was given are
  forgotten, with those that were before and no others, even where every adapter raises.
\<close>
theorem trash_forgets:
  assumes "in_sync (en_reg w) (en_disk w) es" "valid_subjects ss" "fv_ids E (en_tick w) \<notin> fe_forget ` set es" "i \<noteq> []"
  shows "fst (trash E ss by user w) = Inr (fv_ids E (en_tick w))
    \<and> (is_forgotten kind i (en_reg (snd (trash E ss by user w))) (en_disk (snd (trash E ss by user w)))
       \<longleftrightarrow> is_forgotten kind i (en_reg w) (en_disk w) \<or> Subject kind i \<in> set ss)"
proof -
  let ?f = "fv_ids E (en_tick w)"
  have root: "rg_root (en_reg w)" using assms(1) by (simp add: in_sync_def)
  from returnsE [OF trash_run [OF root, of E ss "by" user]] obtain w' where
    w': "trash E ss by user w = (Inr ?f, w')" "appended E (purge_ordered ss) ?f ''trashed'' by user (registry_recorded w) (registry_recorded w')" by metis
  then obtain now stamp where ap: "reg_append now (map (state_entry E ?f ''trashed'' stamp by user) (purge_ordered ss)) (en_reg w) (en_disk w)
      = Inr (en_reg w', en_disk w')"
    by (auto simp: appended_def registry_recorded_def)
  let ?new = "map (state_entry E ?f ''trashed'' stamp by user) (purge_ordered ss)"
  have "valid_subjects (purge_ordered ss)" using assms(2) by (simp add: valid_subjects_def list_all_iff)
  then have "list_all entry_ok ?new" by (rule valid_entries) (simp add: FORGET_STATES_def)
  then have nf: "new_forget ?f ?new" by (simp add: new_forget_def list_all_iff FORGOTTEN_STATES_def)
  from append_splits [OF root in_sync_disk [OF assms(1)] new_forget_ok [OF nf] ap] obtain xs ys
    where xy: "es = xs @ ys" "upcoming (en_reg w') (en_disk w') (xs @ ?new @ ys)" by blast
  have "fe_subject ` set ?new = set ss" by force
  then show ?thesis
    unfolding w'(1) is_forgotten_def using assms(4) live_among [OF nf assms(3) xy(1)]
    by (simp add: forgotten_upcoming [OF xy(2)] forgotten_upcoming [OF upcoming_sync [OF assms(1)]])
qed

subsection \<open>A purge that started only moves forward\<close>

datatype engine_call =
    Trash "subject list" string string
  | Restore string
  | Purge string
  | ForgetPermanently "subject list" string string
  | EmptyTrash "int option"
  | RetryPurges
  | ApplyRemote

fun engine_run :: "'s forget_env \<Rightarrow> engine_call \<Rightarrow> 's engine \<Rightarrow> 's engine" where
  \<comment> \<open>what a call leaves behind, whether it returned or raised\<close>
  "engine_run E (Trash ss by user) w = snd (trash E ss by user w)"
| "engine_run E (Restore f) w = snd (restore E f w)"
| "engine_run E (Purge f) w = snd (purge E f w)"
| "engine_run E (ForgetPermanently ss by user) w = snd (forget_permanently E ss by user w)"
| "engine_run E (EmptyTrash older) w = snd (empty_trash E older w)"
| "engine_run E RetryPurges w = snd (retry_started_purges E w)"
| "engine_run E ApplyRemote w = snd (apply_remote E w)"

definition receipts_such :: "((string \<times> pyval option) list \<Rightarrow> bool) \<Rightarrow> 's engine \<Rightarrow> bool" where
  "receipts_such Q w \<longleftrightarrow> mounted w \<and> rg_root (en_reg w) \<and> Q (en_receipts w)"

definition has_receipt :: "string \<Rightarrow> (string \<times> pyval option) list \<Rightarrow> bool" where
  "has_receipt f rs \<longleftrightarrow> map_of rs f \<noteq> None"

abbreviation started :: "string \<Rightarrow> 's engine \<Rightarrow> bool" where
  "started f \<equiv> receipts_such (has_receipt f)"

lemma refresh_disk: "reg_refresh r d = (r', d') \<Longrightarrow> rd_dir d' = rd_dir d \<and> rg_root r' = rg_root r"
  by (auto simp: reg_refresh_def reload_def write_snapshot_def Let_def split: if_splits option.splits)

lemma receipts_keeps [keeps_intros]: "keeps (receipts_such Q) engine_tick" "keeps (receipts_such Q) require_registry" "keeps (receipts_such Q) refresh_eff"
    "keeps (receipts_such Q) (on_stores g)" "keeps (receipts_such Q) (mark_applied f st s)" "keeps (receipts_such Q) (forget_audit ac actor target detail)"
    "keeps (receipts_such Q) (record_state E ss f st by user)"
proof -
  show t: "keeps (receipts_such Q) engine_tick" and "keeps (receipts_such Q) (mark_applied f st s)"
    and "keeps (receipts_such Q) (forget_audit ac actor target detail)"
    by (simp_all add: keeps_def receipts_such_def mounted_def engine_tick_def mark_applied_def forget_audit_def modify_eff_def)
  show "keeps (receipts_such Q) (on_stores g)"
    by (simp add: keeps_def receipts_such_def mounted_def on_stores_def split: prod.split)
  show rr: "keeps (receipts_such Q) require_registry"
    by (simp add: keeps_def require_registry_def eff_defs)
  show "keeps (receipts_such Q) refresh_eff"
    by (auto simp: keeps_def receipts_such_def mounted_def refresh_eff_def modify_eff_def dest: refresh_disk split: prod.split)
  have "keeps (receipts_such Q) (\<lambda>w. case reg_append x es (en_reg w) (en_disk w) of Inl e \<Rightarrow> (Inl e, w)
      | Inr (r, d) \<Rightarrow> (Inr (), w\<lparr>en_reg := r, en_receipts := receipts_of w, en_disk := d\<rparr>))" for x es
    by (auto simp: keeps_def receipts_such_def mounted_def receipts_of_def dest: append_mounted split: sum.split)
  then show "keeps (receipts_such Q) (record_state E ss f st by user)"
    unfolding record_state_def using t rr by (intro keeps_bind keeps_then)
qed

lemma receipts_write:
  "(\<And>rs v. Q rs \<Longrightarrow> Q (AList.update f v rs)) \<Longrightarrow> keeps (receipts_such Q) (write_receipt f receipt)"
  by (auto simp: keeps_def receipts_such_def mounted_def write_receipt_def modify_eff_def receipts_of_def)

lemma started_write [keeps_intros]: "keeps (started f) (write_receipt f' receipt)"
  by (rule receipts_write) (simp add: has_receipt_def update_conv')

lemma started_purge [keeps_intros]: "keeps (started f) (purge_subjects E f' ss by user)"
  unfolding purge_subjects_def finish_purge_def Let_def utcnow_iso_def purge_one_def run_adapter_def
  by (intro keeps_intros)

lemma receipts_latest [keeps_intros]: "keeps (receipts_such Q) latest_eff" "keeps (receipts_such Q) (entries_eff f)"
  unfolding latest_eff_def entries_eff_def by (intro keeps_intros)+

lemma receipts_trash [keeps_intros]: "keeps (receipts_such Q) (trash E ss by user)"
  unfolding trash_def hide_subject_def Let_def by (intro keeps_intros)

lemma started_groups [keeps_intros]: "keeps (started f) (purge_groups E who groups)"
  unfolding purge_groups_def by (intro keeps_intros)

lemma started_due [keeps_intros]: "keeps (started f) (due E older e)"
  unfolding due_def by (intro keeps_intros)

lemma started_restore: "keeps (started f) (restore E f')"
  unfolding restore_def each_adapter_def Let_def by (intro keeps_intros)

lemma started_remote: "keeps (started f) (apply_remote E)"
  unfolding apply_remote_def apply_one_remote_def apply_entry_def each_adapter_def Let_def by (intro keeps_intros)

lemma keepsD: "keeps P m \<Longrightarrow> P s \<Longrightarrow> P (snd (m s))"
  by (simp add: keeps_def)

lemma started_run: "started f w \<Longrightarrow> started f (engine_run E call w)"
proof (cases call)
  case (Purge f')
  have "keeps (started f) (purge E f')" unfolding purge_def Let_def by (intro keeps_intros)
  then show "started f w \<Longrightarrow> started f (engine_run E call w)" using Purge by (simp add: keepsD)
next
  case (ForgetPermanently ss who user)
  have "keeps (started f) (forget_permanently E ss who user)" unfolding forget_permanently_def by (intro keeps_intros)
  then show "started f w \<Longrightarrow> started f (engine_run E call w)" using ForgetPermanently by (simp add: keepsD)
next
  case (EmptyTrash older)
  have "keeps (started f) (empty_trash E older)" unfolding empty_trash_def filter_eff_def by (intro keeps_intros)
  then show "started f w \<Longrightarrow> started f (engine_run E call w)" using EmptyTrash by (simp add: keepsD)
next
  case RetryPurges
  have "keeps (started f) (retry_started_purges E)" unfolding retry_started_purges_def by (intro keeps_intros)
  then show "started f w \<Longrightarrow> started f (engine_run E call w)" using RetryPurges by (simp add: keepsD)
qed (simp_all add: keepsD [OF receipts_trash] keepsD [OF started_restore] keepsD [OF started_remote])

lemma started_runs: "started f w \<Longrightarrow> started f (fold (engine_run E) calls w)"
  by (induction calls arbitrary: w) (simp_all add: started_run)

lemma purge_starts:
  assumes "rg_root (en_reg w)" "receipt_rows (dget (read_receipt f w) ''subjects'') = Inr rows"
  shows "started f (snd (purge_subjects E f ss by user w))"
proof -
  let ?w = "w\<lparr>en_tick := Suc (en_tick w)\<rparr>"
  define doc where "doc = receipt_doc E f (isoformat (fv_clock E (en_tick w))) by (listed_rows rows (purge_ordered ss))"
  define w1 where "w1 = snd (write_receipt f (doc (prior_slots (read_receipt f w))) ?w)"
  define m where "m = bind_eff (fold_eff (purge_one E) (purge_ordered ss) \<lparr>pr_slots = prior_slots (read_receipt f w), pr_touched = [], pr_done = []\<rparr>)
      (finish_purge E f (purge_ordered ss) by user doc)"
  have "started f w1"
    using assms(1) by (simp add: w1_def write_receipt_def modify_eff_def receipts_such_def has_receipt_def mounted_def receipts_of_def update_conv')
  moreover have "keeps (started f) m"
    unfolding m_def finish_purge_def purge_one_def run_adapter_def Let_def by (intro keeps_intros)
  moreover have "purge_subjects E f ss by user w = m w1"
    unfolding purge_subjects_def Let_def utcnow_iso_def
    by (simp add: bind_eff_def then_eff_def gets_eff_def engine_tick_def ret_def assms(2) doc_def m_def w1_def write_receipt_def modify_eff_def)
  ultimately show ?thesis by (simp add: keepsD)
qed

text \<open>
  C6. A forget whose purge has started is never restored: from the first attempt on, whether its stores
  succeeded, raised or were left half erased, and after any further calls of the engine, a restore of it
  is refused and touches no store.
\<close>
theorem restore_refused_once_purging:
  assumes "rg_root (en_reg w)" "receipt_rows (dget (read_receipt f w) ''subjects'') = Inr rows"
  shows "fst (restore E f (fold (engine_run E) calls (snd (purge_subjects E f ss by user w)))) = Inl ''ForgetConflict''
    \<and> en_stores (snd (restore E f (fold (engine_run E) calls (snd (purge_subjects E f ss by user w)))))
        = en_stores (fold (engine_run E) calls (snd (purge_subjects E f ss by user w)))"
proof -
  define v where "v = fold (engine_run E) calls (snd (purge_subjects E f ss by user w))"
  have s: "started f v" unfolding v_def by (intro started_runs purge_starts [OF assms])
  obtain r d where rd: "reg_refresh (en_reg v) (en_disk v) = (r, d)" by fastforce
  have "purge_started f (v\<lparr>en_reg := r, en_disk := d\<rparr>)"
    using s refresh_disk [OF rd] by (simp add: receipts_such_def has_receipt_def purge_started_def receipts_of_def mounted_def)
  then have "restore E f v = (Inl ''ForgetConflict'', v\<lparr>en_reg := r, en_disk := d\<rparr>)"
    using s rd by (simp add: restore_def entries_eff_def require_registry_def refresh_eff_def eff_defs receipts_such_def)
  then show ?thesis unfolding v_def [symmetric] by simp
qed

end
