(* ===== verification/ForgetErase.thy ===== *)
theory ForgetErase
  imports ForgetPurge
begin

text \<open>
  What a purge records: every subject whose stores all erased it and none of which a store failed on,
  with the failure on the receipt, and the retry that later completes what was left.
\<close>

subsection \<open>Stores that work and stores that fail\<close>

definition well_run :: "'s forget_adapter \<Rightarrow> bool" where
  "well_run a \<longleftrightarrow> (\<forall>r d s st. \<exists>k st'. ad_purge a r d s st = (Inr k, st'))"

definition fails :: "'s forget_adapter \<Rightarrow> subject \<Rightarrow> bool" where
  "fails a s \<longleftrightarrow> (\<forall>r d st. \<exists>e st'. ad_purge a r d s st = (Inl e, st'))"

definition stores_work :: "'s forget_env \<Rightarrow> bool" where
  "stores_work E \<longleftrightarrow> list_all well_run (fv_adapters E)"

definition covered :: "'s forget_env \<Rightarrow> subject list \<Rightarrow> bool" where
  \<comment> \<open>every subject is of a kind that some store holds\<close>
  "covered E ss \<longleftrightarrow> list_all (\<lambda>s. adapters_for E (sb_kind s) \<noteq> []) ss"

definition store_fails :: "'s forget_env \<Rightarrow> subject \<Rightarrow> bool" where
  "store_fails E s \<longleftrightarrow> list_ex (\<lambda>a. fails a s) (adapters_for E (sb_kind s))"

subsection \<open>One adapter\<close>

definition slots_ok :: "slots \<Rightarrow> bool" where
  "slots_ok sl \<longleftrightarrow> list_all (\<lambda>na. has_key (snd na) ''status'' \<and> (\<exists>k. py_int_or_0 (dget (snd na) ''removed'') = Inr k)) sl"

definition slots_done :: "slots \<Rightarrow> bool" where
  "slots_done sl \<longleftrightarrow> list_all (\<lambda>na. slot_done (snd na)) sl"

definition pending_slot :: "purge_run \<Rightarrow> string \<Rightarrow> bool" where
  "pending_slot p n \<longleftrightarrow> n \<in> set (pr_touched p) \<and> (\<exists>a. map_of (pr_slots p) n = Some a \<and> dget a ''status'' = PStr ''pending'')"

definition some_pending :: "purge_run \<Rightarrow> bool" where
  "some_pending p \<longleftrightarrow> (\<exists>n. pending_slot p n)"

lemma some_pendingI [intro]: "pending_slot p n \<Longrightarrow> some_pending p"
  by (auto simp: some_pending_def)

lemma some_pending_mono: "some_pending p \<Longrightarrow> \<forall>n. pending_slot p n \<longrightarrow> pending_slot q n \<Longrightarrow> some_pending q"
  by (auto simp: some_pending_def)

lemma pending_done [simp]: "pending_slot (p\<lparr>pr_done := x\<rparr>) n = pending_slot p n"
  by (simp add: pending_slot_def)

lemma some_pending_done [simp]: "some_pending (p\<lparr>pr_done := x\<rparr>) = some_pending p"
  by (simp add: some_pending_def)

lemma update_subset: "set (AList.update k v al) \<subseteq> insert (k, v) (set al)"
  by (induction al) auto

lemma slots_update: "slots_ok sl \<Longrightarrow> has_key a ''status'' \<Longrightarrow> py_int_or_0 (dget a ''removed'') = Inr k \<Longrightarrow> slots_ok (AList.update n a sl)"
  and done_update: "slots_done sl \<Longrightarrow> slot_done a \<Longrightarrow> slots_done (AList.update n a sl)"
  using update_subset [of n a sl] by (fastforce simp: slots_ok_def slots_done_def list_all_iff)+

lemma py_int_PInt [simp]: "py_int_or_0 (PInt k) = Inr k"
  by (simp add: py_int_or_0_def)

lemma has_key_dpop: "has_key (dpop d k) k' \<longleftrightarrow> k' \<noteq> k \<and> has_key d k'"
  by (simp add: has_key_def dpop_def delete_conv)

lemma slot_of_ok: "slots_ok sl \<Longrightarrow> has_key (slot_of sl n) ''status'' \<and> (\<exists>k. py_int_or_0 (dget (slot_of sl n) ''removed'') = Inr k)"
proof (cases "map_of sl n")
  case (Some a)
  assume "slots_ok sl"
  then show ?thesis using map_of_SomeD [OF Some] Some by (fastforce simp: slot_of_def slots_ok_def list_all_iff)
qed (simp add: slot_of_def has_key_def dget_def)

lemma slot_of_done: "slots_done sl \<Longrightarrow> slot_done (slot_of sl n)"
  by (cases "map_of sl n")
    (auto simp: slot_of_def slots_done_def list_all_iff slot_done_def dget_def dest!: map_of_SomeD)

lemma fresh_slot_ok:
  assumes "slots_ok (pr_slots p)"
  obtains sl where "fresh_slot p n = Inr sl" "has_key sl ''status''" "\<exists>k. py_int_or_0 (dget sl ''removed'') = Inr k"
    "n \<in> set (pr_touched p) \<Longrightarrow> sl = slot_of (pr_slots p) n" "n \<notin> set (pr_touched p) \<Longrightarrow> slot_done sl"
proof -
  let ?s = "slot_of (pr_slots p) n"
  obtain k where k: "py_int_or_0 (dget ?s ''removed'') = Inr k" "has_key ?s ''status''" using slot_of_ok [OF assms] by blast
  show thesis
  proof (cases "n \<in> set (pr_touched p)")
    case True
    then show ?thesis using k by (intro that [of ?s]) (simp_all add: fresh_slot_def Let_def)
  next
    case False
    then show ?thesis using k
      by (intro that [of "dset (dpop (dset ?s ''status'' (PStr ''done'')) ''error'') ''removed'' (PInt k)"])
        (simp_all add: fresh_slot_def Let_def slot_done_def dict_simps has_key_dpop)
  qed
qed

lemma run_adapter_spec:
  assumes "slots_ok (pr_slots p)"
  shows "returns (run_adapter s a (c, p)) w (\<lambda>(c', p') w'. registry_recorded w' = registry_recorded w \<and> slots_ok (pr_slots p') \<and> pr_done p' = pr_done p
    \<and> (c' \<longrightarrow> c) \<and> (\<forall>n. pending_slot p n \<longrightarrow> pending_slot p' n)
    \<and> (well_run a \<longrightarrow> c' = c \<and> (slots_done (pr_slots p) \<longrightarrow> slots_done (pr_slots p')))
    \<and> (fails a s \<longrightarrow> \<not> c' \<and> pending_slot p' (ad_name a)))"
proof -
  let ?n = "ad_name a"
  obtain sl where sl: "fresh_slot p ?n = Inr sl" "has_key sl ''status''" "\<exists>k. py_int_or_0 (dget sl ''removed'') = Inr k"
    "?n \<in> set (pr_touched p) \<Longrightarrow> sl = slot_of (pr_slots p) ?n" "?n \<notin> set (pr_touched p) \<Longrightarrow> slot_done sl"
    using fresh_slot_ok [OF assms] by metis
  let ?put = "\<lambda>x. p\<lparr>pr_slots := AList.update ?n x (pr_slots p), pr_touched := List.insert ?n (pr_touched p)\<rparr>"
  obtain x st where x: "ad_purge a (en_reg w) (en_disk w) s (en_stores w) = (x, st)" by fastforce
  have keep: "pending_slot p n \<Longrightarrow> (n = ?n \<Longrightarrow> dget y ''status'' = PStr ''pending'') \<Longrightarrow> pending_slot (?put y) n" for n y
    by (auto simp: pending_slot_def update_conv')
  have dn: "slots_done (pr_slots p) \<Longrightarrow> slot_done sl" using sl(4,5) slot_of_done by blast
  have was: "pending_slot p ?n \<Longrightarrow> dget sl ''status'' = PStr ''pending''" using sl(4) by (auto simp: pending_slot_def slot_of_def)
  show ?thesis
  proof (cases x)
    case (Inl e)
    let ?y = "dset (dset sl ''status'' (PStr ''pending'')) ''error'' (PStr e)"
    have "run_adapter s a (c, p) w = (Inr (False, ?put ?y), w\<lparr>en_stores := st\<rparr>)"
      using x Inl by (simp add: run_adapter_def Let_def sl(1) try_else_def on_stores_def ret_def)
    moreover have "slots_ok (pr_slots (?put ?y))" using slots_update [OF assms, of ?y] sl(3) by (auto simp: dict_simps)
    moreover have "pending_slot (?put ?y) ?n" by (simp add: pending_slot_def update_conv' dict_simps)
    moreover have "\<not> well_run a" using x Inl by (auto simp: well_run_def) (metis Inl_Inr_False prod.inject)
    ultimately show ?thesis using keep [of _ ?y] by (auto simp: returns_def registry_recorded_def dict_simps)
  next
    case (Inr k)
    let ?y = "dset sl ''removed'' (PInt (removed_of sl + k))"
    have "run_adapter s a (c, p) w = (Inr (c, ?put ?y), w\<lparr>en_stores := st\<rparr>)"
      using x Inr by (simp add: run_adapter_def Let_def sl(1) try_else_def on_stores_def ret_def)
    moreover have "slots_ok (pr_slots (?put ?y))" using slots_update [OF assms, of ?y] sl(2) by (auto simp: dict_simps)
    moreover have "slots_done (pr_slots p) \<Longrightarrow> slots_done (pr_slots (?put ?y))"
      using done_update [of "pr_slots p" ?y ?n] dn by (simp add: slot_done_def dict_simps)
    moreover have "\<not> fails a s" using x Inr by (auto simp: fails_def) (metis Inl_Inr_False prod.inject)
    ultimately show ?thesis using keep [of _ ?y] was by (auto simp: returns_def registry_recorded_def dict_simps)
  qed
qed

subsection \<open>One subject\<close>

definition after_purge :: "'s forget_env \<Rightarrow> subject list \<Rightarrow> purge_run \<Rightarrow> subject list \<Rightarrow> purge_run \<Rightarrow> bool" where
  \<comment> \<open>the run after the first subjects of a list, these being left\<close>
  "after_purge E ss p xs p' \<longleftrightarrow> slots_ok (pr_slots p') \<and> (\<forall>n. pending_slot p n \<longrightarrow> pending_slot p' n)
     \<and> (stores_work E \<and> covered E ss \<longrightarrow> pr_done p' @ xs = pr_done p @ ss \<and> (slots_done (pr_slots p) \<longrightarrow> slots_done (pr_slots p')))
     \<and> set (pr_done p') \<subseteq> set (pr_done p) \<union> set ss
     \<and> (\<forall>s. store_fails E s \<longrightarrow> s \<notin> set (pr_done p) \<longrightarrow> s \<notin> set (pr_done p') \<and> (s \<in> set ss \<longrightarrow> s \<in> set xs \<or> some_pending p'))"

lemma purge_one_spec:
  fixes w :: "'s engine"
  assumes "slots_ok (pr_slots p)"
  shows "returns (purge_one E s p) w (\<lambda>p' w'. registry_recorded w' = registry_recorded w \<and> slots_ok (pr_slots p') \<and> (\<forall>n. pending_slot p n \<longrightarrow> pending_slot p' n)
    \<and> (stores_work E \<and> adapters_for E (sb_kind s) \<noteq> [] \<longrightarrow> pr_done p' = pr_done p @ [s] \<and> (slots_done (pr_slots p) \<longrightarrow> slots_done (pr_slots p')))
    \<and> (pr_done p' = pr_done p \<or> pr_done p' = pr_done p @ [s])
    \<and> (store_fails E s \<longrightarrow> pr_done p' = pr_done p \<and> some_pending p'))"
proof -
  let ?as = "adapters_for E (sb_kind s)"
  define I where "I = (\<lambda>xs (acc :: bool \<times> purge_run) (w' :: 's engine). registry_recorded w' = registry_recorded w \<and> slots_ok (pr_slots (snd acc)) \<and> pr_done (snd acc) = pr_done p
    \<and> (\<forall>n. pending_slot p n \<longrightarrow> pending_slot (snd acc) n) \<and> set xs \<subseteq> set ?as
    \<and> (stores_work E \<longrightarrow> fst acc = (?as \<noteq> []) \<and> (slots_done (pr_slots p) \<longrightarrow> slots_done (pr_slots (snd acc))))
    \<and> ((\<exists>a \<in> set ?as. fails a s \<and> a \<notin> set xs) \<longrightarrow> \<not> fst acc \<and> some_pending (snd acc)))"
  have step: "returns (run_adapter s a acc) w1 (I xs)" if i: "I (a # xs) acc w1" for a xs acc and w1 :: "'s engine"
  proof -
    have ok: "slots_ok (pr_slots (snd acc))" using i by (simp add: I_def)
    have wk: "stores_work E \<Longrightarrow> well_run a" using i by (auto simp: I_def stores_work_def adapters_for_def list_all_iff)
    from run_adapter_spec [OF ok, of s a "fst acc" w1] show ?thesis
      unfolding prod.collapse
      by (rule returns_mono) (use i wk in \<open>auto simp: I_def split: prod.splits dest: some_pending_mono\<close>)
  qed
  have start: "I ?as (?as \<noteq> [], p) w" using assms by (auto simp: I_def)
  have "returns (fold_eff (run_adapter s) ?as (?as \<noteq> [], p)) w (I [])"
    by (rule returns_fold [where I = I, OF start step])
  then show ?thesis
    unfolding purge_one_def Let_def returns_bind
    by (rule returns_mono)
      (auto simp: I_def returns_ret store_fails_def list_ex_iff split: prod.splits)
qed

lemma purge_all_spec:
  fixes w :: "'s engine"
  assumes "slots_ok (pr_slots p)"
  shows "returns (fold_eff (purge_one E) ss p) w (\<lambda>p' w'. registry_recorded w' = registry_recorded w \<and> after_purge E ss p [] p')"
proof -
  define I where "I = (\<lambda>xs p' (w' :: 's engine). registry_recorded w' = registry_recorded w \<and> (\<exists>ys. ss = ys @ xs) \<and> after_purge E ss p xs p')"
  have step: "returns (purge_one E s q) w1 (I xs)" if i: "I (s # xs) q w1" for s xs q and w1 :: "'s engine"
  proof -
    have ok: "slots_ok (pr_slots q)" and mem: "s \<in> set ss" using i by (auto simp: I_def after_purge_def)
    have cv: "covered E ss \<Longrightarrow> adapters_for E (sb_kind s) \<noteq> []" using mem by (auto simp: covered_def list_all_iff)
    obtain ys where "ss = ys @ s # xs" using i by (auto simp: I_def)
    then have ys: "\<exists>ys. ss = ys @ xs" by (intro exI [of _ "ys @ [s]"]) simp
    from purge_one_spec [OF ok, of E s w1] show ?thesis
      by (rule returns_mono) (use i cv mem ys in \<open>auto simp: I_def after_purge_def some_pending_def\<close>)
  qed
  have start: "I ss p w" using assms by (auto simp: I_def after_purge_def)
  have "returns (fold_eff (purge_one E) ss p) w (I [])"
    by (rule returns_fold [where I = I, OF start step])
  then show ?thesis by (rule returns_mono) (simp add: I_def)
qed

subsection \<open>What a purge records\<close>

definition purges :: "string \<Rightarrow> subject set \<Rightarrow> forget_entry list \<Rightarrow> forget_entry list \<Rightarrow> bool" where
  \<comment> \<open>purges of these subjects were written among the entries\<close>
  "purges f S es es' \<longleftrightarrow> (\<exists>xs ys new. es = xs @ ys \<and> es' = xs @ new @ ys \<and> fe_subject ` set new = S
     \<and> list_all (\<lambda>e. fe_state e = ''purged'' \<and> fe_forget e = f) new)"

definition purged_in :: "forget_entry list \<Rightarrow> subject \<Rightarrow> bool" where
  "purged_in es s \<longleftrightarrow> (\<exists>e. e \<in> set es \<and> fe_state e = ''purged'' \<and> fe_subject e = s \<and> \<not> cancelled es s (fe_forget e))"

lemma purges_nothing: "purges f {} es es"
  unfolding purges_def by (intro exI [of _ es] exI [of _ "[]"]) simp

lemma purges_cancelled: "purges f S es es' \<Longrightarrow> cancelled es' s g \<longleftrightarrow> cancelled es s g"
  by (auto simp: purges_def cancelled_def list_all_iff)

lemma purges_purged: "purges f S es es' \<Longrightarrow> purged_in es' s \<longleftrightarrow> purged_in es s \<or> (s \<in> S \<and> \<not> cancelled es s f)"
proof -
  assume p: "purges f S es es'"
  then obtain xs ys new where n: "es = xs @ ys" "es' = xs @ new @ ys" "fe_subject ` set new = S"
    "\<And>e. e \<in> set new \<Longrightarrow> fe_state e = ''purged'' \<and> fe_forget e = f" by (auto simp: purges_def list_all_iff)
  have "e \<in> set es' \<longleftrightarrow> e \<in> set es \<or> e \<in> set new" for e unfolding n(1,2) by auto
  then show ?thesis
    unfolding purged_in_def purges_cancelled [OF p] n(3) [symmetric] using n(4) by blast
qed

lemma purges_live: "purges f S es es' \<Longrightarrow> s \<notin> S \<Longrightarrow> live_forget es' s g \<longleftrightarrow> live_forget es s g"
proof -
  assume p: "purges f S es es'" and s: "s \<notin> S"
  then obtain xs ys new where n: "es = xs @ ys" "es' = xs @ new @ ys" "fe_subject ` set new = S" by (auto simp: purges_def)
  then have "votes s g new = []" using s by (auto simp: votes_def filter_empty_conv)
  then have "votes s g es' = votes s g es" unfolding n(1,2) by (simp add: votes_def)
  then show ?thesis by (simp add: live_forget_def purges_cancelled [OF p])
qed

lemma state_upcoming: "upcoming r d es \<Longrightarrow> subject_state s r d = Some ''purged'' \<longleftrightarrow> purged_in es s"
proof -
  assume u: "upcoming r d es"
  obtain r' d' where rd: "reg_refresh r d = (r', d')" by fastforce
  have "in_sync r' d' es" using upcoming_refresh [OF u rd] by blast
  from state_synced [OF this, of s] show ?thesis unfolding subject_state_def rd fst_conv purged_in_def by (simp add: purged_iff)
qed

definition writes :: "string \<Rightarrow> subject set \<Rightarrow> forget_entry list \<Rightarrow> registry \<times> reg_disk \<Rightarrow> bool" where
  "writes f S es rd \<longleftrightarrow> (\<exists>es'. purges f S es es' \<and> upcoming (fst rd) (snd rd) es')"

lemma appended_writes:
  assumes "upcoming (fst rd) (snd rd) es" "valid_subjects ss" "appended E ss f ''purged'' by user rd rd'"
  shows "writes f (set ss) es rd'"
proof -
  obtain now stamp where ap: "reg_append now (map (state_entry E f ''purged'' stamp by user) ss) (fst rd) (snd rd) = Inr (fst rd', snd rd')"
    using assms(3) by (auto simp: appended_def)
  let ?new = "map (state_entry E f ''purged'' stamp by user) ss"
  have "list_all entry_ok ?new" using assms(2) by (rule valid_entries) (simp add: FORGET_STATES_def)
  from append_splits [OF _ _ this ap, of es] upcomingD [OF assms(1)] obtain xs ys
    where "es = xs @ ys" "upcoming (fst rd') (snd rd') (xs @ ?new @ ys)" by blast
  moreover have "fe_subject ` set ?new = set ss" by force
  moreover have "list_all (\<lambda>e. fe_state e = ''purged'' \<and> fe_forget e = f) ?new" by (simp add: list_all_iff)
  ultimately show ?thesis unfolding writes_def purges_def by blast
qed

lemma finish_spec:
  assumes "mounted w" "upcoming (en_reg w) (en_disk w) es" "slots_ok (pr_slots p)" "valid_subjects (pr_done p)"
  shows "returns (finish_purge E f ordered by user doc p) w
    (\<lambda>r w'. r = doc (pr_slots p) \<and> mounted w' \<and> writes f (set (pr_done p)) es (registry_recorded w'))"
proof -
  let ?mark = "fold_eff (\<lambda>s _. mark_applied f ''purged'' s) (pr_done p) ()"
  let ?first = "if pr_done p = [] then ret () else then_eff (record_state E (pr_done p) f ''purged'' by user) ?mark"
  have "returns ?first w (\<lambda>_ w1. mounted w1 \<and> writes f (set (pr_done p)) es (registry_recorded w1))"
  proof (cases "pr_done p = []")
    case True
    then show ?thesis using assms(1,2) purges_nothing by (auto simp: returns_ret writes_def registry_recorded_def)
  next
    case False
    have root: "rg_root (en_reg w)" using upcomingD [OF assms(2)] by blast
    have rec: "returns (record_state E (pr_done p) f ''purged'' by user) w (\<lambda>_ w1. mounted w1 \<and> writes f (set (pr_done p)) es (registry_recorded w1))"
      by (rule returns_mono [OF record_run [OF root]])
        (use appended_writes [of "registry_recorded w" es "pr_done p" E f "by" user] assms(2,4) in \<open>auto simp: registry_recorded_def\<close>)
    have q: "quiet ?mark" by (intro quiet_fold quiet_pure)
    have "returns ?mark w1 (\<lambda>b _. True)" if "mounted w1" for w1
      by (rule returns_mono [OF quietD [OF q that]]) simp
    from then_quiet [OF rec q this] show ?thesis using False by simp
  qed
  note first = this
  let ?last = "\<lambda>v ac actor target detail x. then_eff (write_receipt f v) (then_eff (forget_audit ac actor target detail) (ret x))"
  have "returns (?last v ac actor target detail x) w1 (\<lambda>b _. b = x)" if "mounted w1" for w1 v ac actor target detail x
    by (intro quiet_then_value [OF quiet_pure(6) that] quiet_then_value [OF quiet_pure(5)]) (simp_all add: returns_ret)
  moreover have "quiet (?last v ac actor target detail x)" for v ac actor target detail x
    by (intro quiet_then quiet_pure)
  moreover have ok: "\<not> list_ex (\<lambda>(n, a). \<not> has_key a ''status'') (pr_slots p)"
    using assms(3) by (auto simp: slots_ok_def list_all_iff list_ex_iff)
  ultimately show ?thesis
    unfolding finish_purge_def if_not_P [OF ok] by (intro then_quiet [OF first])
qed

lemma prior_slots_receipt [simp]: "prior_slots (receipt_doc E f stamp by rows sl) = sl"
  by (induction sl) (auto simp: prior_slots_def receipt_doc_def dget_def List.map_filter_def comp_def)

lemma purge_subjects_spec:
  assumes "mounted w" "upcoming (en_reg w) (en_disk w) es" "receipt_rows (dget (read_receipt f w) ''subjects'') = Inr rows"
    and "slots_ok (prior_slots (read_receipt f w))" "valid_subjects ss"
  shows "returns (purge_subjects E f ss by user) w (\<lambda>r w'. mounted w' \<and> (\<exists>p. prior_slots r = pr_slots p
    \<and> after_purge E (purge_ordered ss) \<lparr>pr_slots = prior_slots (read_receipt f w), pr_touched = [], pr_done = []\<rparr> [] p
    \<and> writes f (set (pr_done p)) es (registry_recorded w')))"
proof -
  let ?p0 = "\<lparr>pr_slots = prior_slots (read_receipt f w), pr_touched = [], pr_done = []\<rparr>" and ?o = "purge_ordered ss"
  define doc where "doc = receipt_doc E f (isoformat (fv_clock E (en_tick w))) by (listed_rows rows ?o)"
  define w1 where "w1 = snd (write_receipt f (doc (prior_slots (read_receipt f w))) (w\<lparr>en_tick := Suc (en_tick w)\<rparr>))"
  have w1: "registry_recorded w1 = registry_recorded w" "mounted w1"
    using assms(1) by (simp_all add: w1_def write_receipt_def modify_eff_def registry_recorded_def mounted_def)
  have eq: "purge_subjects E f ss by user w = bind_eff (fold_eff (purge_one E) ?o ?p0) (finish_purge E f ?o by user doc) w1"
    unfolding purge_subjects_def Let_def utcnow_iso_def
    by (simp add: bind_eff_def then_eff_def gets_eff_def engine_tick_def ret_def assms(3) doc_def w1_def write_receipt_def modify_eff_def)
  have "returns (fold_eff (purge_one E) ?o ?p0) w1 (\<lambda>p w'. registry_recorded w' = registry_recorded w1 \<and> after_purge E ?o ?p0 [] p)"
    by (rule purge_all_spec) (simp add: assms(4))
  then have "returns (bind_eff (fold_eff (purge_one E) ?o ?p0) (finish_purge E f ?o by user doc)) w1
      (\<lambda>r w'. mounted w' \<and> (\<exists>p. prior_slots r = pr_slots p \<and> after_purge E ?o ?p0 [] p \<and> writes f (set (pr_done p)) es (registry_recorded w')))"
    unfolding returns_bind
  proof (rule returns_mono)
    fix p and w2 :: "'a engine"
    assume p: "registry_recorded w2 = registry_recorded w1 \<and> after_purge E ?o ?p0 [] p"
    then have m: "mounted w2" "upcoming (en_reg w2) (en_disk w2) es" using w1 assms(2) recorded_mounted by (auto simp: registry_recorded_def)
    have "slots_ok (pr_slots p)" "set (pr_done p) \<subseteq> set ss" using p by (auto simp: after_purge_def)
    then have "slots_ok (pr_slots p)" "valid_subjects (pr_done p)" using assms(5) by (auto simp: valid_subjects_def list_all_iff)
    from finish_spec [OF m this, of E f ?o "by" user doc]
    show "returns (finish_purge E f ?o by user doc p) w2
        (\<lambda>r w'. mounted w' \<and> (\<exists>p. prior_slots r = pr_slots p \<and> after_purge E ?o ?p0 [] p \<and> writes f (set (pr_done p)) es (registry_recorded w')))"
      by (rule returns_mono) (use p in \<open>auto simp: doc_def\<close>)
  qed
  then show ?thesis unfolding returns_def eq .
qed

subsection \<open>Permanent forgets\<close>

lemma trash_spec:
  assumes "in_sync (en_reg w) (en_disk w) es" "valid_subjects ss" "fv_ids E (en_tick w) \<notin> fe_forget ` set es"
  shows "returns (trash E ss by user) w (\<lambda>f w'. f = fv_ids E (en_tick w) \<and> mounted w' \<and>
    (\<exists>es'. upcoming (en_reg w') (en_disk w') es' \<and> (\<forall>s. \<not> cancelled es' s f) \<and> (\<forall>s. purged_in es' s \<longleftrightarrow> purged_in es s)
       \<and> (\<forall>s. s \<in> set ss \<longrightarrow> live_forget es' s f)))"
proof -
  let ?f = "fv_ids E (en_tick w)"
  have root: "rg_root (en_reg w)" using assms(1) by (simp add: in_sync_def)
  show ?thesis
  proof (rule returns_mono [OF trash_run [OF root]])
    fix f and w' :: "'a engine"
    assume t: "f = ?f \<and> mounted w' \<and> appended E (purge_ordered ss) f ''trashed'' by user (registry_recorded w) (registry_recorded w')"
    then obtain now stamp where ap: "reg_append now (map (state_entry E ?f ''trashed'' stamp by user) (purge_ordered ss)) (en_reg w) (en_disk w)
        = Inr (en_reg w', en_disk w')"
      by (auto simp: appended_def registry_recorded_def)
    let ?new = "map (state_entry E ?f ''trashed'' stamp by user) (purge_ordered ss)"
    have "valid_subjects (purge_ordered ss)" using assms(2) by (simp add: valid_subjects_def list_all_iff)
    then have "list_all entry_ok ?new" by (rule valid_entries) (simp add: FORGET_STATES_def)
    then have nf: "new_forget ?f ?new" by (simp add: new_forget_def list_all_iff FORGOTTEN_STATES_def)
    from append_splits [OF root in_sync_disk [OF assms(1)] new_forget_ok [OF nf] ap] obtain xs ys
      where xy: "es = xs @ ys" "upcoming (en_reg w') (en_disk w') (xs @ ?new @ ys)" by blast
    let ?es = "xs @ ?new @ ys"
    have c: "cancelled ?es s g \<longleftrightarrow> cancelled es s g" for s g using xy(1) by (auto simp: cancelled_def)
    have "\<not> cancelled es s ?f" for s using assms(3) by (force simp: cancelled_def)
    moreover have "purged_in ?es s \<longleftrightarrow> purged_in es s" for s
      unfolding purged_in_def c using xy(1) by auto
    moreover have "live_forget ?es s ?f" if "s \<in> set ss" for s
    proof -
      have "s \<in> fe_subject ` set ?new" using that by force
      then show ?thesis using live_after_forget [OF nf, of xs ys s ?f] assms(3) xy(1) by simp
    qed
    ultimately show "f = ?f \<and> mounted w' \<and> (\<exists>es'. upcoming (en_reg w') (en_disk w') es' \<and> (\<forall>s. \<not> cancelled es' s f)
        \<and> (\<forall>s. purged_in es' s \<longleftrightarrow> purged_in es s) \<and> (\<forall>s. s \<in> set ss \<longrightarrow> live_forget es' s f))"
      using t xy(2) unfolding c [symmetric] by blast
  qed
qed

lemma returns_keeps: "returns m w P \<Longrightarrow> keeps Q m \<Longrightarrow> Q w \<Longrightarrow> returns m w (\<lambda>a w'. P a w' \<and> Q w')"
  unfolding returns_def keeps_def by (fastforce split: prod.splits sum.splits)

lemma synced_mounted: "in_sync (en_reg w) (en_disk w) es \<Longrightarrow> mounted w \<and> receipts_of w = en_receipts w \<and> rg_root (en_reg w)"
  by (auto simp: in_sync_def mounted_def receipts_of_def)

lemma no_receipt: "map_of (receipts_of w) f = None \<Longrightarrow> read_receipt f w = []"
  by (simp add: read_receipt_def)

lemma no_slots [simp]: "prior_slots [] = []" "receipt_rows PNone = Inr []" "slots_ok []" "slots_done []"
  by (simp_all add: prior_slots_def receipt_rows_def slots_ok_def slots_done_def)

lemma permanent_spec:
  assumes "in_sync (en_reg w) (en_disk w) es" "valid_subjects ss" "fv_ids E (en_tick w) \<notin> fe_forget ` set es"
    and "map_of (receipts_of w) (fv_ids E (en_tick w)) = None"
  shows "returns (forget_permanently E ss by user) w (\<lambda>r w'. \<exists>p es1 es'. prior_slots r = pr_slots p
    \<and> after_purge E (purge_ordered ss) \<lparr>pr_slots = [], pr_touched = [], pr_done = []\<rparr> [] p
    \<and> (\<forall>s. \<not> cancelled es1 s (fv_ids E (en_tick w))) \<and> (\<forall>s. purged_in es1 s \<longleftrightarrow> purged_in es s)
    \<and> (\<forall>s. s \<in> set ss \<longrightarrow> live_forget es1 s (fv_ids E (en_tick w)))
    \<and> purges (fv_ids E (en_tick w)) (set (pr_done p)) es1 es' \<and> upcoming (en_reg w') (en_disk w') es')"
proof -
  let ?f = "fv_ids E (en_tick w)"
  let ?Q = "receipts_such (\<lambda>rs. map_of rs ?f = None)"
  have "?Q w" using synced_mounted [OF assms(1)] assms(4) by (simp add: receipts_such_def)
  from returns_keeps [OF trash_spec [OF assms(1-3)] receipts_trash this] show ?thesis
    unfolding forget_permanently_def returns_bind
  proof (rule returns_mono)
    fix f and w1 :: "'a engine"
    assume t: "(f = ?f \<and> mounted w1 \<and> (\<exists>es'. upcoming (en_reg w1) (en_disk w1) es' \<and> (\<forall>s. \<not> cancelled es' s f)
        \<and> (\<forall>s. purged_in es' s \<longleftrightarrow> purged_in es s) \<and> (\<forall>s. s \<in> set ss \<longrightarrow> live_forget es' s f))) \<and> ?Q w1"
    then obtain es1 where e: "upcoming (en_reg w1) (en_disk w1) es1" "\<forall>s. \<not> cancelled es1 s ?f"
        "\<forall>s. purged_in es1 s \<longleftrightarrow> purged_in es s" "\<forall>s. s \<in> set ss \<longrightarrow> live_forget es1 s ?f" and f: "f = ?f" "mounted w1" by blast
    have rr: "read_receipt f w1 = []" using t f by (intro no_receipt) (simp add: receipts_such_def receipts_of_def mounted_def)
    have ok: "receipt_rows (dget (read_receipt f w1) ''subjects'') = Inr []" "slots_ok (prior_slots (read_receipt f w1))"
      and empty: "prior_slots (read_receipt f w1) = []" unfolding rr by simp_all
    from purge_subjects_spec [OF f(2) e(1) ok assms(2), of E "by" user]
    show "returns (purge_subjects E f ss by user) w1 (\<lambda>r w'. \<exists>p es1 es'. prior_slots r = pr_slots p
      \<and> after_purge E (purge_ordered ss) \<lparr>pr_slots = [], pr_touched = [], pr_done = []\<rparr> [] p
      \<and> (\<forall>s. \<not> cancelled es1 s ?f) \<and> (\<forall>s. purged_in es1 s \<longleftrightarrow> purged_in es s) \<and> (\<forall>s. s \<in> set ss \<longrightarrow> live_forget es1 s ?f)
      \<and> purges ?f (set (pr_done p)) es1 es' \<and> upcoming (en_reg w') (en_disk w') es')"
      unfolding empty
    proof (rule returns_mono, elim conjE exE)
      fix r p and w' :: "'a engine"
      assume p: "prior_slots r = pr_slots p" "after_purge E (purge_ordered ss) \<lparr>pr_slots = [], pr_touched = [], pr_done = []\<rparr> [] p"
        and "writes f (set (pr_done p)) es1 (registry_recorded w')"
      then obtain es' where "purges ?f (set (pr_done p)) es1 es'" "upcoming (en_reg w') (en_disk w') es'"
        using f(1) by (auto simp: writes_def registry_recorded_def)
      with p e(2-4) show "\<exists>p es1 es'. prior_slots r = pr_slots p
        \<and> after_purge E (purge_ordered ss) \<lparr>pr_slots = [], pr_touched = [], pr_done = []\<rparr> [] p
        \<and> (\<forall>s. \<not> cancelled es1 s ?f) \<and> (\<forall>s. purged_in es1 s \<longleftrightarrow> purged_in es s) \<and> (\<forall>s. s \<in> set ss \<longrightarrow> live_forget es1 s ?f)
        \<and> purges ?f (set (pr_done p)) es1 es' \<and> upcoming (en_reg w') (en_disk w') es'"
        by (intro exI [of _ p] exI [of _ es1] exI [of _ es'] conjI)
    qed
  qed
qed

lemma pending_not_done: "some_pending p \<Longrightarrow> \<not> slots_done (pr_slots p)"
  by (force simp: some_pending_def pending_slot_def slots_done_def list_all_iff slot_done_def dest!: map_of_SomeD)

lemma all_done_slots: "all_done r \<longleftrightarrow> slots_done (prior_slots r)"
  by (simp add: all_done_def slots_done_def case_prod_unfold)

text \<open>
  C4. A permanent forget erases: where every store works, it returns a receipt that is done and every
  subject it was given is recorded as purged.
\<close>
theorem permanent_forget_purges:
  assumes "in_sync (en_reg w) (en_disk w) es" "valid_subjects ss" "fv_ids E (en_tick w) \<notin> fe_forget ` set es"
    and "map_of (receipts_of w) (fv_ids E (en_tick w)) = None" "stores_work E" "covered E ss" "s \<in> set ss"
  shows "returns (forget_permanently E ss by user) w (\<lambda>receipt w'.
    all_done receipt \<and> subject_state s (en_reg w') (en_disk w') = Some ''purged'')"
proof (rule returns_mono [OF permanent_spec [OF assms(1-4)]], elim exE conjE)
  fix r p es1 es' and w' :: "'a engine"
  assume a: "prior_slots r = pr_slots p" "after_purge E (purge_ordered ss) \<lparr>pr_slots = [], pr_touched = [], pr_done = []\<rparr> [] p"
    and c: "\<forall>s. \<not> cancelled es1 s (fv_ids E (en_tick w))" and p: "purges (fv_ids E (en_tick w)) (set (pr_done p)) es1 es'"
    and u: "upcoming (en_reg w') (en_disk w') es'"
  have "covered E (purge_ordered ss)" using assms(6) by (simp add: covered_def list_all_iff)
  then have d: "pr_done p = purge_ordered ss" "slots_done (pr_slots p)" using a(2) assms(5) by (simp_all add: after_purge_def)
  then have "purged_in es' s" using purges_purged [OF p] c assms(7) by simp
  then show "all_done r \<and> subject_state s (en_reg w') (en_disk w') = Some ''purged''"
    using d(2) a(1) by (simp add: all_done_slots state_upcoming [OF u])
qed

text \<open>
  C7. Nothing is recorded as erased that a store failed on: where some store that holds a subject fails,
  the call still returns, its receipt is not done, and the subject stays forgotten without being
  recorded as purged, to be retried.
\<close>
theorem failed_store_leaves_trashed:
  assumes "in_sync (en_reg w) (en_disk w) es" "valid_subjects ss" "fv_ids E (en_tick w) \<notin> fe_forget ` set es"
    and "map_of (receipts_of w) (fv_ids E (en_tick w)) = None" "store_fails E s" "s \<in> set ss"
    and "subject_state s (en_reg w) (en_disk w) \<noteq> Some ''purged''"
  shows "returns (forget_permanently E ss by user) w (\<lambda>receipt w'.
    \<not> all_done receipt \<and> is_forgotten (sb_kind s) (sb_id s) (en_reg w') (en_disk w')
    \<and> subject_state s (en_reg w') (en_disk w') \<noteq> Some ''purged'')"
proof (rule returns_mono [OF permanent_spec [OF assms(1-4)]], elim exE conjE)
  fix r p es1 es' and w' :: "'a engine"
  assume a: "prior_slots r = pr_slots p" "after_purge E (purge_ordered ss) \<lparr>pr_slots = [], pr_touched = [], pr_done = []\<rparr> [] p"
    and e: "\<forall>s. purged_in es1 s \<longleftrightarrow> purged_in es s" "\<forall>s. s \<in> set ss \<longrightarrow> live_forget es1 s (fv_ids E (en_tick w))"
    and p: "purges (fv_ids E (en_tick w)) (set (pr_done p)) es1 es'" and u: "upcoming (en_reg w') (en_disk w') es'"
  have s: "s \<notin> set (pr_done p)" "some_pending p" using a(2) assms(5,6) by (auto simp: after_purge_def)
  then have "\<not> purged_in es' s"
    using purges_purged [OF p] e(1) assms(7) state_upcoming [OF upcoming_sync [OF assms(1)]] by simp
  moreover have "live_forget es' s (fv_ids E (en_tick w))" using purges_live [OF p s(1)] e(2) assms(6) by simp
  then have "is_forgotten (sb_kind s) (sb_id s) (en_reg w') (en_disk w')"
    using forgotten_upcoming [OF u, of s] assms(2,6) by (auto simp: is_forgotten_def valid_subjects_def list_all_iff)
  ultimately show "\<not> all_done r \<and> is_forgotten (sb_kind s) (sb_id s) (en_reg w') (en_disk w')
      \<and> subject_state s (en_reg w') (en_disk w') \<noteq> Some ''purged''"
    using pending_not_done [OF s(2)] a(1) by (simp add: all_done_slots state_upcoming [OF u])
qed

subsection \<open>A restore while the folder is away\<close>

definition unmounted :: "'s engine \<Rightarrow> 's engine" where
  "unmounted w = w\<lparr>en_disk := (en_disk w)\<lparr>rd_dir := None\<rparr>\<rparr>"

definition restores_work :: "'s forget_env \<Rightarrow> bool" where
  "restores_work E \<longleftrightarrow> list_all (\<lambda>a. \<forall>r d s f st. \<exists>st'. ad_restore a r d s f st = (Inr (), st')) (fv_adapters E)"

definition known_entries :: "string \<Rightarrow> 's engine \<Rightarrow> forget_entry list" where
  "known_entries f w = forget_entries f (fst (reg_refresh (en_reg w) (en_disk w)))"

lemma restore_all:
  assumes "restores_work E"
  shows "returns (fold_eff (\<lambda>s _. each_adapter (\<lambda>a. on_stores (\<lambda>r d. ad_restore a r d s f)) (adapters_for E (sb_kind s))) ss ()) w
    (\<lambda>_ w'. registry_recorded w' = registry_recorded w)"
proof -
  have one: "returns (on_stores (\<lambda>r d. ad_restore a r d s f)) w' (\<lambda>_ w''. registry_recorded w'' = registry_recorded w)"
    if "a \<in> set (fv_adapters E)" "registry_recorded w' = registry_recorded w" for a s w'
  proof -
    obtain st where "ad_restore a (en_reg w') (en_disk w') s f (en_stores w') = (Inr (), st)"
      using assms \<open>a \<in> _\<close> unfolding restores_work_def list_all_iff by blast
    then show ?thesis using \<open>registry_recorded w' = registry_recorded w\<close> by (simp add: returns_def on_stores_def registry_recorded_def)
  qed
  have each: "returns (each_adapter (\<lambda>a. on_stores (\<lambda>r d. ad_restore a r d s f)) (adapters_for E (sb_kind s))) w' (\<lambda>_ w''. registry_recorded w'' = registry_recorded w)"
    if "registry_recorded w' = registry_recorded w" for s w'
    unfolding each_adapter_def
    by (rule returns_mono [OF returns_fold [where I = "\<lambda>xs _ w''. set xs \<subseteq> set (fv_adapters E) \<and> registry_recorded w'' = registry_recorded w"]])
      (use that in \<open>auto simp: adapters_for_def elim!: returns_mono [OF one]\<close>)
  show ?thesis by (rule returns_fold [where I = "\<lambda>_ _ w''. registry_recorded w'' = registry_recorded w"]) (simp_all add: each)
qed

text \<open>
  While the shared folder is away nothing remembers that a purge has started: the receipts lie in that
  folder, so a restore that would be refused brings back what is still in the trash, though stores may
  already have erased part of it.
\<close>
theorem restore_in_outage:
  assumes "started f w" "list_all (\<lambda>e. fe_state e = ''trashed'') (known_entries f (unmounted w))" "restores_work E"
  shows "fst (restore E f (unmounted w)) = Inr (int (length (known_entries f (unmounted w))))"
proof -
  let ?u = "unmounted w"
  obtain r d where rd: "reg_refresh (en_reg ?u) (en_disk ?u) = (r, d)" by fastforce
  let ?v = "?u\<lparr>en_reg := r, en_disk := d\<rparr>" and ?es = "known_entries f ?u"
  have d: "rd_dir d = None" "rg_root r" using refresh_disk [OF rd] assms(1) by (simp_all add: unmounted_def receipts_such_def)
  have es: "entries_eff f ?u = (Inr ?es, ?v)"
    using assms(1) rd by (simp add: entries_eff_def require_registry_def refresh_eff_def eff_defs receipts_such_def unmounted_def known_entries_def)
  have tr: "filter (\<lambda>e. fe_state e = ''trashed'') ?es = ?es" "\<not> list_ex (\<lambda>e. fe_state e = ''purged'') ?es"
    using assms(2) by (auto simp: list_all_iff list_ex_iff intro: filter_True)
  have ns: "\<not> purge_started f ?v" using d by (simp add: purge_started_def receipts_of_def)
  let ?ss = "map fe_subject ?es" and ?owner = "case ?es of [] \<Rightarrow> [] | e # _ \<Rightarrow> fe_user e"
  let ?rest = "if ?ss = [] then ret 0 else then_eff (record_state E ?ss f ''restored'' ''ui'' ?owner)
      (then_eff (fold_eff (\<lambda>s _. mark_applied f ''restored'' s) ?ss ())
        (then_eff (forget_audit ''forget.restore'' ''ui'' f (PDict [(''subjects'', PDict (kind_counts ?ss))])) (ret (int (length ?ss)))))"
  have run: "restore E f ?u = then_eff (fold_eff (\<lambda>s _. each_adapter (\<lambda>a. on_stores (\<lambda>r d. ad_restore a r d s f)) (adapters_for E (sb_kind s))) ?ss ()) ?rest ?v"
    unfolding restore_def bind_eff_def es by (simp add: gets_eff_def ns tr Let_def)
  have "returns ?rest w1 (\<lambda>n _. n = int (length ?es))" if "registry_recorded w1 = (r, d)" for w1
  proof (cases "?ss = []")
    case False
    have root: "rg_root (en_reg w1)" using that d by (simp add: registry_recorded_def)
    have q: "quiet (fold_eff (\<lambda>s _. mark_applied f ''restored'' s) ?ss ())" by (intro quiet_fold quiet_pure)
    show ?thesis
      unfolding if_not_P [OF False] returns_then
    proof (rule returns_mono [OF record_run [OF root]], elim conjE)
      fix a and w2 :: "'a engine"
      assume "mounted w2"
      then show "returns (fold_eff (\<lambda>s _. mark_applied f ''restored'' s) ?ss ()) w2 (\<lambda>_ s'. returns (forget_audit ''forget.restore'' ''ui'' f
          (PDict [(''subjects'', PDict (kind_counts ?ss))])) s' (\<lambda>_ s'. returns (ret (int (length ?ss))) s' (\<lambda>n _. n = int (length ?es))))"
        unfolding returns_then [symmetric]
        by (intro quiet_then_value [OF q] quiet_then_value [OF quiet_pure(5)])
          (simp_all add: returns_ret returns_def forget_audit_def modify_eff_def ret_def)
    qed
  qed (simp add: returns_ret)
  note rest = this
  have "returns (then_eff (fold_eff (\<lambda>s _. each_adapter (\<lambda>a. on_stores (\<lambda>r d. ad_restore a r d s f)) (adapters_for E (sb_kind s))) ?ss ()) ?rest) ?v
      (\<lambda>n _. n = int (length ?es))"
    unfolding returns_then
    by (rule returns_mono [OF restore_all [OF assms(3)]]) (rule rest, simp add: registry_recorded_def)
  then have "returns (restore E f) ?u (\<lambda>n _. n = int (length ?es))" unfolding returns_def run .
  then show ?thesis by (auto elim!: returnsE)
qed

end
