(* ===== verification/ForgetRetry.thy ===== *)
theory ForgetRetry
  imports ForgetErase
begin

text \<open>
  The maintenance retry: purges that started and were left pending are finished once the stores work
  again. And the application of other machines' forgets: an entry that was applied is not applied twice.
\<close>

subsection \<open>The subjects of the index\<close>

lemma winning_entry:
  assumes "map_of (rg_by_subject (index_entries es sig r)) s = Some e" "fe_state e \<in> set FORGOTTEN_STATES"
  shows "fe_subject e = s \<and> e \<in> set es \<and> \<not> cancelled es s (fe_forget e)"
proof -
  have "fe_state e \<noteq> ''readded''" using assms(2) by (auto simp: FORGOTTEN_STATES_def)
  then have "e \<in> set (candidates es s)"
    using assms(1) per_forget_readds [of _ es s e] winner_in [of "filter forgotten_state (candidates es s)" e]
      winner_in [of "filter (\<lambda>e. \<not> forgotten_state e) (candidates es s)" e]
    by (auto simp: by_subject_lookup split: option.splits)
  then obtain f where "\<not> cancelled es s f" "winner (votes s f es) = Some e" by (auto simp: in_candidates)
  then show ?thesis using votes_winner by blast
qed

definition in_trash :: "forget_entry list \<Rightarrow> forget_entry \<Rightarrow> bool" where
  "in_trash es e \<longleftrightarrow> fe_state e = ''trashed'' \<and> entry_ok e \<and> \<not> cancelled es (fe_subject e) (fe_forget e)"

lemma latest_trashed:
  assumes "in_sync r d es" "e \<in> set (latest_entries None r)" "fe_state e = ''trashed''"
  shows "in_trash es e"
proof -
  have i: "rg_by_subject r = rg_by_subject (index_entries es [] undefined)" by (rule synced_fields [OF assms(1)])
  obtain s where "(s, e) \<in> set (rg_by_subject r)" using assms(2) by (auto simp: latest_entries_def)
  then have m: "map_of (rg_by_subject (index_entries es [] undefined)) s = Some e"
    unfolding i by (intro map_of_is_SomeI subjects_distinct)
  have "fe_state e \<in> set FORGOTTEN_STATES" using assms(3) by (simp add: FORGOTTEN_STATES_def)
  note w = winning_entry [OF m this]
  have "list_all entry_ok es" using assms(1) says_ok by (auto simp: in_sync_def)
  then show ?thesis using w assms(3) by (auto simp: in_trash_def list_all_iff)
qed

subsection \<open>Groups of one forget\<close>

lemma by_forget_snoc: "by_forget_id (es @ [e]) =
    AList.update (fe_forget e) ((case map_of (by_forget_id es) (fe_forget e) of None \<Rightarrow> [] | Some xs \<Rightarrow> xs) @ [e]) (by_forget_id es)"
  by (simp add: by_forget_id_def)

lemma by_forget_lookup: "map_of (by_forget_id es) f =
    (if filter (\<lambda>e. fe_forget e = f) es = [] then None else Some (filter (\<lambda>e. fe_forget e = f) es))"
  by (induction es rule: rev_induct) (auto simp: by_forget_snoc update_conv' by_forget_id_def)

lemma by_forget_distinct: "distinct (map fst (by_forget_id es))"
  by (induction es rule: rev_induct) (auto simp: by_forget_snoc distinct_update by_forget_id_def)

lemma by_forget_group:
  assumes "(f, l) \<in> set (by_forget_id es)"
  shows "l = filter (\<lambda>e. fe_forget e = f) es \<and> l \<noteq> []"
proof -
  have "map_of (by_forget_id es) f = Some l" using assms by_forget_distinct by simp
  then show ?thesis by (auto simp: by_forget_lookup split: if_splits)
qed

lemma by_forget_covers: "e \<in> set es \<Longrightarrow> \<exists>l. (fe_forget e, l) \<in> set (by_forget_id es) \<and> e \<in> set l"
  using by_forget_lookup [of es "fe_forget e"] by (fastforce split: if_splits dest: map_of_SomeD simp: filter_empty_conv)

subsection \<open>Purging group after group\<close>

definition receipt_ok :: "pdict \<Rightarrow> bool" where
  \<comment> \<open>a receipt that a purge can carry on\<close>
  "receipt_ok d \<longleftrightarrow> (\<exists>rows. receipt_rows (dget d ''subjects'') = Inr rows) \<and> slots_ok (prior_slots d)"

lemma purge_keeps_others:
  assumes "\<And>h. h \<in> H \<Longrightarrow> h \<noteq> f"
  shows "keeps (receipts_such (\<lambda>rs. \<forall>h \<in> H. map_of rs h = v h)) (purge_subjects E f ss by user)"
proof -
  have w: "keeps (receipts_such (\<lambda>rs. \<forall>h \<in> H. map_of rs h = v h)) (write_receipt f receipt)" for receipt
    by (rule receipts_write) (simp add: update_conv' assms)
  show ?thesis
    unfolding purge_subjects_def finish_purge_def Let_def utcnow_iso_def purge_one_def run_adapter_def
    by (intro keeps_intros w)
qed

definition trash_groups :: "'s forget_env \<Rightarrow> forget_entry list \<Rightarrow> (string \<times> forget_entry list) list \<Rightarrow> bool" where
  "trash_groups E es gs \<longleftrightarrow> distinct (map fst gs) \<and>
     (\<forall>g \<in> set gs. covered E (map fe_subject (snd g)) \<and> (\<forall>e \<in> set (snd g). in_trash es e \<and> fe_forget e = fst g))"

lemma purge_groups_spec:
  fixes w :: "'s engine"
  assumes "mounted w" "upcoming (en_reg w) (en_disk w) es" "stores_work E" "trash_groups E es gs"
    and "\<forall>g \<in> set gs. receipt_ok (read_receipt (fst g) w)"
  shows "returns (purge_groups E who gs) w (\<lambda>_ w'. \<exists>es'. upcoming (en_reg w') (en_disk w') es'
    \<and> (\<forall>g \<in> set gs. \<forall>e \<in> set (snd g). purged_in es' (fe_subject e)))"
proof -
  define I where "I = (\<lambda>xs (_ :: string list) (w' :: 's engine). mounted w' \<and> (\<exists>ys. gs = ys @ xs)
    \<and> (\<forall>g \<in> set xs. map_of (receipts_of w') (fst g) = map_of (receipts_of w) (fst g))
    \<and> (\<exists>es'. upcoming (en_reg w') (en_disk w') es' \<and> (\<forall>s g. cancelled es' s g \<longleftrightarrow> cancelled es s g)
         \<and> (\<forall>g \<in> set gs. g \<in> set xs \<or> (\<forall>e \<in> set (snd g). purged_in es' (fe_subject e)))))"
  have step: "returns (bind_eff (purge_subjects E (fst g) (map fe_subject (snd g)) (who (snd g)) (fe_user (hd (snd g))))
      (\<lambda>receipt. ret (if all_done receipt then finished @ [fst g] else finished))) w1 (I xs)"
    if i: "I (g # xs) finished w1" for g xs finished and w1 :: "'s engine"
  proof -
    note i' = i [unfolded I_def]
    note a = conjunct1 [OF i'] conjunct1 [OF conjunct2 [OF conjunct2 [OF i']]]
    obtain es1 where e: "mounted w1" "upcoming (en_reg w1) (en_disk w1) es1" "\<forall>s g. cancelled es1 s g \<longleftrightarrow> cancelled es s g"
        "\<forall>h \<in> set gs. h \<in> set (g # xs) \<or> (\<forall>e \<in> set (snd h). purged_in es1 (fe_subject e))"
        "\<forall>h \<in> set (g # xs). map_of (receipts_of w1) (fst h) = map_of (receipts_of w) (fst h)"
      using conjunct2 [OF conjunct2 [OF conjunct2 [OF i']]] by (elim exE conjE) (rule that [OF a(1) _ _ _ a(2)])
    obtain ys where ys: "gs = ys @ g # xs" using i by (auto simp: I_def)
    have "distinct (map fst gs)" and all: "\<forall>g \<in> set gs. covered E (map fe_subject (snd g)) \<and> (\<forall>e \<in> set (snd g). in_trash es e \<and> fe_forget e = fst g)"
      using assms(4) by (simp_all add: trash_groups_def)
    then have "fst g \<notin> fst ` set xs" unfolding ys by simp
    then have other: "\<forall>h \<in> set xs. fst h \<noteq> fst g" by (metis imageI)
    have "g \<in> set gs" using ys by simp
    then have g: "covered E (map fe_subject (snd g))" "\<forall>e \<in> set (snd g). in_trash es e \<and> fe_forget e = fst g"
      using all by blast+
    have "read_receipt (fst g) w1 = read_receipt (fst g) w" using e(5) by (simp add: read_receipt_def)
    then have "receipt_ok (read_receipt (fst g) w1)" using assms(5) ys by simp
    then obtain rows where rows: "receipt_rows (dget (read_receipt (fst g) w1) ''subjects'') = Inr rows"
      and sl: "slots_ok (prior_slots (read_receipt (fst g) w1))" by (auto simp: receipt_ok_def)
    let ?ss = "map fe_subject (snd g)"
    have val: "valid_subjects ?ss" using g(2) by (auto simp: valid_subjects_def list_all_iff in_trash_def entry_ok_def)
    let ?Q = "receipts_such (\<lambda>rs. \<forall>h \<in> fst ` set xs. map_of rs h = map_of (receipts_of w) h)"
    have root: "rg_root (en_reg w1)" using upcomingD [OF e(2)] by blast
    have "receipts_of w1 = en_receipts w1" using e(1) by (auto simp: receipts_of_def mounted_def)
    then have Qw: "?Q w1" using e(1,5) root by (simp add: receipts_such_def)
    have keep: "keeps ?Q (purge_subjects E (fst g) ?ss b u)" for b u
      by (rule purge_keeps_others) (use other in auto)
    from returns_keeps [OF purge_subjects_spec [OF e(1,2) rows sl val] keep Qw]
    show ?thesis
      unfolding returns_bind returns_ret
    proof (rule returns_mono, elim conjE exE)
      fix r p and w2 :: "'s engine"
      assume m: "mounted w2" and ap: "after_purge E (purge_ordered ?ss) \<lparr>pr_slots = prior_slots (read_receipt (fst g) w1), pr_touched = [], pr_done = []\<rparr> [] p"
        and wr: "writes (fst g) (set (pr_done p)) es1 (registry_recorded w2)" and q: "?Q w2"
      obtain es2 where p: "purges (fst g) (set (pr_done p)) es1 es2" and u: "upcoming (en_reg w2) (en_disk w2) es2"
        using wr by (auto simp: writes_def registry_recorded_def)
      have "covered E (purge_ordered ?ss)" using g(1) by (simp add: covered_def list_all_iff)
      then have "pr_done p = purge_ordered ?ss" using ap assms(3) by (simp add: after_purge_def)
      then have S: "set (pr_done p) = fe_subject ` set (snd g)" by simp
      have "purged_in es2 (fe_subject x)" if "x \<in> set (snd g)" for x
      proof -
        have "\<not> cancelled es1 (fe_subject x) (fst g)" using e(3) g(2) that by (auto simp: in_trash_def)
        then show ?thesis using purges_purged [OF p] S that by blast
      qed
      moreover have "purged_in es2 s" if "purged_in es1 s" for s using purges_purged [OF p] that by blast
      moreover have "map_of (receipts_of w2) (fst h) = map_of (receipts_of w) (fst h)" if "h \<in> set xs" for h
      proof -
        have "receipts_of w2 = en_receipts w2" using m by (auto simp: receipts_of_def mounted_def)
        then show ?thesis using q that by (simp add: receipts_such_def)
      qed
      moreover have "\<exists>zs. gs = zs @ xs" using ys by (intro exI [of _ "ys @ [g]"]) simp
      moreover have "cancelled es2 s h \<longleftrightarrow> cancelled es s h" for s h using purges_cancelled [OF p] e(3) by simp
      ultimately show "I xs (if all_done r then finished @ [fst g] else finished) w2"
        unfolding I_def using m u e(4) by (intro conjI exI [of _ es2]) auto
    qed
  qed
  have start: "I gs [] w" using assms(1,2) by (auto simp: I_def)
  have "returns (purge_groups E who gs) w (I [])"
    unfolding purge_groups_def by (rule returns_fold [where I = I, OF start step])
  then show ?thesis by (rule returns_mono) (auto simp: I_def)
qed

subsection \<open>The retry\<close>

lemma latest_run:
  assumes "in_sync (en_reg w) (en_disk w) es"
  shows "returns latest_eff w (\<lambda>l w'. l = latest_entries None (en_reg w') \<and> in_sync (en_reg w') (en_disk w') es
    \<and> en_receipts w' = en_receipts w \<and> rg_by_subject (en_reg w') = rg_by_subject (en_reg w))"
proof -
  obtain r d where rd: "reg_refresh (en_reg w) (en_disk w) = (r, d)" by fastforce
  have s: "in_sync r d es" using refresh_again [OF assms rd] by blast
  then have "rg_by_subject r = rg_by_subject (en_reg w)" using synced_fields(1) [OF assms] synced_fields(1) [OF s] by simp
  with s show ?thesis
    using synced_mounted [OF assms] rd
    by (simp add: returns_def latest_eff_def require_registry_def refresh_eff_def eff_defs)
qed

lemma chosen_subjects:
  assumes "in_sync r d es" "x \<in> set (latest_entries None r)" "in_trash es x"
  shows "fe_subject x \<in> fst ` set (rg_by_subject r)"
proof -
  obtain k where k: "(k, x) \<in> set (rg_by_subject r)" using assms(2) by (force simp: latest_entries_def)
  have "map_of (rg_by_subject (index_entries es [] undefined)) k = Some x"
    using k synced_fields(1) [OF assms(1)] by (intro map_of_is_SomeI subjects_distinct) simp
  then have "fe_subject x = k" using winning_entry assms(3) by (simp add: in_trash_def FORGOTTEN_STATES_def)
  then show ?thesis using k by force
qed

lemma chosen_groups:
  assumes "in_sync r d es" "covered E (map fst (rg_by_subject r))"
    and "\<forall>x \<in> set c. x \<in> set (latest_entries None r) \<and> fe_state x = ''trashed''"
  shows "trash_groups E es (by_forget_id c)"
  unfolding trash_groups_def
proof (intro conjI ballI by_forget_distinct)
  have tr: "in_trash es x" if "x \<in> set c" for x using latest_trashed [OF assms(1)] assms(3) that by simp
  fix g assume "g \<in> set (by_forget_id c)"
  then have g: "snd g = filter (\<lambda>e. fe_forget e = fst g) c" using by_forget_group [of "fst g" "snd g"] by simp
  show "covered E (map fe_subject (snd g))"
    using assms(2,3) chosen_subjects [OF assms(1) _ tr] by (fastforce simp: g covered_def list_all_iff)
  fix x assume "x \<in> set (snd g)"
  then show "in_trash es x" "fe_forget x = fst g" using tr by (auto simp: g)
qed

lemma chosen_receipts:
  assumes "mounted w" "list_all (\<lambda>f. receipt_ok (read_receipt f w)) (map fst (en_receipts w))"
    and "\<forall>x \<in> set c. purge_started (fe_forget x) w" "g \<in> set (by_forget_id c)"
  shows "receipt_ok (read_receipt (fst g) w)"
proof -
  have g: "snd g = filter (\<lambda>e. fe_forget e = fst g) c \<and> snd g \<noteq> []" using assms(4) by (intro by_forget_group) simp
  from conjunct2 [OF g, unfolded conjunct1 [OF g]] obtain x where "x \<in> set c" "fe_forget x = fst g"
    unfolding filter_empty_conv by blast
  then have "purge_started (fst g) w" using assms(3) by metis
  then have "fst g \<in> set (map fst (en_receipts w))"
    using assms(1) by (auto simp: purge_started_def receipts_of_def mounted_def map_of_eq_None_iff split: if_splits)
  then show ?thesis using assms(2) by (auto simp: list_all_iff)
qed

text \<open>
  C16. What a purge left pending is finished by the maintenance retry: once the stores work, every
  subject that is still in the trash of a forget whose purge has started is recorded as purged,
  whichever machine or attempt started it.
\<close>
theorem retry_finishes_purges:
  assumes "in_sync (en_reg w) (en_disk w) es" "stores_work E" "covered E (map fst (rg_by_subject (en_reg w)))"
    and "list_all (\<lambda>f. receipt_ok (read_receipt f w)) (map fst (en_receipts w))"
    and "map_of (rg_by_subject (en_reg w)) s = Some e" "fe_state e = ''trashed''" "purge_started (fe_forget e) w"
  shows "returns (retry_started_purges E) w (\<lambda>_ w'. subject_state s (en_reg w') (en_disk w') = Some ''purged'')"
  unfolding retry_started_purges_def returns_bind
proof (rule returns_mono [OF latest_run [OF assms(1)]], elim conjE)
  fix l and w1 :: "'a engine"
  assume l: "l = latest_entries None (en_reg w1)" and s1: "in_sync (en_reg w1) (en_disk w1) es"
    and rc: "en_receipts w1 = en_receipts w" and by_s: "rg_by_subject (en_reg w1) = rg_by_subject (en_reg w)"
  let ?c = "filter (\<lambda>e. fe_state e = ''trashed'' \<and> purge_started (fe_forget e) w1) l"
  have m1: "mounted w1" and ro: "receipts_of w1 = receipts_of w"
    using synced_mounted [OF assms(1)] synced_mounted [OF s1] rc by simp_all
  have "list_all (\<lambda>f. receipt_ok (read_receipt f w1)) (map fst (en_receipts w1))"
    using assms(4) rc ro by (simp add: read_receipt_def)
  then have "\<forall>g \<in> set (by_forget_id ?c). receipt_ok (read_receipt (fst g) w1)"
    by (intro ballI chosen_receipts [OF m1]) auto
  moreover have "trash_groups E es (by_forget_id ?c)" by (rule chosen_groups [OF s1]) (use assms(3) by_s l in auto)
  ultimately have "returns (purge_groups E (\<lambda>es. fe_by (hd es)) (by_forget_id ?c)) w1 (\<lambda>_ w'. \<exists>es'. upcoming (en_reg w') (en_disk w') es'
      \<and> (\<forall>g \<in> set (by_forget_id ?c). \<forall>e \<in> set (snd g). purged_in es' (fe_subject e)))"
    using purge_groups_spec [OF m1 upcoming_sync [OF s1] assms(2)] by blast
  moreover have "purged_in es' s" if p: "\<forall>g \<in> set (by_forget_id ?c). \<forall>e \<in> set (snd g). purged_in es' (fe_subject e)" for es'
  proof -
    have "map_of (rg_by_subject (index_entries es [] undefined)) s = Some e" using assms(5) synced_fields(1) [OF assms(1)] by simp
    then have "fe_subject e = s" using winning_entry assms(6) by (simp add: FORGOTTEN_STATES_def)
    moreover have "e \<in> set ?c"
      using map_of_SomeD [OF assms(5)] assms(6,7) l by_s ro by (force simp: latest_entries_def purge_started_def)
    then obtain g where "(fe_forget e, g) \<in> set (by_forget_id ?c)" "e \<in> set g" using by_forget_covers by blast
    ultimately show ?thesis using p by force
  qed
  ultimately have "returns (purge_groups E (\<lambda>es. fe_by (hd es)) (by_forget_id ?c)) w1
      (\<lambda>_ w'. subject_state s (en_reg w') (en_disk w') = Some ''purged'')"
    by (elim returns_mono) (auto simp: state_upcoming)
  then show "returns (gets_eff (\<lambda>w. filter (\<lambda>e. fe_state e = ''trashed'' \<and> purge_started (fe_forget e) w) l)) w1
      (\<lambda>a s'. returns (purge_groups E (\<lambda>es. fe_by (hd es)) (by_forget_id a)) s' (\<lambda>_ w'. subject_state s (en_reg w') (en_disk w') = Some ''purged''))"
    by (simp add: returns_gets)
qed

subsection \<open>The Trash view\<close>

lemma row_forget: "gets (trash_row label w g) ''forget_id'' = fst g"
  by (simp add: trash_row_def gets_Cons split: prod.split)

lemma distinct_newest_first: "distinct (map g xs) \<Longrightarrow> distinct (map g (rev (sort_key k (rev xs))))"
  by (simp add: distinct_map)

lemma groups_forgets: "fst ` set (by_forget_id es) = fe_forget ` set es"
proof
  show "fst ` set (by_forget_id es) \<subseteq> fe_forget ` set es"
  proof
    fix f assume "f \<in> fst ` set (by_forget_id es)"
    then obtain l where "(f, l) \<in> set (by_forget_id es)" by auto
    then have "l = filter (\<lambda>e. fe_forget e = f) es \<and> l \<noteq> []" by (rule by_forget_group)
    then show "f \<in> fe_forget ` set es" by (auto simp: filter_empty_conv)
  qed
  show "fe_forget ` set es \<subseteq> fst ` set (by_forget_id es)" using by_forget_covers by force
qed

text \<open>The view lists each forget that has something in the trash once, whatever the labels are.\<close>

lemma trash_view:
  assumes "in_sync (en_reg w) (en_disk w) es" "\<And>ss w'. \<exists>l w''. labels ss w' = (Inr l, w'')"
  shows "returns (list_trash labels) w (\<lambda>rows _. distinct (map (\<lambda>r. gets r ''forget_id'') rows)
    \<and> set (map (\<lambda>r. gets r ''forget_id'') rows) = fe_forget ` {e \<in> snd ` set (rg_by_subject (en_reg w)). fe_state e = ''trashed''})"
  unfolding list_trash_def returns_bind
proof (rule returns_mono [OF latest_run [OF assms(1)]], elim conjE)
  fix l and w1 :: "'a engine"
  assume l: "l = latest_entries None (en_reg w1)" and by_s: "rg_by_subject (en_reg w1) = rg_by_subject (en_reg w)"
  let ?c = "filter (\<lambda>e. fe_state e = ''trashed'') l"
  have f: "fe_forget ` set ?c = fe_forget ` {e \<in> snd ` set (rg_by_subject (en_reg w)). fe_state e = ''trashed''}"
    using l by_s by (auto simp: latest_entries_def)
  have "distinct (map (\<lambda>r. gets r ''forget_id'') (rev (sort_key (\<lambda>r. gets r ''at'') (rev (map (trash_row label w2) (by_forget_id ?c))))))
      \<and> set (map (\<lambda>r. gets r ''forget_id'') (rev (sort_key (\<lambda>r. gets r ''at'') (rev (map (trash_row label w2) (by_forget_id ?c))))))
        = fe_forget ` set ?c" for label and w2 :: "'a engine"
  proof -
    let ?g = "\<lambda>r. gets r ''forget_id''" and ?rows = "map (trash_row label w2) (by_forget_id ?c)"
    have "map ?g ?rows = map fst (by_forget_id ?c)" by (simp add: row_forget)
    then have "distinct (map ?g ?rows)" using by_forget_distinct by metis
    then have "distinct (map ?g (rev (sort_key (\<lambda>r. gets r ''at'') (rev ?rows))))" by (rule distinct_newest_first)
    moreover have "set (map ?g (rev (sort_key (\<lambda>r. gets r ''at'') (rev ?rows)))) = fst ` set (by_forget_id ?c)"
      by (simp add: row_forget image_image)
    ultimately show ?thesis using groups_forgets [of ?c] by simp
  qed
  then show "returns (let groups = by_forget_id ?c in bind_eff (labels (map fe_subject (concat (map snd groups)))) (\<lambda>label.
      gets_eff (\<lambda>w. rev (sort_key (\<lambda>r. gets r ''at'') (rev (map (trash_row label w) groups)))))) w1
      (\<lambda>rows _. distinct (map (\<lambda>r. gets r ''forget_id'') rows)
        \<and> set (map (\<lambda>r. gets r ''forget_id'') rows) = fe_forget ` {e \<in> snd ` set (rg_by_subject (en_reg w)). fe_state e = ''trashed''})"
    using assms(2) [of "map fe_subject (concat (map snd (by_forget_id ?c)))" w1]
    by (auto simp: Let_def returns_def bind_eff_def gets_eff_def f [symmetric])
qed

end
