(* ===== verification/ForgetSamples.thy ===== *)
theory ForgetSamples
  imports ForgetRetry
begin

text \<open>
  Concrete registries, stores and calls at which the properties of the forget components apply: one
  machine's log with one trashed passage, a store that erases and one that always raises.
\<close>

subsection \<open>Inputs\<close>

definition sample_entry :: "string \<Rightarrow> string \<Rightarrow> string \<Rightarrow> forget_entry" where
  "sample_entry f i st =
     \<lparr>fe_forget = f, fe_subject = Subject ''chunk'' i, fe_state = st, fe_at = ''2026-01-01T00:00:00+00:00'', fe_machine = ''a'',
      fe_by = ''ui'', fe_user = []\<rparr>"

definition trashed_c1 :: forget_entry where "trashed_c1 = sample_entry ''fg_1'' ''c1'' ''trashed''"
definition purged_c2 :: forget_entry where "purged_c2 = sample_entry ''fg_2'' ''c2'' ''purged''"

definition sample_files :: "forget_entry list \<Rightarrow> (string \<times> reg_file) list" where
  "sample_files es = [(''registry-a.jsonl'', \<lparr>rf_text = concat (map entry_line es), rf_mtime = 1, rf_readable = True\<rparr>)]"

definition sample_disk :: "forget_entry list \<Rightarrow> reg_disk" where
  "sample_disk es =
     \<lparr>rd_dir = Some (sample_files es), rd_listable = True, rd_snapshot = None, rd_snap_readable = True, rd_snap_writable = True\<rparr>"

definition sample_new :: registry where "sample_new = new_registry True ''a'' True"

definition sample_reg :: "forget_entry list \<Rightarrow> registry" where "sample_reg es = fst (reg_refresh sample_new (sample_disk es))"
definition sample_read :: "forget_entry list \<Rightarrow> reg_disk" where "sample_read es = snd (reg_refresh sample_new (sample_disk es))"

definition erasing_store :: "subject list forget_adapter" where
  "erasing_store = \<lparr>ad_name = ''chunks'', ad_kinds = [''chunk''], ad_hide = (\<lambda>_ _ _ _. ret ()), ad_restore = (\<lambda>_ _ _ _. ret ()),
     ad_purge = (\<lambda>_ _ s st. (Inr (if s \<in> set st then 1 else 0), filter (\<lambda>x. x \<noteq> s) st))\<rparr>"

definition broken_store :: "subject list forget_adapter" where
  "broken_store = \<lparr>ad_name = ''chunks'', ad_kinds = [''chunk''], ad_hide = (\<lambda>_ _ _ _. raise_exc ''ServiceUnavailable''),
     ad_restore = (\<lambda>_ _ _ _. ret ()), ad_purge = (\<lambda>_ _ _. raise_exc ''ServiceUnavailable'')\<rparr>"

definition forget_sample_env :: "subject list forget_adapter \<Rightarrow> subject list forget_env" where
  "forget_sample_env a = \<lparr>fv_adapters = [a], fv_machine = ''a'',
     fv_clock = (\<lambda>_. \<lparr>dt_year = 2026, dt_month = 2, dt_day = 1, dt_hour = 12, dt_minute = 0, dt_second = 0, dt_micro = 0, dt_offset = Some 0\<rparr>),
     fv_mtime = int, fv_ids = (\<lambda>_. ''fg_3''), fv_remove = (\<lambda>_. ret ())\<rparr>"

definition forget_sample_world :: "forget_entry list \<Rightarrow> (string \<times> pyval option) list \<Rightarrow> subject list engine" where
  "forget_sample_world es rs = \<lparr>en_reg = sample_reg es, en_disk = sample_read es, en_receipts = rs, en_applied = [], en_audit = [], en_tick = 0,
     en_stores = [Subject ''chunk'' ''c1'', Subject ''chunk'' ''c3'']\<rparr>"

subsection \<open>Facts about them\<close>

lemma entries_ok [simp]: "entry_ok trashed_c1" "entry_ok purged_c2"
  by (simp_all add: entry_ok_def trashed_c1_def purged_c2_def sample_entry_def FORGET_KINDS_def FORGET_STATES_def)

lemma sample_fields [simp]:
  "fe_state trashed_c1 = ''trashed''" "fe_forget trashed_c1 = ''fg_1''" "fe_subject trashed_c1 = Subject ''chunk'' ''c1''"
  "fe_state purged_c2 = ''purged''" "fe_forget purged_c2 = ''fg_2''" "fe_subject purged_c2 = Subject ''chunk'' ''c2''"
  "fe_by trashed_c1 = ''ui''"
  by (simp_all add: trashed_c1_def purged_c2_def sample_entry_def)

lemma sample_name: "registry_name ''registry-a.jsonl''"
  by (simp add: registry_name_def starts_with_def ends_with_def)

lemma sample_files_of: "files_of (sample_files es) = sample_files es"
  by (simp add: files_of_def sample_files_def sample_name)

lemma sample_entries: "list_all entry_ok es \<Longrightarrow> entries_of (sample_files es) = es"
  unfolding entries_of_def sample_files_of by (simp add: sample_files_def says_def parse_entries)

lemma sample_new_fields [simp]: "rg_root sample_new" "\<not> rg_loaded sample_new" "rg_signature sample_new = []" "rg_keeps_snapshot sample_new"
  by (simp_all add: sample_new_def new_registry_def)

lemma sample_sync:
  assumes "list_all entry_ok es"
  shows "in_sync (sample_reg es) (sample_read es) es"
proof -
  have "reg_refresh sample_new (sample_disk es) = (sample_reg es, sample_read es)" by (simp add: sample_reg_def sample_read_def)
  from refresh_new [OF _ _ _ _ _ _ _ this, of "sample_files es"] sample_entries [OF assms] sample_files_of [of es]
  show ?thesis by (simp add: sample_disk_def) (simp add: sample_files_def)
qed

lemma sample_listed: "registry_files sample_new (sample_disk es) = Some (sample_files es)"
  using sample_files_of [of es] by (simp add: registry_files_def sample_disk_def files_of_def)

lemma world_sync: "list_all entry_ok es \<Longrightarrow> in_sync (en_reg (forget_sample_world es rs)) (en_disk (forget_sample_world es rs)) es"
  using sample_sync by (simp add: forget_sample_world_def)

lemma world_fields [simp]: "en_tick (forget_sample_world es rs) = 0" "en_receipts (forget_sample_world es rs) = rs"
    "fv_ids (forget_sample_env a) n = ''fg_3''" "fv_adapters (forget_sample_env a) = [a]"
  by (simp_all add: forget_sample_world_def forget_sample_env_def)

lemma world_receipts: "list_all entry_ok es \<Longrightarrow> receipts_of (forget_sample_world es rs) = rs"
  using synced_mounted [OF world_sync] by fastforce

lemma chunk_adapters: "ad_kinds a = [''chunk''] \<Longrightarrow> adapters_for (forget_sample_env a) ''chunk'' = [a]"
  by (simp add: adapters_for_def)

lemma chunk_kinds [simp]: "ad_kinds erasing_store = [''chunk'']" "ad_kinds broken_store = [''chunk'']"
  by (simp_all add: erasing_store_def broken_store_def)

lemma chunk_valid: "valid_subjects [Subject ''chunk'' (c # i)]"
  by (simp add: valid_subjects_def FORGET_KINDS_def)

lemma erasing_works: "stores_work (forget_sample_env erasing_store)"
  by (simp add: stores_work_def well_run_def erasing_store_def)

lemma trashed_live: "live_forget [trashed_c1] (Subject ''chunk'' ''c1'') ''fg_1''"
  by (simp add: live_forget_def cancelled_def votes_def winner_def forget_wins_def forgotten_state_def FORGOTTEN_STATES_def)

subsection \<open>The registry\<close>

theorem registries_converge_witness:
  "forgotten_in (index_entries [trashed_c1, purged_c2] [] sample_new) (Subject ''chunk'' ''c2'')
   = forgotten_in (index_entries [purged_c2, trashed_c1, trashed_c1] [] sample_new) (Subject ''chunk'' ''c2'')"
  by (rule registries_converge) (auto simp: clear_times_def)

theorem appended_entries_witness:
  "parse_lines (splitlines (appended_text ''{torn'' [trashed_c1, purged_c2]))
     = parse_lines (splitlines ''{torn'') @ [trashed_c1, purged_c2]"
  by (rule appended_entries_read_back) simp

definition away :: "reg_disk \<Rightarrow> reg_disk" where
  "away d = d\<lparr>rd_dir := None, rd_listable := True\<rparr>"

definition run_read :: reg_sys where
  "run_read = \<lparr>sy_reg = sample_reg [purged_c2], sy_disk = sample_read [purged_c2], sy_remote = sample_files [purged_c2]\<rparr>"

definition run_away :: reg_sys where
  "run_away = \<lparr>sy_reg = fst (reg_refresh (sample_reg [purged_c2]) (away (sample_read [purged_c2]))),
     sy_disk = snd (reg_refresh (sample_reg [purged_c2]) (away (sample_read [purged_c2]))), sy_remote = sample_files [purged_c2]\<rparr>"

lemma run_reads: "reg_step\<^sup>*\<^sup>* (fresh_sys ''a'' True (sample_disk [purged_c2]) (sample_files [purged_c2])) run_read"
  unfolding fresh_sys_def run_read_def
  by (intro r_into_rtranclp reg_step.ask) (simp add: sample_reg_def sample_read_def sample_new_def)

lemma run_goes_away: "reg_step\<^sup>*\<^sup>* run_read run_away"
proof -
  let ?m = "\<lparr>sy_reg = sample_reg [purged_c2], sy_disk = away (sample_read [purged_c2]), sy_remote = sample_files [purged_c2]\<rparr>"
  have "reg_step run_read ?m" unfolding run_read_def away_def by (rule reg_step.reach) simp
  moreover have "reg_step ?m run_away" unfolding run_away_def by (rule reg_step.ask) simp
  ultimately show ?thesis by (meson r_into_rtranclp rtranclp.rtrancl_into_rtrancl)
qed

theorem known_forgets_survive_witness:
  "state_in (sy_reg run_away) (Subject ''chunk'' ''c2'') = Some ''purged''
   \<or> (\<exists>e. e \<in> set (rg_all (sy_reg run_away)) \<and> fe_state e = ''readded'' \<and> fe_subject e = Subject ''chunk'' ''c2'')"
proof -
  have s: "in_sync (sample_reg [purged_c2]) (sample_read [purged_c2]) [purged_c2]" by (rule sample_sync) simp
  then have "rg_loaded (sy_reg run_read)" by (simp add: run_read_def in_sync_def)
  moreover have "state_in (sy_reg run_read) (Subject ''chunk'' ''c2'') = Some ''purged''"
    unfolding run_read_def using state_synced [OF s] purged_iff [of "[purged_c2]" "[]"] by (simp add: cancelled_def)
  ultimately show ?thesis
    using known_forgets_survive [OF _ _ _ run_reads run_goes_away] by (simp add: sample_disk_def sample_files_def)
qed

theorem restart_keeps_forgets_witness:
  "forgotten_in (fst (reg_refresh (new_registry True ''a'' True) ((sample_read [trashed_c1])\<lparr>rd_dir := None\<rparr>))) (Subject ''chunk'' ''c1'')
   = forgotten_in (sample_reg [trashed_c1]) (Subject ''chunk'' ''c1'')"
proof (rule restart_keeps_forgets)
  show "reg_refresh (new_registry True ''a'' True) (sample_disk [trashed_c1]) = (sample_reg [trashed_c1], sample_read [trashed_c1])"
    by (simp add: sample_reg_def sample_read_def sample_new_def)
  show "registry_files (new_registry True ''a'' True) (sample_disk [trashed_c1]) = Some (sample_files [trashed_c1])"
    using sample_listed by (simp add: sample_new_def)
qed (simp_all add: sample_files_def sample_disk_def)

theorem write_in_outage_witness:
  "case reg_append 5 [purged_c2] (sample_reg [trashed_c1]) (away (sample_read [trashed_c1])) of
     Inl e \<Rightarrow> False
   | Inr (r, d) \<Rightarrow> rg_all (fst (reg_refresh r d)) = [purged_c2]"
proof -
  have "rg_root (sample_reg [trashed_c1])" using sample_sync [of "[trashed_c1]"] by (simp add: in_sync_def)
  then obtain r d where "reg_append 5 [purged_c2] (sample_reg [trashed_c1]) (away (sample_read [trashed_c1])) = Inr (r, d)"
    by (auto simp: reg_append_def Let_def)
  with write_in_outage_forgets_the_rest [OF _ _ _ this] show ?thesis by (simp add: away_def)
qed

theorem readd_cancels_witness:
  "case record_readd 5 ''2026-01-02T00:00:00+00:00'' ''chunk'' ''c1'' ''ingest'' [] None (sample_reg [trashed_c1]) (sample_read [trashed_c1]) of
     Inl e \<Rightarrow> False
   | Inr (any, r, d) \<Rightarrow> any \<and> \<not> forgotten_in (fst (reg_refresh r d)) (Subject ''chunk'' ''c1'')"
proof -
  let ?es = "[trashed_c1]"
  have s: "in_sync (sample_reg ?es) (sample_read ?es) ?es" by (rule sample_sync) simp
  obtain r0 d0 where r0: "reg_refresh (sample_reg ?es) (sample_read ?es) = (r0, d0)" by fastforce
  have "rg_root r0" using refresh_again [OF s r0] by (simp add: in_sync_def)
  then have "\<exists>x. record_readd 5 ''2026-01-02T00:00:00+00:00'' ''chunk'' ''c1'' ''ingest'' [] None (sample_reg ?es) (sample_read ?es) = Inr x"
    by (auto simp: record_readd_def r0 Let_def reg_append_def)
  then obtain any r d where rr: "record_readd 5 ''2026-01-02T00:00:00+00:00'' ''chunk'' ''c1'' ''ingest'' [] None (sample_reg ?es) (sample_read ?es) = Inr (any, r, d)"
    by auto
  obtain r2 d2 where r2: "reg_refresh r d = (r2, d2)" by fastforce
  obtain e where "winner (votes (Subject ''chunk'' ''c1'') ''fg_1'' ?es) = Some e" using trashed_live by (auto simp: live_forget_def)
  then show ?thesis
    using readd_cancels [OF s _ _ rr r2, of "Subject ''chunk'' ''c1''"] trashed_live r2 rr
    by (auto simp: covers_def FORGET_KINDS_def)
qed

subsection \<open>The engine\<close>

theorem trash_forgets_witness:
  "is_forgotten ''chunk'' ''c3''
     (en_reg (snd (trash (forget_sample_env broken_store) [Subject ''chunk'' ''c3''] ''ui'' [] (forget_sample_world [trashed_c1] []))))
     (en_disk (snd (trash (forget_sample_env broken_store) [Subject ''chunk'' ''c3''] ''ui'' [] (forget_sample_world [trashed_c1] []))))"
  using trash_forgets [OF world_sync [of "[trashed_c1]" "[]"] chunk_valid [of "CHR ''c''" "''3''"], of "forget_sample_env broken_store" "''c3''" "''ui''" "[]" "''chunk''"]
  by simp

theorem restore_refused_witness:
  "fst (restore (forget_sample_env broken_store) ''fg_1''
     (fold (engine_run (forget_sample_env broken_store)) [RetryPurges, ApplyRemote, EmptyTrash (Some 30)]
       (snd (purge_subjects (forget_sample_env broken_store) ''fg_1'' [Subject ''chunk'' ''c1''] ''ui'' [] (forget_sample_world [trashed_c1] [])))))
   = Inl ''ForgetConflict''"
proof -
  have root: "rg_root (en_reg (forget_sample_world [trashed_c1] []))"
    using synced_mounted [OF world_sync [of "[trashed_c1]" "[]"]] by simp
  have "read_receipt ''fg_1'' (forget_sample_world [trashed_c1] []) = []"
    using world_receipts [of "[trashed_c1]" "[]"] by (simp add: read_receipt_def)
  then have "receipt_rows (dget (read_receipt ''fg_1'' (forget_sample_world [trashed_c1] [])) ''subjects'') = Inr []" by simp
  from restore_refused_once_purging [OF root this] show ?thesis by blast
qed

theorem permanent_forget_witness:
  "returns (forget_permanently (forget_sample_env erasing_store) [Subject ''chunk'' ''c3''] ''ui'' []) (forget_sample_world [trashed_c1] [])
     (\<lambda>receipt w'. all_done receipt \<and> subject_state (Subject ''chunk'' ''c3'') (en_reg w') (en_disk w') = Some ''purged'')"
  by (rule permanent_forget_purges [OF world_sync [of "[trashed_c1]"]])
    (simp_all add: chunk_valid world_receipts erasing_works covered_def chunk_adapters)

theorem failed_store_witness:
  "returns (forget_permanently (forget_sample_env broken_store) [Subject ''chunk'' ''c3''] ''ui'' []) (forget_sample_world [trashed_c1] [])
     (\<lambda>receipt w'. \<not> all_done receipt \<and> is_forgotten (sb_kind (Subject ''chunk'' ''c3'')) (sb_id (Subject ''chunk'' ''c3'')) (en_reg w') (en_disk w')
        \<and> subject_state (Subject ''chunk'' ''c3'') (en_reg w') (en_disk w') \<noteq> Some ''purged'')"
proof (rule failed_store_leaves_trashed [OF world_sync [of "[trashed_c1]"]])
  show "store_fails (forget_sample_env broken_store) (Subject ''chunk'' ''c3'')"
    by (simp add: store_fails_def chunk_adapters fails_def) (simp add: broken_store_def raise_exc_def)
  show "subject_state (Subject ''chunk'' ''c3'') (en_reg (forget_sample_world [trashed_c1] [])) (en_disk (forget_sample_world [trashed_c1] [])) \<noteq> Some ''purged''"
    using state_upcoming [OF upcoming_sync [OF world_sync [of "[trashed_c1]" "[]"]]] by (simp add: purged_in_def)
qed (simp_all add: chunk_valid world_receipts)

lemma sample_index: "rg_by_subject (en_reg (forget_sample_world [trashed_c1] rs)) = [(Subject ''chunk'' ''c1'', trashed_c1)]"
proof -
  have "rg_by_subject (en_reg (forget_sample_world [trashed_c1] rs)) = rg_by_subject (index_entries [trashed_c1] [] undefined)"
    by (rule synced_fields [OF world_sync]) simp
  then show ?thesis
    by (simp add: index_entries_def Let_def index_step_def forget_cancelled_def forget_wins_def bucket_step_def put_winner_def FORGOTTEN_STATES_def)
qed

theorem retry_finishes_witness:
  "returns (retry_started_purges (forget_sample_env erasing_store)) (forget_sample_world [trashed_c1] [(''fg_1'', Some (PDict []))])
     (\<lambda>_ w'. subject_state (Subject ''chunk'' ''c1'') (en_reg w') (en_disk w') = Some ''purged'')"
proof (rule retry_finishes_purges [OF world_sync [of "[trashed_c1]"] erasing_works])
  let ?w = "forget_sample_world [trashed_c1] [(''fg_1'', Some (PDict []))]"
  show "covered (forget_sample_env erasing_store) (map fst (rg_by_subject (en_reg ?w)))"
    by (simp add: sample_index covered_def chunk_adapters)
  show "list_all (\<lambda>f. receipt_ok (read_receipt f ?w)) (map fst (en_receipts ?w))"
    by (simp add: receipt_ok_def read_receipt_def world_receipts)
  show "map_of (rg_by_subject (en_reg ?w)) (Subject ''chunk'' ''c1'') = Some trashed_c1" by (simp add: sample_index)
  show "purge_started (fe_forget trashed_c1) ?w" by (simp add: purge_started_def world_receipts)
qed simp_all

theorem restore_in_outage_witness:
  "fst (restore (forget_sample_env erasing_store) ''fg_1'' (unmounted (forget_sample_world [trashed_c1] [(''fg_1'', Some (PDict []))]))) = Inr 1"
proof -
  let ?w = "forget_sample_world [trashed_c1] [(''fg_1'', Some (PDict []))]"
  have s: "in_sync (en_reg ?w) (en_disk ?w) [trashed_c1]" by (rule world_sync) simp
  have "registry_files (en_reg ?w) (en_disk (unmounted ?w)) = None" using s by (simp add: registry_files_def unmounted_def in_sync_def)
  then have "fst (reg_refresh (en_reg (unmounted ?w)) (en_disk (unmounted ?w))) = (en_reg ?w)\<lparr>rg_unreachable := True\<rparr>"
    using s by (simp add: reg_refresh_def Let_def in_sync_def unmounted_def)
  then have known: "known_entries ''fg_1'' (unmounted ?w) = [trashed_c1]"
    by (simp add: known_entries_def forget_entries_def sample_index)
  have "started ''fg_1'' ?w" using synced_mounted [OF s] by (simp add: receipts_such_def has_receipt_def)
  moreover have "restores_work (forget_sample_env erasing_store)" by (simp add: restores_work_def erasing_store_def ret_def)
  ultimately show ?thesis using restore_in_outage [of "''fg_1''" ?w "forget_sample_env erasing_store"] known by simp
qed

end
