(* ===== verification/Lineage.thy ===== *)
theory Lineage
  imports ProcessorJobs
begin

text \<open>
  Which version of a document or memory is current (\<^verbatim>\<open>core/lineage/current.py\<close>): versions carry the
  interval in which they hold, and a reader asks for what holds now or at a given time. A point in
  time is its timestamp; sums and conversions that leave the years 1 to 9999 raise.
\<close>

subsection \<open>Times\<close>

definition DATE_ONLY_LEN :: nat where "DATE_ONLY_LEN = 10"

definition first_instant :: rat where \<comment> \<open>\<open>datetime.min\<close>\<close>
  "first_instant = of_int ((1 - 719163) * 86400)"

definition end_instant :: rat where \<comment> \<open>the end of the year 9999\<close>
  "end_instant = of_int ((3652060 - 719163) * 86400)"

definition in_range :: "rat \<Rightarrow> string + rat" where
  "in_range t = (if first_instant \<le> t \<and> t < end_instant then Inr t else Inl ''OverflowError'')"

definition parse_time :: "pyval \<Rightarrow> string + rat option" where
  \<comment> \<open>a naive time is UTC; an aware one is converted, which may leave the range\<close>
  "parse_time v =
     (let text = strip (if truthy v then py_str v else [])
      in if text = [] then Inr None
         else case fromisoformat text of
                None \<Rightarrow> Inr None
              | Some d \<Rightarrow>
                  (case dt_offset d of
                     None \<Rightarrow> Inr (Some (timestamp (as_utc d)))
                   | Some z \<Rightarrow> (case in_range (timestamp d) of Inl e \<Rightarrow> Inl e | Inr t \<Rightarrow> Inr (Some t))))"

definition normalize_as_of :: "string option \<Rightarrow> string + rat option" where
  "normalize_as_of as_of =
     (case as_of of
        None \<Rightarrow> Inr None
      | Some a \<Rightarrow>
          if a = [] then Inr None
          else (let t = strip a
                in if length t = DATE_ONLY_LEN
                   then case parse_time (PStr t) of
                          Inl e \<Rightarrow> Inl e
                        | Inr None \<Rightarrow> Inr None
                        | Inr (Some day) \<Rightarrow>
                            (case in_range (day + 86400) of Inl e \<Rightarrow> Inl e | Inr next_day \<Rightarrow> Inr (Some (next_day - 1 / 1000000)))
                   else parse_time (PStr t)))"

subsection \<open>Rows\<close>

definition row_or_empty :: "pdict option \<Rightarrow> pdict" where
  "row_or_empty m = (case m of None \<Rightarrow> [] | Some d \<Rightarrow> d)"

definition is_current :: "pdict option \<Rightarrow> bool" where
  "is_current m = (let d = row_or_empty m in \<not> truthy (py_or (dget d ''valid_to'') (dget d ''superseded_by'')))"

definition is_current_memory :: "pdict option \<Rightarrow> bool" where
  "is_current_memory m = (truthy (dget (row_or_empty m) ''memory_type'') \<and> is_current m)"

definition int_or_1 :: "pyval \<Rightarrow> string + int" where
  \<comment> \<open>\<open>int(v or 1)\<close>\<close>
  "int_or_1 v =
     (if \<not> truthy v then Inr 1
      else case v of
             PInt i \<Rightarrow> Inr i
           | PBool b \<Rightarrow> Inr 1
           | PFloat x \<Rightarrow> Inr (if x < 0 then - \<lfloor>- x\<rfloor> else \<lfloor>x\<rfloor>)
           | PStr s \<Rightarrow> (case py_int_text s of None \<Rightarrow> Inl ''ValueError'' | Some i \<Rightarrow> Inr i)
           | _ \<Rightarrow> Inl ''TypeError'')"

definition version_fields :: "pdict option \<Rightarrow> string + pdict" where
  "version_fields meta =
     (let m = row_or_empty meta
      in case int_or_1 (dget m ''version'') of
           Inl e \<Rightarrow> Inl e
         | Inr v \<Rightarrow>
             Inr [(''valid_from'', PStr (gets m ''valid_from'')), (''valid_to'', PStr (gets m ''valid_to'')),
                  (''superseded_by'', PStr (gets m ''superseded_by'')), (''lineage_id'', PStr (gets m ''lineage_id'')),
                  (''version'', PInt v)])"

definition valid_at :: "pdict \<Rightarrow> rat option \<Rightarrow> string + bool" where
  "valid_at row as_of =
     (case as_of of
        None \<Rightarrow> Inr (is_current (Some row))
      | Some t \<Rightarrow>
          (case parse_time (dget row ''valid_from'') of
             Inl e \<Rightarrow> Inl e
           | Inr start \<Rightarrow>
               if (case start of None \<Rightarrow> False | Some s \<Rightarrow> t < s) then Inr False
               else (let end_text = gets row ''valid_to''
                     in if end_text = [] then Inr True
                        else case parse_time (PStr end_text) of
                               Inl e \<Rightarrow> Inl e
                             | Inr fin \<Rightarrow> Inr (case fin of None \<Rightarrow> False | Some f \<Rightarrow> t < f))))"

end
