(* ===== verification/LineageRules.thy ===== *)
theory LineageRules
  imports Lineage
begin

text \<open>
  What a reader of versions gets: of a chain of versions whose intervals meet, exactly one at any time
  from the start of the first, the last one when no time is given, and where the two readings differ.
\<close>

subsection \<open>Chains of versions\<close>

definition row_start :: "pdict \<Rightarrow> rat \<Rightarrow> bool" where
  "row_start row t \<longleftrightarrow> parse_time (dget row ''valid_from'') = Inr (Some t)"

definition row_end :: "pdict \<Rightarrow> rat \<Rightarrow> bool" where
  "row_end row t \<longleftrightarrow> gets row ''valid_to'' \<noteq> [] \<and> parse_time (PStr (gets row ''valid_to'')) = Inr (Some t)"

fun version_chain :: "rat \<Rightarrow> pdict list \<Rightarrow> bool" where
  \<comment> \<open>each version ends where the next one starts, and the last one is open\<close>
  "version_chain t [] = False"
| "version_chain t [row] = (row_start row t \<and> gets row ''valid_to'' = [] \<and> \<not> truthy (dget row ''superseded_by''))"
| "version_chain t (row # rows) = (row_start row t \<and> (\<exists>u. t \<le> u \<and> row_end row u \<and> version_chain u rows))"

lemma valid_open: "row_start row s \<Longrightarrow> gets row ''valid_to'' = [] \<Longrightarrow> valid_at row (Some t) = Inr (s \<le> t)"
  by (simp add: valid_at_def row_start_def not_less split: option.split)

lemma valid_closed: "row_start row s \<Longrightarrow> row_end row u \<Longrightarrow> valid_at row (Some t) = Inr (s \<le> t \<and> t < u)"
  by (auto simp: valid_at_def row_start_def row_end_def Let_def not_less)

lemma gets_empty: "gets row k = [] \<longleftrightarrow> \<not> truthy (dget row k) \<or> dget row k = PStr []"
  by (auto simp: gets_def Let_def py_str_empty)

lemma chain_before: "version_chain s rows \<Longrightarrow> t < s \<Longrightarrow> filter (\<lambda>row. valid_at row (Some t) = Inr True) rows = []"
proof (induction s rows rule: version_chain.induct)
  case (3 s row r rows)
  then obtain u where u: "row_start row s" "s \<le> u" "row_end row u" "version_chain u (r # rows)" by auto
  then show ?case using 3 valid_closed [OF u(1,3), of t] by simp
qed (auto simp: valid_open)

lemma chain_total: "version_chain s rows \<Longrightarrow> row \<in> set rows \<Longrightarrow> \<exists>b. valid_at row (Some t) = Inr b"
proof (induction s rows rule: version_chain.induct)
  case (3 s row' r rows)
  then obtain u where u: "row_start row' s" "row_end row' u" "version_chain u (r # rows)" by auto
  then show ?case using 3 valid_closed [OF u(1,2), of t] by auto
qed (auto simp: valid_open)

lemma chain_one: "version_chain s rows \<Longrightarrow> s \<le> t \<Longrightarrow> length (filter (\<lambda>row. valid_at row (Some t) = Inr True) rows) = 1"
proof (induction s rows rule: version_chain.induct)
  case (3 s row r rows)
  then obtain u where u: "row_start row s" "s \<le> u" "row_end row u" "version_chain u (r # rows)" by auto
  have v: "valid_at row (Some t) = Inr (t < u)" using valid_closed [OF u(1,3), of t] "3.prems"(2) by simp
  show ?case
  proof (cases "t < u")
    case True
    then show ?thesis using v chain_before [OF u(4) True] by simp
  next
    case False
    then show ?thesis using v "3.IH" [OF u(4)] by simp
  qed
qed (auto simp: valid_open)

lemma end_not_current: "row_end row u \<Longrightarrow> \<not> is_current (Some row)"
  by (auto simp: row_end_def is_current_def row_or_empty_def gets_def Let_def split: if_splits)

lemma chain_current: "version_chain s rows \<Longrightarrow> filter (\<lambda>row. is_current (Some row)) rows = [last rows]"
proof (induction s rows rule: version_chain.induct)
  case (2 s row)
  then show ?case by (auto simp: is_current_def row_or_empty_def gets_empty)
next
  case (3 s row r rows)
  then obtain u where "row_end row u" "version_chain u (r # rows)" by auto
  with 3 end_not_current show ?case by fastforce
qed simp

text \<open>
  C39. A reader sees exactly one version: of versions whose intervals meet end to end, at every time from
  the first start on exactly one is in force, and without a time exactly the last one is current.
\<close>
theorem one_version_in_force:
  assumes "version_chain s rows" "s \<le> t"
  shows "length (filter (\<lambda>row. valid_at row (Some t) = Inr True) rows) = 1
    \<and> filter (\<lambda>row. valid_at row None = Inr True) rows = [last rows]"
  using chain_one [OF assms] chain_current [OF assms(1)] by (simp add: valid_at_def)

subsection \<open>Where the two readings differ\<close>

text \<open>
  A version that was closed by \<open>superseded_by\<close> alone is not current, yet it is in force at every time
  from its start on: a question with a date gets it beside the version that replaced it.
\<close>
theorem superseded_in_force:
  assumes "row_start row s" "s \<le> t" "gets row ''valid_to'' = []" "truthy (dget row ''superseded_by'')"
  shows "valid_at row None = Inr False \<and> valid_at row (Some t) = Inr True"
  using valid_open [OF assms(1,3), of t] assms(2,4) by (simp add: valid_at_def is_current_def row_or_empty_def)

text \<open>
  A date covers its whole day, and the last day of the calendar is refused with an exception: the
  day after it cannot be represented.
\<close>
theorem as_of_covers_day:
  assumes "parse_time (PStr a) = Inr (Some day)" "length a = 10" "strip a = a"
  shows "normalize_as_of (Some a) =
    (if first_instant \<le> day + 86400 \<and> day + 86400 < end_instant then Inr (Some (day + 86400 - 1 / 1000000)) else Inl ''OverflowError'')"
proof -
  have "a \<noteq> []" using assms(2) by auto
  then show ?thesis using assms by (simp add: normalize_as_of_def DATE_ONLY_LEN_def in_range_def)
qed

end
