(* ===== verification/ReadFilter.thy ===== *)
theory ReadFilter
  imports Lineage ForgetEngine ForgetWrites
begin

text \<open>
  The filter every retrieval path applies (\<^verbatim>\<open>core/forget/read_filter.py\<close>): results whose passage, parent
  passage or artifact is forgotten are dropped, and of the rest those in force are kept. The filter asks
  for the forgotten ids of a kind; what it relies on is stated as a locale, which the registry meets.
\<close>

subsection \<open>The filter\<close>

definition in_ids :: "pyval \<Rightarrow> string list \<Rightarrow> string + bool" where
  \<comment> \<open>membership in a set of texts hashes the value first\<close>
  "in_ids v ids = (if hashable v then Inr (str_in v ids) else Inl ''TypeError'')"

definition keep_row :: "string list \<Rightarrow> string list \<Rightarrow> pdict \<Rightarrow> string + bool" where
  "keep_row chunks artifacts row =
     (case in_ids (dget row ''chunk_id'') chunks of
        Inl e \<Rightarrow> Inl e
      | Inr b \<Rightarrow>
          if b then Inr False
          else (case in_ids (py_or (dget row ''parent_chunk_id'') PNone) chunks of
                  Inl e \<Rightarrow> Inl e
                | Inr b \<Rightarrow>
                    if b then Inr False
                    else (case in_ids (dget row ''artifact_id'') artifacts of Inl e \<Rightarrow> Inl e | Inr b \<Rightarrow> Inr (\<not> b))))"

definition filter_sum :: "('a \<Rightarrow> string + bool) \<Rightarrow> 'a list \<Rightarrow> ('w, string, 'a list) eff" where
  \<comment> \<open>a comprehension whose condition may raise\<close>
  "filter_sum f = filter_eff (\<lambda>x. case f x of Inl e \<Rightarrow> raise_exc e | Inr b \<Rightarrow> ret b)"

definition drop_forgotten :: "(string \<Rightarrow> ('w, string, string list) eff) \<Rightarrow> pdict list \<Rightarrow> ('w, string, pdict list) eff" where
  "drop_forgotten ids results =
     (if results = [] then ret results
      else try_else (bind_eff (ids ''chunk'') (\<lambda>chunks. bind_eff (ids ''artifact'') (\<lambda>artifacts. ret (chunks, artifacts))))
             (\<lambda>_. ret results)
             (\<lambda>(chunks, artifacts).
               if chunks = [] \<and> artifacts = [] then ret results else filter_sum (keep_row chunks artifacts) results))"

definition visible :: "(string \<Rightarrow> ('w, string, string list) eff) \<Rightarrow> pdict list \<Rightarrow> string option \<Rightarrow> ('w, string, pdict list) eff" where
  "visible ids results as_of =
     (case normalize_as_of as_of of
        Inl e \<Rightarrow> raise_exc e
      | Inr t \<Rightarrow> bind_eff (drop_forgotten ids results) (filter_sum (\<lambda>row. valid_at row t)))"

definition registry_ids :: "string \<Rightarrow> (registry \<times> reg_disk, string, string list) eff" where
  \<comment> \<open>\<open>forgotten_ids\<close>\<close>
  "registry_ids kind = (\<lambda>(r, d). let (r1, d1) = reg_refresh r d in (Inr (ids_in_states kind FORGOTTEN_STATES r1), (r1, d1)))"

subsection \<open>What the filter relies on\<close>

definition value_known :: "(string \<Rightarrow> bool) \<Rightarrow> pyval \<Rightarrow> bool" where
  "value_known P v = (case v of PStr i \<Rightarrow> P i | _ \<Rightarrow> False)"

lemma str_in_known: "str_in v xs = value_known (\<lambda>i. i \<in> set xs) v"
  by (cases v) (simp_all add: str_in_def value_known_def)

definition hidden :: "(string \<Rightarrow> string \<Rightarrow> bool) \<Rightarrow> pdict \<Rightarrow> bool" where
  \<comment> \<open>its passage, its parent passage or its artifact is known as forgotten\<close>
  "hidden P row \<longleftrightarrow> value_known (P ''chunk'') (dget row ''chunk_id'')
     \<or> value_known (P ''chunk'') (py_or (dget row ''parent_chunk_id'') PNone) \<or> value_known (P ''artifact'') (dget row ''artifact_id'')"

lemma filter_fold: "(\<And>x. x \<in> set xs \<Longrightarrow> f x = ret (P x)) \<Longrightarrow>
    fold_eff (\<lambda>x acc. bind_eff (f x) (\<lambda>b. ret (if b then acc @ [x] else acc))) xs acc = ret (acc @ filter P xs)"
  by (induction xs arbitrary: acc) (simp_all add: bind_ret)

lemma filter_sum_ret: "(\<And>x. x \<in> set xs \<Longrightarrow> f x = Inr (P x)) \<Longrightarrow> filter_sum f xs = ret (filter P xs)"
  by (simp add: filter_sum_def filter_eff_def filter_fold)

definition row_ids_ok :: "pdict \<Rightarrow> bool" where
  \<comment> \<open>no list or dictionary where an id belongs\<close>
  "row_ids_ok row \<longleftrightarrow> hashable (dget row ''chunk_id'') \<and> hashable (dget row ''parent_chunk_id'') \<and> hashable (dget row ''artifact_id'')"

lemma keep_hidden:
  assumes "\<forall>i. i \<in> set c \<longleftrightarrow> P ''chunk'' i" "\<forall>i. i \<in> set a \<longleftrightarrow> P ''artifact'' i" "list_all row_ids_ok rows"
  shows "(if c = [] \<and> a = [] then ret rows else filter_sum (keep_row c a) rows) = ret (filter (\<lambda>row. \<not> hidden P row) rows)"
proof -
  have k: "keep_row c a row = Inr (\<not> hidden P row)" if "row \<in> set rows" for row
  proof -
    have "row_ids_ok row" using assms(3) that by (simp add: list_all_iff)
    then show ?thesis
      using assms(1,2) by (auto simp: keep_row_def in_ids_def row_ids_ok_def hidden_def str_in_known py_or_def)
  qed
  have "\<not> hidden P row" if "c = []" "a = []" for row
    using assms(1,2) that by (auto simp: hidden_def value_known_def split: pyval.split)
  then show ?thesis by (simp add: filter_sum_ret [where P = "\<lambda>row. \<not> hidden P row"] k)
qed

locale forget_query =
  fixes ids :: "string \<Rightarrow> ('w, string, string list) eff" and knows :: "'w \<Rightarrow> string \<Rightarrow> string \<Rightarrow> bool" and fine :: "'w \<Rightarrow> bool"
  assumes answers: "fine w \<Longrightarrow> returns (ids k) w (\<lambda>xs w'. fine w' \<and> knows w' = knows w \<and> (\<forall>i. i \<in> set xs \<longleftrightarrow> knows w k i))"
begin

lemma drops_hidden:
  assumes "fine w" "list_all row_ids_ok rows"
  shows "returns (drop_forgotten ids rows) w (\<lambda>out w'. fine w' \<and> knows w' = knows w \<and> out = filter (\<lambda>row. \<not> hidden (knows w) row) rows)"
proof (cases "rows = []")
  case True
  then show ?thesis using assms by (simp add: drop_forgotten_def returns_ret)
next
  case False
  have "returns (bind_eff (ids ''chunk'') (\<lambda>c. bind_eff (ids ''artifact'') (\<lambda>a. ret (c, a)))) w (\<lambda>(c, a) w'. fine w' \<and> knows w' = knows w
      \<and> (\<forall>i. i \<in> set c \<longleftrightarrow> knows w ''chunk'' i) \<and> (\<forall>i. i \<in> set a \<longleftrightarrow> knows w ''artifact'' i))"
    unfolding returns_bind returns_ret
    by (rule returns_mono [OF answers [OF assms(1), of "''chunk''"]], elim conjE,
        drule answers [where k = "''artifact''"], erule returns_mono, simp)
  then show ?thesis
    unfolding drop_forgotten_def if_not_P [OF False]
    by (intro returns_try, elim returns_mono) (clarsimp simp: returns_ret keep_hidden [where P = "knows w", OF _ _ assms(2)] split del: if_split)
qed

lemma shows_unhidden:
  assumes "fine w" "normalize_as_of as_of = Inr t" "list_all (\<lambda>row. row_ids_ok row \<and> (\<exists>b. valid_at row t = Inr b)) rows"
  shows "returns (visible ids rows as_of) w (\<lambda>out _. out = filter (\<lambda>row. \<not> hidden (knows w) row \<and> valid_at row t = Inr True) rows)"
proof -
  have f: "filter_sum (\<lambda>row. valid_at row t) (filter (\<lambda>row. \<not> hidden (knows w) row) rows)
      = ret (filter (\<lambda>row. valid_at row t = Inr True) (filter (\<lambda>row. \<not> hidden (knows w) row) rows))"
    by (rule filter_sum_ret) (use assms(3) in \<open>force simp: list_all_iff\<close>)
  have "list_all row_ids_ok rows" using assms(3) by (simp add: list_all_iff)
  then show ?thesis
    unfolding visible_def assms(2) sum.case returns_bind
    by (rule returns_mono [OF drops_hidden [OF assms(1)]]) (auto simp: f returns_ret conj_commute)
qed

end

subsection \<open>The registry answers\<close>

definition registry_fine :: "registry \<times> reg_disk \<Rightarrow> bool" where
  "registry_fine rd \<longleftrightarrow> (\<exists>es. upcoming (fst rd) (snd rd) es)"

definition registry_knows :: "registry \<times> reg_disk \<Rightarrow> string \<Rightarrow> string \<Rightarrow> bool" where
  "registry_knows rd k i = forgotten_in (fst (reg_refresh (fst rd) (snd rd))) (Subject k i)"

lemma ids_forgotten:
  assumes "in_sync r d es"
  shows "i \<in> set (ids_in_states k FORGOTTEN_STATES r) \<longleftrightarrow> forgotten_in r (Subject k i)"
proof -
  have "rg_by_subject r = rg_by_subject (index_entries es [] undefined)" by (rule synced_fields [OF assms])
  then have d: "distinct (map fst (rg_by_subject r))" using subjects_distinct by simp
  have "i \<in> set (ids_in_states k FORGOTTEN_STATES r) \<longleftrightarrow> (\<exists>e. (Subject k i, e) \<in> set (rg_by_subject r) \<and> fe_state e \<in> set FORGOTTEN_STATES)"
  proof
    assume "i \<in> set (ids_in_states k FORGOTTEN_STATES r)"
    then obtain s e where "(s, e) \<in> set (rg_by_subject r)" "sb_kind s = k" "sb_id s = i" "fe_state e \<in> set FORGOTTEN_STATES"
      by (auto simp: ids_in_states_def)
    then show "\<exists>e. (Subject k i, e) \<in> set (rg_by_subject r) \<and> fe_state e \<in> set FORGOTTEN_STATES" by (cases s) auto
  qed (force simp: ids_in_states_def)
  also have "\<dots> \<longleftrightarrow> (\<exists>e. map_of (rg_by_subject r) (Subject k i) = Some e \<and> fe_state e \<in> set FORGOTTEN_STATES)"
    using d by (simp add: map_of_eq_Some_iff)
  finally show ?thesis by (auto simp: forgotten_in_def state_in_def split: option.split)
qed

interpretation forgotten: forget_query registry_ids registry_knows registry_fine
proof unfold_locales
  fix k and w :: "registry \<times> reg_disk"
  assume "registry_fine w"
  then obtain r d es where w: "w = (r, d)" "upcoming r d es" by (cases w) (auto simp: registry_fine_def)
  obtain r1 d1 where rd: "reg_refresh r d = (r1, d1)" by fastforce
  have s: "in_sync r1 d1 es" using upcoming_refresh [OF w(2) rd] by blast
  note u = upcoming_sync [OF s]
  have "registry_knows (r1, d1) = registry_knows (r, d)"
    unfolding registry_knows_def fst_conv snd_conv forgotten_upcoming [OF u] forgotten_upcoming [OF w(2)] by (rule refl)
  moreover have "i \<in> set (ids_in_states k FORGOTTEN_STATES r1) \<longleftrightarrow> registry_knows (r, d) k i" for i
    using ids_forgotten [OF s] by (simp add: registry_knows_def rd)
  ultimately show "returns (registry_ids k) w (\<lambda>xs w'. registry_fine w' \<and> registry_knows w' = registry_knows w \<and> (\<forall>i. i \<in> set xs \<longleftrightarrow> registry_knows w k i))"
    using u by (auto simp: returns_def registry_ids_def w(1) rd registry_fine_def)
qed

text \<open>
  C17. Nothing forgotten is ever shown, and nothing else is withheld: over a readable registry, a reader gets
  exactly those results of which neither the passage nor its parent nor its artifact is forgotten and
  which are in force at the time that was asked for.
\<close>
theorem visible_rows:
  assumes "upcoming r d es" "normalize_as_of as_of = Inr t" "list_all (\<lambda>row. row_ids_ok row \<and> (\<exists>b. valid_at row t = Inr b)) rows"
  shows "fst (visible registry_ids rows as_of (r, d))
    = Inr (filter (\<lambda>row. \<not> hidden (\<lambda>k i. forgotten_in (fst (reg_refresh r d)) (Subject k i)) row \<and> valid_at row t = Inr True) rows)"
proof -
  have "registry_fine (r, d)" using assms(1) by (auto simp: registry_fine_def)
  moreover have "registry_knows (r, d) = (\<lambda>k i. forgotten_in (fst (reg_refresh r d)) (Subject k i))"
    by (intro ext) (simp add: registry_knows_def)
  ultimately show ?thesis
    using forgotten.shows_unhidden [OF _ assms(2,3), of "(r, d)"] by (auto elim!: returnsE)
qed

end
