(* ===== verification/LineageSamples.thy ===== *)
theory LineageSamples
  imports ForgetSamples LineageRules ReadFilter
begin

text \<open>
  Two versions of a document, one superseded version and a forgotten passage among results: the inputs
  at which the properties of the lineage and of the read filter apply.
\<close>

definition version_one :: pdict where
  "version_one = [(''chunk_id'', PStr ''c0''), (''valid_from'', PStr ''2026-01-01''), (''valid_to'', PStr ''2026-02-01'')]"

definition version_two :: pdict where
  "version_two = [(''chunk_id'', PStr ''c1''), (''valid_from'', PStr ''2026-02-01'')]"

definition version_superseded :: pdict where
  "version_superseded = [(''valid_from'', PStr ''2026-01-01''), (''superseded_by'', PStr ''c1'')]"

lemma date_time:
  assumes "fromisoformat t = Some d" "dt_offset d = None" "strip t = t" "t \<noteq> []"
  shows "parse_time (PStr t) = Inr (Some (timestamp (as_utc d)))"
  using assms by (simp add: parse_time_def )

definition the_day :: "nat \<Rightarrow> nat \<Rightarrow> nat \<Rightarrow> pydatetime" where
  "the_day y m d = \<lparr>dt_year = y, dt_month = m, dt_day = d, dt_hour = 0, dt_minute = 0, dt_second = 0, dt_micro = 0, dt_offset = None\<rparr>"

lemmas read_date = fromisoformat_def read_digits_def read_field_def read_char_def checked_time_def the_day_def is_digit_def digits_val_def digit_val_def
  dt_valid_def days_in_month_def leap_def

lemma iso_dates:
  "fromisoformat ''2026-01-01'' = Some (the_day 2026 1 1)"
  "fromisoformat ''2026-02-01'' = Some (the_day 2026 2 1)"
  "fromisoformat ''9999-12-31'' = Some (the_day 9999 12 31)"
  by (simp_all add: read_date)

lemma stripped_dates: "strip ''2026-01-01'' = ''2026-01-01''" "strip ''2026-02-01'' = ''2026-02-01''" "strip ''9999-12-31'' = ''9999-12-31''"
  by (simp_all add: strip_def py_isspace_def)

lemma january: "parse_time (PStr ''2026-01-01'') = Inr (Some 1767225600)"
  and february: "parse_time (PStr ''2026-02-01'') = Inr (Some 1769904000)"
  and last_day: "parse_time (PStr ''9999-12-31'') = Inr (Some 253402214400)"
  by (simp_all add: date_time [OF iso_dates(1)] date_time [OF iso_dates(2)] date_time [OF iso_dates(3)] stripped_dates
    the_day_def timestamp_def as_utc_def ordinal_def leap_def days_in_month_def upt_conv_Cons)

lemmas sample_versions = version_one_def version_two_def version_superseded_def dget_def january february row_start_def row_end_def

theorem one_version_witness:
  "length (filter (\<lambda>row. valid_at row (Some 1769904000) = Inr True) [version_one, version_two]) = 1
    \<and> filter (\<lambda>row. valid_at row None = Inr True) [version_one, version_two] = [last [version_one, version_two]]"
  by (rule one_version_in_force [where s = 1767225600])
    (auto simp: sample_versions gets_def intro!: exI [of _ "1769904000"])

theorem superseded_witness:
  "valid_at version_superseded None = Inr False \<and> valid_at version_superseded (Some 1769904000) = Inr True"
  by (rule superseded_in_force [where s = 1767225600]) (simp_all add: sample_versions gets_def)

theorem as_of_witness: "normalize_as_of (Some ''9999-12-31'') = Inl ''OverflowError''"
  using as_of_covers_day [OF last_day] by (simp add: end_instant_def stripped_dates)

theorem visible_rows_witness:
  "fst (visible registry_ids [version_one, version_two] None (sample_reg [trashed_c1], sample_read [trashed_c1])) = Inr []"
proof -
  let ?r = "sample_reg [trashed_c1]" and ?d = "sample_read [trashed_c1]"
  have s: "in_sync ?r ?d [trashed_c1]" by (rule sample_sync) simp
  have "forgotten_in (fst (reg_refresh ?r ?d)) (Subject ''chunk'' ''c1'')"
    using forgotten_upcoming [OF upcoming_sync [OF s]] trashed_live by blast
  then show ?thesis
    by (subst visible_rows [OF upcoming_sync [OF s], where t = None])
      (simp_all add: normalize_as_of_def valid_at_def is_current_def row_or_empty_def sample_versions hidden_def value_known_def row_ids_ok_def py_or_def)
qed

end
