(* ===== verification/ChunkIds.thy ===== *)
theory ChunkIds
  imports Prelude "HOL-Library.AList"
begin

text \<open>
  Content-addressed chunk ids (\<^verbatim>\<open>core/retrieval/chunk_ids.py\<close>): an id is the artifact's id and sixteen hex
  digits of a hash of the artifact, the level, the chunk's body and how many equal bodies came before.
  The hash is a parameter; on ASCII text the Unicode normalization is the identity.
\<close>

subsection \<open>Bodies\<close>

definition line_and_rest :: "string \<Rightarrow> (string \<times> string) option" where
  \<comment> \<open>the first line and what follows its line feed, \<open>None\<close> where there is none\<close>
  "line_and_rest s = (case dropWhile (\<lambda>c. c \<noteq> CHR 0x0A) s of [] \<Rightarrow> None | _ # r \<Rightarrow> Some (takeWhile (\<lambda>c. c \<noteq> CHR 0x0A) s, r))"

definition drop_context_line :: "string \<Rightarrow> string" where
  \<comment> \<open>a first line in square brackets\<close>
  "drop_context_line s =
     (case line_and_rest s of
        None \<Rightarrow> s
      | Some (l, r) \<Rightarrow> if 2 \<le> length l \<and> hd l = CHR ''['' \<and> last l = CHR '']'' then r else s)"

definition drop_header :: "string \<Rightarrow> string" where
  \<comment> \<open>a first line that names the source, the domain or the category, and the empty line after it\<close>
  "drop_header s =
     (case line_and_rest s of
        None \<Rightarrow> s
      | Some (l, r) \<Rightarrow>
          if list_ex (\<lambda>p. starts_with p l) [''Source: '', ''Domain: '', ''Category: ''] \<and> starts_with [CHR 0x0A] r then tl r else s)"

definition chunk_body :: "string \<Rightarrow> string" where
  "chunk_body text = py_join '' '' (split_ws (drop_header (drop_context_line text)))"

subsection \<open>Ids\<close>

definition hash_level :: "string option \<Rightarrow> string" where
  "hash_level level = (if level = Some ''parent'' then ''parent'' else ''child'')"

definition hashed_text :: "string \<Rightarrow> string option \<Rightarrow> string \<Rightarrow> nat \<Rightarrow> string" where
  "hashed_text artifact level body n = py_join [CHR 0x00] [artifact, hash_level level, body, show_nat n]"

definition content_chunk_id :: "(string \<Rightarrow> string) \<Rightarrow> string \<Rightarrow> string option \<Rightarrow> string \<Rightarrow> nat \<Rightarrow> string" where
  \<comment> \<open>the hex digest is a parameter\<close>
  "content_chunk_id sha artifact level body n = artifact @ ''_'' @ take 16 (sha (hashed_text artifact level body n))"

type_synonym seen_bodies = "((string \<times> string) \<times> nat) list" \<comment> \<open>of one artifact, by level and body\<close>

definition assign_chunk :: "(string \<Rightarrow> string) \<Rightarrow> string \<Rightarrow> string option \<Rightarrow> string \<Rightarrow> seen_bodies \<Rightarrow> string \<times> seen_bodies" where
  "assign_chunk sha artifact level text seen =
     (let k = (hash_level level, chunk_body text); n = (case map_of seen k of None \<Rightarrow> 0 | Some n \<Rightarrow> n)
      in (content_chunk_id sha artifact (Some (fst k)) (snd k) n, AList.update k (Suc n) seen))"

fun assign_chunks :: "(string \<Rightarrow> string) \<Rightarrow> string \<Rightarrow> (string option \<times> string) list \<Rightarrow> seen_bodies \<Rightarrow> string list" where
  \<comment> \<open>the chunks of an artifact in their stored order\<close>
  "assign_chunks sha artifact [] seen = []"
| "assign_chunks sha artifact ((level, text) # cs) seen =
     (let (i, seen') = assign_chunk sha artifact level text seen in i # assign_chunks sha artifact cs seen')"

subsection \<open>From an id to its artifact\<close>

definition all_digits :: "string \<Rightarrow> bool" where
  "all_digits s \<longleftrightarrow> s \<noteq> [] \<and> list_all is_digit s"

definition two_numbers :: "string \<Rightarrow> bool" where
  "two_numbers s = (let r = dropWhile is_digit s in takeWhile is_digit s \<noteq> [] \<and> starts_with ''_'' r \<and> all_digits (drop 1 r))"

definition positional_suffix :: "string \<Rightarrow> bool" where
  "positional_suffix s \<longleftrightarrow>
     starts_with ''_chunk_'' s \<and> all_digits (drop 7 s) \<or> starts_with ''_parent_'' s \<and> all_digits (drop 8 s)
     \<or> starts_with ''_child_'' s \<and> two_numbers (drop 7 s)"

definition is_lower_hex :: "char \<Rightarrow> bool" where
  "is_lower_hex c \<longleftrightarrow> is_digit c \<or> (let n = (of_char c :: nat) in 97 \<le> n \<and> n \<le> 102)"

definition content_suffix :: "string \<Rightarrow> bool" where
  "content_suffix s \<longleftrightarrow> length s = 17 \<and> hd s = CHR ''_'' \<and> list_all is_lower_hex (tl s)"

fun before_suffix :: "(string \<Rightarrow> bool) \<Rightarrow> string \<Rightarrow> string option" where
  \<comment> \<open>the search for a non-empty suffix: what lies before the first start that matches\<close>
  "before_suffix P [] = None"
| "before_suffix P (c # s) = (if P (c # s) then Some [] else map_option (\<lambda>p. c # p) (before_suffix P s))"

definition is_positional_chunk_id :: "string \<Rightarrow> bool" where
  "is_positional_chunk_id i = (before_suffix positional_suffix i \<noteq> None)"

definition positional_artifact_id :: "string \<Rightarrow> string option" where
  "positional_artifact_id i = before_suffix positional_suffix i"

definition chunk_artifact_id :: "string \<Rightarrow> string option" where
  "chunk_artifact_id i =
     (case positional_artifact_id i of
        Some (c # p) \<Rightarrow> Some (c # p)
      | _ \<Rightarrow> (case before_suffix content_suffix i of Some (c # p) \<Rightarrow> Some (c # p) | _ \<Rightarrow> None))"

end
