(* ===== verification/ForgetSubjects.thy ===== *)
theory ForgetSubjects
  imports ChunkIds ForgetEngine
begin

text \<open>
  Forget subjects from outside (\<^verbatim>\<open>app/services/forget/subjects.py\<close>): ids that are checked before they become
  file names or keys, and chunks resolved to the passages that retrieval serves. The lookup of passages
  is a parameter.
\<close>

definition SUBJECT_KINDS :: "string list" where
  "SUBJECT_KINDS = [''conversation'', ''artifact'', ''chunk'', ''memory'']"

definition is_id_char :: "char \<Rightarrow> bool" where
  "is_id_char c = (is_digit c \<or> is_lower_letter (lower_char c) \<or> c = CHR ''_'' \<or> c = CHR ''-'')"

definition id_match :: "nat \<Rightarrow> nat \<Rightarrow> string \<Rightarrow> bool" where
  \<comment> \<open>\<open>^[A-Za-z0-9_-]{lo,hi}$\<close>: a dollar also matches before a final line feed\<close>
  "id_match lo hi s =
     (let body = (if s \<noteq> [] \<and> last s = CHR 0x0A then butlast s else s)
      in list_all is_id_char body \<and> lo \<le> length body \<and> length body \<le> hi)"

definition validate_conversation_id :: "string \<Rightarrow> string + string" where
  "validate_conversation_id i = (if id_match 1 128 i then Inr i else Inl ''ValueError'')"

definition parse_subject :: "string \<Rightarrow> string \<Rightarrow> string + subject" where
  "parse_subject kind raw =
     (if kind = ''conversation''
      then (case validate_conversation_id raw of Inl e \<Rightarrow> Inl e | Inr i \<Rightarrow> Inr (Subject kind i))
      else if kind = ''chunk''
      then (if \<not> id_match 8 160 raw \<or> chunk_artifact_id raw = None then Inl ''ValueError'' else Inr (Subject kind raw))
      else if kind \<notin> set SUBJECT_KINDS then Inl ''ValueError''
      else if \<not> id_match 8 128 raw then Inl ''ValueError''
      else Inr (Subject kind raw))"

datatype subject_item =
    ItemDict pdict
  | ItemObject pyval pyval \<comment> \<open>its attributes \<open>kind\<close> and \<open>id\<close>, \<open>None\<close> where it has none\<close>

fun item_pair :: "subject_item \<Rightarrow> pyval \<times> pyval" where
  "item_pair (ItemDict d) = (dget d ''kind'', dget d ''id'')"
| "item_pair (ItemObject k i) = (py_or k PNone, py_or i PNone)"

fun parse_pairs :: "(pyval \<times> pyval) list \<Rightarrow> string + subject list" where
  "parse_pairs [] = Inr []"
| "parse_pairs ((k, v) # ps) =
     (case parse_subject (py_str k) (if truthy v then py_str v else []) of
        Inl e \<Rightarrow> Inl e
      | Inr s \<Rightarrow> (case parse_pairs ps of Inl e \<Rightarrow> Inl e | Inr ss \<Rightarrow> Inr (s # ss)))"

definition parse_subjects :: "string list \<Rightarrow> subject_item list \<Rightarrow> string + subject list" where
  "parse_subjects kinds items =
     (if items = [] then Inl ''ValueError''
      else
        (let pairs = map item_pair items
         in if list_ex (\<lambda>(k, _). \<not> hashable k) pairs then Inl ''TypeError''
            else if list_ex (\<lambda>(k, _). \<not> str_in k kinds) pairs then Inl ''ValueError''
            else parse_pairs pairs))"

definition passage_unit :: "(string \<Rightarrow> pdict option) \<Rightarrow> string \<Rightarrow> string" where
  \<comment> \<open>a child chunk stands for its parent; the metadata of a chunk's row is looked up\<close>
  "passage_unit rows i =
     (let meta = (case rows i of None \<Rightarrow> [] | Some m \<Rightarrow> m); parent = gets meta ''parent_chunk_id''
      in if parent \<noteq> [] \<and> dget meta ''chunk_level'' \<noteq> PStr ''parent'' then parent else i)"

definition passage_ids :: "(string \<Rightarrow> pdict option) \<Rightarrow> string list \<Rightarrow> string list" where
  "passage_ids rows is = fold (\<lambda>i out. let u = passage_unit rows i in if u \<in> set out then out else out @ [u]) is []"

definition resolve_passages :: "(string list \<Rightarrow> ('w, string, string \<Rightarrow> pdict option) eff) \<Rightarrow> subject list \<Rightarrow> ('w, string, subject list) eff" where
  \<comment> \<open>the rows of the chunks are fetched once\<close>
  "resolve_passages chunk_rows ss =
     (let chunks = map sb_id (filter (\<lambda>s. sb_kind s = ''chunk'') ss)
      in if chunks = [] then ret ss
         else bind_eff (chunk_rows chunks) (\<lambda>rows.
                ret (filter (\<lambda>s. sb_kind s \<noteq> ''chunk'') ss @ map (Subject ''chunk'') (passage_ids rows chunks))))"

end
