(* ===== verification/ForgetConfirm.thy ===== *)
theory ForgetConfirm
  imports ForgetSubjects
begin

text \<open>
  Confirm tokens (\<^verbatim>\<open>app/services/forget/confirm.py\<close>): a preview issues a token for exactly the subjects it
  showed, and executing takes only the token. The Redis server is a parameter with the two commands in
  use; so are the preview, the rows of chunks and the random token.
\<close>

subsection \<open>The server and the world\<close>

record 't token_server =
  tk_set :: "string \<Rightarrow> string \<Rightarrow> int \<Rightarrow> ('t, string, unit) eff" \<comment> \<open>key, value, seconds to live\<close>
  tk_getdel :: "string \<Rightarrow> ('t, string, string option) eff"

record ('t, 's) confirm_world =
  cw_tokens :: 't
  cw_engine :: "'s engine"

definition on_tokens :: "('t, string, 'a) eff \<Rightarrow> (('t, 's) confirm_world, string, 'a) eff" where
  "on_tokens m = (\<lambda>w. case m (cw_tokens w) of (r, t) \<Rightarrow> (r, w\<lparr>cw_tokens := t\<rparr>))"

definition on_engine :: "('s engine, string, 'a) eff \<Rightarrow> (('t, 's) confirm_world, string, 'a) eff" where
  "on_engine m = (\<lambda>w. case m (cw_engine w) of (r, e) \<Rightarrow> (r, w\<lparr>cw_engine := e\<rparr>))"

subsection \<open>Tokens\<close>

definition TTL_SECONDS :: int where "TTL_SECONDS = 15 * 60"

definition TOKEN_PREFIX :: string where "TOKEN_PREFIX = ''cerid:forget:confirm:''"

definition TOKEN_MAX_LEN :: nat where "TOKEN_MAX_LEN = 128"

definition token_value :: "subject list \<Rightarrow> string \<Rightarrow> string \<Rightarrow> string" where
  "token_value ss mode caller =
     json_dumps (PDict [(''caller'', PStr caller), (''mode'', PStr mode),
       (''subjects'', PList (map (\<lambda>s. PList [PStr (sb_kind s), PStr (sb_id s)]) ss))])"

definition issue_token :: "'t token_server \<Rightarrow> string \<Rightarrow> subject list \<Rightarrow> string \<Rightarrow> string \<Rightarrow> (('t, 's) confirm_world, string, string) eff" where
  "issue_token T token ss mode caller =
     then_eff (on_tokens (tk_set T (TOKEN_PREFIX @ token) (token_value ss mode caller) TTL_SECONDS)) (ret token)"

fun unpack_pair :: "pyval \<Rightarrow> subject option" where
  \<comment> \<open>\<open>Subject(str(k), str(i))\<close> of a value that unpacks into two\<close>
  "unpack_pair (PList [k, i]) = Some (Subject (py_str k) (py_str i))"
| "unpack_pair (PStr [k, i]) = Some (Subject [k] [i])"
| "unpack_pair (PDict [(k, _), (i, _)]) = Some (Subject k i)"
| "unpack_pair _ = None"

definition token_rows :: "pyval \<Rightarrow> pyval list option" where
  \<comment> \<open>iteration\<close>
  "token_rows v =
     (case v of
        PList rows \<Rightarrow> Some rows
      | PDict d \<Rightarrow> Some (map (PStr \<circ> fst) d)
      | PStr s \<Rightarrow> Some (map (\<lambda>c. PStr [c]) s)
      | _ \<Rightarrow> None)"

definition token_subjects :: "pyval \<Rightarrow> subject list option" where
  "token_subjects v =
     (case token_rows v of
        None \<Rightarrow> None
      | Some rows \<Rightarrow> if list_ex (\<lambda>r. unpack_pair r = None) rows then None else Some (List.map_filter unpack_pair rows))"

definition read_token :: "string \<Rightarrow> (subject list \<times> string \<times> string) option" where
  \<comment> \<open>subjects, mode and caller, \<open>None\<close> where the token is corrupt\<close>
  "read_token raw =
     (case json_loads raw of
        Some (PDict d) \<Rightarrow>
          if has_key d ''subjects'' \<and> has_key d ''mode'' \<and> has_key d ''caller''
          then map_option (\<lambda>ss. (ss, py_str (dget d ''mode''), py_str (dget d ''caller''))) (token_subjects (dget d ''subjects''))
          else None
      | _ \<Rightarrow> None)"

definition consume_token :: "'t token_server \<Rightarrow> string \<Rightarrow> string \<Rightarrow> (('t, 's) confirm_world, string, subject list \<times> string) eff" where
  "consume_token T token caller =
     (if token = [] \<or> length token > TOKEN_MAX_LEN then raise_exc ''ConfirmTokenError''
      else bind_eff (on_tokens (tk_getdel T (TOKEN_PREFIX @ token))) (\<lambda>raw.
        case raw of
          None \<Rightarrow> raise_exc ''ConfirmTokenError''
        | Some text \<Rightarrow>
            if text = [] then raise_exc ''ConfirmTokenError''
            else (case read_token text of
                    None \<Rightarrow> raise_exc ''ConfirmTokenError''
                  | Some (ss, mode, bound) \<Rightarrow>
                      if bound \<noteq> caller then raise_exc ''ConfirmTokenError'' else ret (ss, mode))))"

definition put_back_token :: "'t token_server \<Rightarrow> string \<Rightarrow> subject list \<Rightarrow> string \<Rightarrow> string \<Rightarrow> (('t, 's) confirm_world, string, unit) eff" where
  "put_back_token T token ss mode caller =
     on_tokens (tk_set T (TOKEN_PREFIX @ token) (token_value ss mode caller) TTL_SECONDS)"

definition preview_for_token ::
    "'t token_server \<Rightarrow> string \<Rightarrow> (string list \<Rightarrow> (('t, 's) confirm_world, string, string \<Rightarrow> pdict option) eff)
     \<Rightarrow> (subject list \<Rightarrow> (('t, 's) confirm_world, string, pdict \<times> subject list) eff)
     \<Rightarrow> (subject list \<Rightarrow> (('t, 's) confirm_world, string, unit) eff) option
     \<Rightarrow> subject list \<Rightarrow> string \<Rightarrow> string \<Rightarrow> (('t, 's) confirm_world, string, pdict) eff" where
  \<comment> \<open>the preview answers with its document and the subjects that it lists\<close>
  "preview_for_token T token chunk_rows preview may_forget ss mode caller =
     bind_eff (resolve_passages chunk_rows ss) (\<lambda>passages. bind_eff (preview passages) (\<lambda>(doc, shown).
       then_eff (case may_forget of None \<Rightarrow> ret () | Some may \<Rightarrow> may shown)
         (bind_eff (if shown = [] then ret [] else issue_token T token shown mode caller) (\<lambda>tok.
           ret (dset (dset (dset doc ''mode'' (PStr mode)) ''confirm_token'' (PStr tok)) ''expires_in''
                  (PInt (if tok = [] then 0 else TTL_SECONDS)))))))"

definition execute_confirmed ::
    "'s forget_env \<Rightarrow> 't token_server \<Rightarrow> string \<Rightarrow> string \<Rightarrow> string \<Rightarrow> string \<Rightarrow> (('t, 's) confirm_world, string, pdict) eff" where
  "execute_confirmed E T token caller by user =
     bind_eff (consume_token T token caller) (\<lambda>(ss, mode).
       bind_eff (gets_eff (\<lambda>w. rg_root (en_reg (cw_engine w)))) (\<lambda>available.
         if \<not> available then then_eff (put_back_token T token ss mode caller) (raise_exc ''ForgetUnavailable'')
         else if mode = ''permanent''
         then bind_eff (on_engine (forget_permanently E ss by user)) (\<lambda>receipt.
                ret [(''forget_id'', dget receipt ''forget_id''),
                     (''state'', PStr (if all_done receipt then ''purged'' else ''trashed_pending'')),
                     (''subjects'', PInt (int (length ss)))])
         else bind_eff (on_engine (trash E ss by user)) (\<lambda>f.
                ret [(''forget_id'', PStr f), (''state'', PStr ''trashed''), (''subjects'', PInt (int (length ss)))])))"

end
