(* ===== verification/ChunkIdRules.thy ===== *)
theory ChunkIdRules
  imports ChunkIds Json
begin

text \<open>
  What chunk ids promise: they name the body, its level and its occurrence and nothing else, so the id of
  a forgotten passage never names another text, and they lead back to their artifact.
\<close>

subsection \<open>The hashed text\<close>

lemma hash_level_idem [simp]: "hash_level (Some (hash_level l)) = hash_level l"
  by (simp add: hash_level_def)

lemma show_nat_no_nul: "CHR 0x00 \<notin> set (show_nat n)"
  using show_nat_digits [of n] by (force simp: is_digit_def)

lemma show_nat_inj: "show_nat m = show_nat n \<longleftrightarrow> m = n"
  by (metis digits_val_show)

lemma last_split:
  assumes "c \<notin> set ys" "c \<notin> set ys'"
  shows "xs @ c # ys = xs' @ c # ys' \<longleftrightarrow> xs = xs' \<and> ys = ys'"
proof
  have w: "takeWhile (\<lambda>x. x \<noteq> c) (rev (zs @ c # vs)) = rev vs" if "c \<notin> set vs" for zs vs
    using that by (subst rev_append, subst rev.simps, subst append_assoc, subst takeWhile_append2) auto
  assume e: "xs @ c # ys = xs' @ c # ys'"
  then have "rev ys = rev ys'" using w [OF assms(1), of xs] w [OF assms(2), of xs'] by simp
  with e show "xs = xs' \<and> ys = ys'" by simp
qed simp

lemma hashed_text_inj:
  "hashed_text a l b n = hashed_text a l' b' n' \<longleftrightarrow> hash_level l = hash_level l' \<and> b = b' \<and> n = n'"
proof -
  have "hashed_text a l b n = hashed_text a l' b' n' \<longleftrightarrow>
      hash_level l @ CHR 0x00 # b @ CHR 0x00 # show_nat n = hash_level l' @ CHR 0x00 # b' @ CHR 0x00 # show_nat n'"
    by (simp add: hashed_text_def)
  also have "\<dots> \<longleftrightarrow> hash_level l = hash_level l' \<and> b @ CHR 0x00 # show_nat n = b' @ CHR 0x00 # show_nat n'"
    by (auto simp: hash_level_def)
  finally show ?thesis by (simp add: last_split show_nat_no_nul show_nat_inj)
qed

subsection \<open>Assigned ids\<close>

definition chunk_key :: "string option \<times> string \<Rightarrow> string \<times> string" where
  "chunk_key c = (hash_level (fst c), chunk_body (snd c))"

definition occurrence :: "(string option \<times> string) list \<Rightarrow> nat \<Rightarrow> nat" where
  \<comment> \<open>how many equal chunks come before\<close>
  "occurrence cs i = length (filter (\<lambda>c. chunk_key c = chunk_key (cs ! i)) (take i cs))"

definition chunk_text :: "string \<Rightarrow> (string option \<times> string) list \<Rightarrow> nat \<Rightarrow> string" where
  "chunk_text a cs i = hashed_text a (fst (cs ! i)) (chunk_body (snd (cs ! i))) (occurrence cs i)"

lemma hashed_level: "hashed_text a (Some (hash_level l)) b n = hashed_text a l b n"
  by (simp add: hashed_text_def)

lemma length_assign [simp]: "length (assign_chunks sha a cs seen) = length cs"
  by (induction cs arbitrary: seen) (auto simp: assign_chunk_def Let_def)

lemma assign_from:
  assumes "i < length cs"
  shows "assign_chunks sha a cs seen ! i = content_chunk_id sha a (fst (cs ! i)) (chunk_body (snd (cs ! i)))
    ((case map_of seen (chunk_key (cs ! i)) of None \<Rightarrow> 0 | Some n \<Rightarrow> n) + occurrence cs i)"
  using assms
proof (induction cs arbitrary: i seen)
  case (Cons c cs)
  obtain l t where c: "c = (l, t)" by fastforce
  show ?case
  proof (cases i)
    case 0
    then show ?thesis
      by (simp add: c assign_chunk_def chunk_key_def occurrence_def content_chunk_id_def hashed_level Let_def)
  next
    case (Suc j)
    then show ?thesis
      using Cons by (auto simp: c assign_chunk_def chunk_key_def occurrence_def update_conv' Let_def)
  qed
qed simp

lemma assigned_id:
  "i < length cs \<Longrightarrow> assign_chunks sha a cs [] ! i = a @ ''_'' @ take 16 (sha (chunk_text a cs i))"
  by (simp add: assign_from content_chunk_id_def chunk_text_def)

lemma occurrence_less: "i < j \<Longrightarrow> j < length cs \<Longrightarrow> chunk_key (cs ! i) = chunk_key (cs ! j) \<Longrightarrow> occurrence cs i < occurrence cs j"
proof -
  assume a: "i < j" "j < length cs" "chunk_key (cs ! i) = chunk_key (cs ! j)"
  have t: "take j cs = take i cs @ cs ! i # drop (Suc i) (take j cs)"
  proof -
    have "take i (take j cs) = take i cs" "take j cs ! i = cs ! i" using a by (simp_all add: min_def)
    moreover have "take j cs = take i (take j cs) @ take j cs ! i # drop (Suc i) (take j cs)"
      by (rule id_take_nth_drop) (use a in simp)
    ultimately show ?thesis by metis
  qed
  have "length (filter P (take j cs)) = length (filter P (take i cs)) + length (filter P (cs ! i # drop (Suc i) (take j cs)))" for P
    by (metis t filter_append length_append)
  from this [of "\<lambda>c. chunk_key c = chunk_key (cs ! j)"] show ?thesis by (simp add: occurrence_def a(3))
qed

text \<open>
  C18. An id names its text: as long as the hashes that are compared do not collide, two chunks of two
  chunkings of a document have the same id exactly when level, body and the number of equal chunks
  before them agree, and no two chunks of one chunking share an id. A document that is chunked anew
  never hands a forgotten passage's id to another text.
\<close>
theorem chunk_ids_name_their_text:
  assumes "inj_on (\<lambda>t. take 16 (sha t)) (set (map (chunk_text a cs) [0..<length cs] @ map (chunk_text a cs') [0..<length cs']))"
    and "i < length cs" "j < length cs'"
  shows "(assign_chunks sha a cs [] ! i = assign_chunks sha a cs' [] ! j \<longleftrightarrow>
      chunk_key (cs ! i) = chunk_key (cs' ! j) \<and> occurrence cs i = occurrence cs' j)
    \<and> distinct (assign_chunks sha a cs [])"
proof
  have eq: "take 16 (sha x) = take 16 (sha y) \<longleftrightarrow> x = y"
    if "x \<in> chunk_text a cs ` {0..<length cs} \<union> chunk_text a cs' ` {0..<length cs'}" "y \<in> chunk_text a cs ` {0..<length cs} \<union> chunk_text a cs' ` {0..<length cs'}" for x y
    using inj_on_eq_iff [OF assms(1)] that by simp
  show "assign_chunks sha a cs [] ! i = assign_chunks sha a cs' [] ! j \<longleftrightarrow>
      chunk_key (cs ! i) = chunk_key (cs' ! j) \<and> occurrence cs i = occurrence cs' j"
    using assms(2,3) by (auto simp: assigned_id eq) (auto simp: chunk_text_def hashed_text_inj chunk_key_def)
  have "assign_chunks sha a cs [] ! k \<noteq> assign_chunks sha a cs [] ! m" if "k < m" "m < length cs" for k m
    using that occurrence_less [of k m cs]
    by (auto simp: assigned_id eq) (auto simp: chunk_text_def hashed_text_inj chunk_key_def)
  then show "distinct (assign_chunks sha a cs [])"
    unfolding distinct_conv_nth by (metis length_assign nat_neq_iff)
qed

subsection \<open>Back to the artifact\<close>

lemma before_suffix_first:
  "P s \<Longrightarrow> s \<noteq> [] \<Longrightarrow> (\<And>u v. a = u @ v \<Longrightarrow> v \<noteq> [] \<Longrightarrow> \<not> P (v @ s)) \<Longrightarrow> before_suffix P (a @ s) = Some a"
proof (induction a)
  case Nil
  then show ?case by (cases s) auto
next
  case (Cons c a)
  have "\<not> P ((c # a) @ s)" by (rule Cons.prems(3) [of "[]"]) simp_all
  moreover have "before_suffix P (a @ s) = Some a"
    using Cons.prems(1,2) by (rule Cons.IH) (rule Cons.prems(3), auto)
  ultimately show ?case by simp
qed

lemma before_suffix_none: "(\<And>u v. s = u @ v \<Longrightarrow> v \<noteq> [] \<Longrightarrow> \<not> P v) \<Longrightarrow> before_suffix P s = None"
proof (induction s)
  case (Cons c s)
  have "\<not> P (c # s)" by (rule Cons.prems [of "[]"]) simp_all
  moreover have "before_suffix P s = None" by (rule Cons.IH) (rule Cons.prems, auto)
  ultimately show ?case by simp
qed simp

lemma starts_hd: "starts_with (c # p) s \<Longrightarrow> s \<noteq> [] \<and> hd s = c"
  by (auto simp: starts_with_iff)

lemma positional_two: "positional_suffix s \<Longrightarrow> hd s = CHR ''_'' \<and> CHR ''_'' \<in> set (tl s)"
  by (auto simp: positional_suffix_def starts_with_iff)

lemma hex_not_underscore: "list_all is_lower_hex s \<Longrightarrow> CHR ''_'' \<notin> set s"
  by (auto simp: list_all_iff is_lower_hex_def is_digit_def)

lemma starts_other: "CHR ''_'' \<notin> set v \<Longrightarrow> v \<noteq> [] \<Longrightarrow> hd (v @ s) \<noteq> CHR ''_''"
  by (cases v) auto

text \<open>
  An id leads back to its artifact, in either of its forms, where artifact ids have no underscore: the
  chunks to erase with an artifact are found by their ids alone.
\<close>
theorem chunk_id_names_artifact:
  assumes "CHR ''_'' \<notin> set a" "a \<noteq> []" "list_all is_lower_hex (take 16 (sha (hashed_text a l b n)))" "16 \<le> length (sha (hashed_text a l b n))"
  shows "chunk_artifact_id (content_chunk_id sha a l b n) = Some a \<and> chunk_artifact_id (a @ ''_chunk_'' @ show_nat k) = Some a"
proof
  let ?s = "CHR ''_'' # take 16 (sha (hashed_text a l b n))"
  have a: "CHR ''_'' \<notin> set v" if "a = u @ v" for u v using assms(1) that by simp
  have c: "content_suffix ?s" using assms(3,4) by (simp add: content_suffix_def)
  have i: "content_chunk_id sha a l b n = a @ ?s" by (simp add: content_chunk_id_def)
  have "before_suffix content_suffix (a @ ?s) = Some a"
    by (rule before_suffix_first [where P = content_suffix, OF c]) (use a starts_other in \<open>auto simp: content_suffix_def\<close>)
  moreover have "before_suffix positional_suffix (a @ ?s) = None"
  proof (rule before_suffix_none)
    fix u v assume uv: "a @ ?s = u @ v" "v \<noteq> []"
    show "\<not> positional_suffix v"
    proof
      assume "positional_suffix v"
      then have v: "hd v = CHR ''_''" "CHR ''_'' \<in> set (tl v)" using positional_two by blast+
      have "count_list (a @ ?s) (CHR ''_'') = 1"
        using assms(1) hex_not_underscore [OF assms(3)] by (simp add: count_list_0_iff)
      moreover have "2 \<le> count_list v (CHR ''_'')"
        using v uv(2) by (cases v) (auto simp: count_list_0_iff Suc_le_eq neq0_conv [symmetric] simp del: neq0_conv)
      ultimately show False unfolding uv(1) by simp
    qed
  qed
  ultimately show "chunk_artifact_id (content_chunk_id sha a l b n) = Some a"
    using assms(2) unfolding i chunk_artifact_id_def positional_artifact_id_def by (cases a) auto
  have p: "positional_suffix (''_chunk_'' @ show_nat k)"
    using show_nat_digits [of k] show_nat_ne [of k] by (simp add: positional_suffix_def starts_with_def all_digits_def list_all_iff)
  have "before_suffix positional_suffix (a @ ''_chunk_'' @ show_nat k) = Some a"
  proof (rule before_suffix_first [where P = positional_suffix, OF p])
    fix u v assume "a = u @ v" "v \<noteq> []"
    then show "\<not> positional_suffix (v @ ''_chunk_'' @ show_nat k)" using a starts_other positional_two by metis
  qed simp
  then show "chunk_artifact_id (a @ ''_chunk_'' @ show_nat k) = Some a"
    using assms(2) unfolding chunk_artifact_id_def positional_artifact_id_def by (cases a) auto
qed

end
