(* ===== verification/ConfirmRules.thy ===== *)
theory ConfirmRules
  imports ForgetConfirm ForgetPurge ChunkIdRules
begin

text \<open>
  What subjects and tokens from outside can do: ids that pass are safe and valid for the engine; a token
  runs once, for its caller, and runs what was previewed.
\<close>

subsection \<open>Subjects\<close>

lemma id_match_chars:
  "id_match lo hi s \<Longrightarrow> list_all (\<lambda>c. is_id_char c \<or> c = CHR 0x0A) s \<and> lo \<le> length s \<and> length s \<le> Suc hi"
  by (cases s rule: rev_cases) (auto simp: id_match_def Let_def list_all_iff split: if_splits)

lemma parsed_subject:
  assumes "parse_subject kind raw = Inr s"
  shows "s = Subject kind raw \<and> kind \<in> set SUBJECT_KINDS \<and> list_all (\<lambda>c. is_id_char c \<or> c = CHR 0x0A) raw
    \<and> 1 \<le> length raw \<and> length raw \<le> 161 \<and> (kind = ''chunk'' \<longrightarrow> chunk_artifact_id raw \<noteq> None)"
proof (cases "kind = ''conversation''")
  case True
  then have "id_match 1 128 raw" "s = Subject kind raw"
    using assms by (auto simp: parse_subject_def validate_conversation_id_def split: if_splits)
  then show ?thesis using id_match_chars [of 1 128 raw] True by (simp add: SUBJECT_KINDS_def)
next
  case False
  then have "id_match 8 160 raw \<or> id_match 8 128 raw" "s = Subject kind raw" "kind \<in> set SUBJECT_KINDS"
      "kind = ''chunk'' \<longrightarrow> chunk_artifact_id raw \<noteq> None"
    using assms by (auto simp: parse_subject_def SUBJECT_KINDS_def split: if_splits)
  then show ?thesis using id_match_chars [of 8 160 raw] id_match_chars [of 8 128 raw] by auto
qed

definition safe_subject :: "subject \<Rightarrow> bool" where
  \<comment> \<open>no separator, dot or control character but a final line feed; a chunk id leads to an artifact\<close>
  "safe_subject s \<longleftrightarrow> sb_kind s \<in> set SUBJECT_KINDS \<and> list_all (\<lambda>c. is_id_char c \<or> c = CHR 0x0A) (sb_id s)
     \<and> 1 \<le> length (sb_id s) \<and> length (sb_id s) \<le> 161 \<and> (sb_kind s = ''chunk'' \<longrightarrow> chunk_artifact_id (sb_id s) \<noteq> None)"

lemma parsed_pairs: "parse_pairs ps = Inr ss \<Longrightarrow> length ss = length ps \<and> list_all safe_subject ss"
proof (induction ps arbitrary: ss rule: parse_pairs.induct)
  case (2 k v ps)
  obtain s where s: "parse_subject (py_str k) (if truthy v then py_str v else []) = Inr s"
    using "2.prems" by (auto split: sum.splits)
  then obtain ss' where ss: "parse_pairs ps = Inr ss'" "ss = s # ss'" using "2.prems" by (auto split: sum.splits)
  have "safe_subject s" using parsed_subject [OF s] by (simp add: safe_subject_def)
  then show ?case using "2.IH" [OF s ss(1)] ss(2) by simp
qed simp

lemma safe_valid: "list_all safe_subject ss \<Longrightarrow> valid_subjects ss"
  by (auto simp: list_all_iff safe_subject_def valid_subjects_def SUBJECT_KINDS_def FORGET_KINDS_def)

text \<open>
  C40. What a client names is checked before anything is recorded: subjects that are accepted are as many
  as were given, of the known kinds, with ids of at most 161 characters that cannot leave a folder, each
  chunk id leads to an artifact, and the engine may take them.
\<close>
theorem parsed_subjects_safe:
  assumes "parse_subjects kinds items = Inr ss"
  shows "length ss = length items \<and> ss \<noteq> [] \<and> list_all safe_subject ss \<and> valid_subjects ss"
proof -
  have p: "parse_pairs (map item_pair items) = Inr ss" "items \<noteq> []"
    using assms by (auto simp: parse_subjects_def Let_def split: if_splits)
  then have "length ss = length items" using parsed_pairs [OF p(1)] by simp
  moreover from this have "ss \<noteq> []" using p(2) by auto
  ultimately show ?thesis using parsed_pairs [OF p(1)] safe_valid by blast
qed

subsection \<open>The engine keeps its registry\<close>

definition rooted :: "'s engine \<Rightarrow> bool" where
  "rooted w \<longleftrightarrow> rg_root (en_reg w)"

lemma append_root: "reg_append now es r d = Inr (r', d') \<Longrightarrow> rg_root r' = rg_root r"
  by (auto simp: reg_append_def Let_def split: if_splits)

lemma rooted_keeps [keeps_intros]: "keeps rooted engine_tick" "keeps rooted require_registry" "keeps rooted refresh_eff"
    "keeps rooted (on_stores g)" "keeps rooted (mark_applied f st s)" "keeps rooted (forget_audit ac actor target detail)"
    "keeps rooted (write_receipt f receipt)" "keeps rooted (record_state E ss f st by user)"
proof -
  show t: "keeps rooted engine_tick" and "keeps rooted (mark_applied f st s)" and "keeps rooted (forget_audit ac actor target detail)"
    and "keeps rooted (write_receipt f receipt)"
    by (simp_all add: keeps_def rooted_def engine_tick_def mark_applied_def forget_audit_def write_receipt_def modify_eff_def)
  show "keeps rooted (on_stores g)" by (simp add: keeps_def rooted_def on_stores_def split: prod.split)
  show rr: "keeps rooted require_registry" by (simp add: keeps_def require_registry_def eff_defs)
  show "keeps rooted refresh_eff"
    by (auto simp: keeps_def rooted_def refresh_eff_def modify_eff_def dest: refresh_disk split: prod.split)
  have "keeps rooted (\<lambda>w. case reg_append x es (en_reg w) (en_disk w) of Inl e \<Rightarrow> (Inl e, w)
      | Inr (r, d) \<Rightarrow> (Inr (), w\<lparr>en_reg := r, en_receipts := receipts_of w, en_disk := d\<rparr>))" for x es
    by (auto simp: keeps_def rooted_def dest: append_root split: sum.split)
  then show "keeps rooted (record_state E ss f st by user)"
    unfolding record_state_def using t rr by (intro keeps_bind keeps_then)
qed

lemmas engine_parts = latest_eff_def entries_eff_def hide_subject_def utcnow_iso_def finish_purge_def purge_one_def run_adapter_def
  purge_subjects_def trash_def due_def filter_eff_def purge_groups_def each_adapter_def apply_entry_def apply_one_remote_def

lemma rooted_trash [keeps_intros]: "keeps rooted (trash E ss by user)"
  unfolding engine_parts Let_def by (intro keeps_intros)

lemma rooted_permanently [keeps_intros]: "keeps rooted (forget_permanently E ss by user)"
  unfolding forget_permanently_def engine_parts Let_def by (intro keeps_intros)

lemma rooted_run: "rooted w \<Longrightarrow> rooted (engine_run E call w)"
proof (cases call)
  case (Restore f)
  have "keeps rooted (restore E f)" unfolding restore_def engine_parts Let_def by (intro keeps_intros)
  then show "rooted w \<Longrightarrow> rooted (engine_run E call w)" using Restore by (simp add: keepsD)
next
  case (Purge f)
  have "keeps rooted (purge E f)" unfolding purge_def engine_parts Let_def by (intro keeps_intros)
  then show "rooted w \<Longrightarrow> rooted (engine_run E call w)" using Purge by (simp add: keepsD)
next
  case (EmptyTrash older)
  have "keeps rooted (empty_trash E older)" unfolding empty_trash_def engine_parts Let_def by (intro keeps_intros)
  then show "rooted w \<Longrightarrow> rooted (engine_run E call w)" using EmptyTrash by (simp add: keepsD)
next
  case RetryPurges
  have "keeps rooted (retry_started_purges E)" unfolding retry_started_purges_def engine_parts Let_def by (intro keeps_intros)
  then show "rooted w \<Longrightarrow> rooted (engine_run E call w)" using RetryPurges by (simp add: keepsD)
next
  case ApplyRemote
  have "keeps rooted (apply_remote E)" unfolding apply_remote_def engine_parts Let_def by (intro keeps_intros)
  then show "rooted w \<Longrightarrow> rooted (engine_run E call w)" using ApplyRemote by (simp add: keepsD)
qed (simp_all add: keepsD [OF rooted_trash] keepsD [OF rooted_permanently])

subsection \<open>The server\<close>

definition tokens_served :: "('t \<Rightarrow> string \<Rightarrow> string option) \<Rightarrow> 't token_server \<Rightarrow> bool" where
  \<comment> \<open>\<open>SET\<close> stores a value and \<open>GETDEL\<close> returns and removes it\<close>
  "tokens_served held T \<longleftrightarrow>
     (\<forall>k v ttl t. \<exists>t'. tk_set T k v ttl t = (Inr (), t') \<and> held t' = (held t)(k \<mapsto> v))
     \<and> (\<forall>k t. \<exists>t'. tk_getdel T k t = (Inr (held t k), t') \<and> held t' = (held t)(k := None))"

lemma served_set: "tokens_served held T \<Longrightarrow> \<exists>t'. tk_set T k v ttl t = (Inr (), t') \<and> held t' = (held t)(k \<mapsto> v)"
  and served_getdel: "tokens_served held T \<Longrightarrow> \<exists>t'. tk_getdel T k t = (Inr (held t k), t') \<and> held t' = (held t)(k := None)"
  by (simp_all add: tokens_served_def)

definition token_held :: "('t \<Rightarrow> string \<Rightarrow> string option) \<Rightarrow> ('t, 's) confirm_world \<Rightarrow> string \<Rightarrow> string option" where
  "token_held held w token = held (cw_tokens w) (TOKEN_PREFIX @ token)"

lemma read_back: "read_token (token_value ss mode caller) = Some (ss, mode, caller)"
proof -
  let ?d = "[(''caller'', PStr caller), (''mode'', PStr mode), (''subjects'', PList (map (\<lambda>s. PList [PStr (sb_kind s), PStr (sb_id s)]) ss))]"
  have "json_ok (PDict ?d)" by (simp add: list_all_iff)
  then have "json_loads (token_value ss mode caller) = Some (PDict ?d)" unfolding token_value_def by (rule json_roundtrip)
  moreover have "List.map_filter unpack_pair (map (\<lambda>s. PList [PStr (sb_kind s), PStr (sb_id s)]) ss) = ss"
    by (induction ss) (simp_all add: List.map_filter_def)
  then have "token_subjects (dget ?d ''subjects'') = Some ss"
    by (simp add: dget_Cons token_subjects_def token_rows_def list_ex_iff)
  ultimately show ?thesis by (simp add: read_token_def has_key_def dget_Cons)
qed

lemma value_nonempty: "token_value ss mode caller \<noteq> []"
proof -
  have "json_ok (PDict [(''caller'', PStr caller), (''mode'', PStr mode), (''subjects'', PList (map (\<lambda>s. PList [PStr (sb_kind s), PStr (sb_id s)]) ss))])"
    by (simp add: list_all_iff)
  from json_dumps_hd [OF this] show ?thesis unfolding token_value_def by (elim exE conjE) (simp only: list.simps not_False_eq_True)
qed

lemma issue_run:
  assumes "tokens_served held T"
  obtains t' where "issue_token T tok ss mode caller w = (Inr tok, w\<lparr>cw_tokens := t'\<rparr>)"
    "held t' = (held (cw_tokens w))(TOKEN_PREFIX @ tok \<mapsto> token_value ss mode caller)"
  using served_set [OF assms, of "TOKEN_PREFIX @ tok" "token_value ss mode caller" TTL_SECONDS "cw_tokens w"]
  by (auto simp: issue_token_def on_tokens_def eff_defs)

definition usable_token :: "string \<Rightarrow> bool" where
  "usable_token tok \<longleftrightarrow> tok \<noteq> [] \<and> length tok \<le> TOKEN_MAX_LEN"

definition confirmed :: "string option \<Rightarrow> string \<Rightarrow> (subject list \<times> string) option" where
  \<comment> \<open>what the stored text lets this caller do\<close>
  "confirmed raw caller =
     (case raw of
        None \<Rightarrow> None
      | Some text \<Rightarrow> if text = [] then None else (case read_token text of None \<Rightarrow> None | Some (ss, mode, bound) \<Rightarrow> if bound = caller then Some (ss, mode) else None))"

lemma consume_run:
  assumes "tokens_served held T"
  obtains t' where "consume_token T tok caller w = ((if usable_token tok then (case confirmed (token_held held w tok) caller of None \<Rightarrow> Inl ''ConfirmTokenError'' | Some x \<Rightarrow> Inr x)
      else Inl ''ConfirmTokenError''), w\<lparr>cw_tokens := t'\<rparr>)"
    "held t' = (if usable_token tok then (held (cw_tokens w))(TOKEN_PREFIX @ tok := None) else held (cw_tokens w))"
proof (cases "usable_token tok")
  case True
  obtain t' where t: "tk_getdel T (TOKEN_PREFIX @ tok) (cw_tokens w) = (Inr (token_held held w tok), t')"
      "held t' = (held (cw_tokens w))(TOKEN_PREFIX @ tok := None)"
    using served_getdel [OF assms, of "TOKEN_PREFIX @ tok" "cw_tokens w"] by (auto simp: token_held_def)
  show ?thesis
    by (rule that [of t']) (use True t in \<open>auto simp: consume_token_def usable_token_def on_tokens_def eff_defs confirmed_def split: option.split\<close>)
next
  case False
  show ?thesis by (rule that [of "cw_tokens w"]) (use False in \<open>auto simp: consume_token_def usable_token_def eff_defs\<close>)
qed

definition confirmed_run :: "'s forget_env \<Rightarrow> string \<Rightarrow> string \<Rightarrow> subject list \<Rightarrow> string \<Rightarrow> 's engine \<Rightarrow> 's engine" where
  "confirmed_run E by user ss mode w = (if mode = ''permanent'' then snd (forget_permanently E ss by user w) else snd (trash E ss by user w))"

lemma execute_run:
  assumes "tokens_served held T" "rooted (cw_engine w)"
  shows "token_held held (snd (execute_confirmed E T tok caller by user w)) =
      (\<lambda>k. if usable_token tok \<and> k = tok then None else token_held held w k)"
    and "cw_engine (snd (execute_confirmed E T tok caller by user w)) =
      (case confirmed (token_held held w tok) caller of
         None \<Rightarrow> cw_engine w
       | Some (ss, mode) \<Rightarrow> if usable_token tok then confirmed_run E by user ss mode (cw_engine w) else cw_engine w)"
    and "usable_token tok \<and> confirmed (token_held held w tok) caller \<noteq> None \<or>
      fst (execute_confirmed E T tok caller by user w) = Inl ''ConfirmTokenError''"
proof -
  obtain t' where c: "consume_token T tok caller w = ((if usable_token tok then (case confirmed (token_held held w tok) caller of None \<Rightarrow> Inl ''ConfirmTokenError'' | Some x \<Rightarrow> Inr x)
      else Inl ''ConfirmTokenError''), w\<lparr>cw_tokens := t'\<rparr>)"
    and t: "held t' = (if usable_token tok then (held (cw_tokens w))(TOKEN_PREFIX @ tok := None) else held (cw_tokens w))"
    by (rule consume_run [OF assms(1), of tok caller w]) blast
  note d = execute_confirmed_def bind_eff_def c gets_eff_def on_engine_def ret_def confirmed_run_def
  have r: "rg_root (en_reg (cw_engine w))" using assms(2) by (simp add: rooted_def)
  have x: "(cw_tokens (snd (execute_confirmed E T tok caller by user w)) = t') \<and>
      cw_engine (snd (execute_confirmed E T tok caller by user w)) =
      (case confirmed (token_held held w tok) caller of
         None \<Rightarrow> cw_engine w
       | Some (ss, mode) \<Rightarrow> if usable_token tok then confirmed_run E by user ss mode (cw_engine w) else cw_engine w)"
    using r by (auto simp: d split: option.split prod.split sum.split)
  then show "cw_engine (snd (execute_confirmed E T tok caller by user w)) =
      (case confirmed (token_held held w tok) caller of
         None \<Rightarrow> cw_engine w
       | Some (ss, mode) \<Rightarrow> if usable_token tok then confirmed_run E by user ss mode (cw_engine w) else cw_engine w)" by blast
  show "token_held held (snd (execute_confirmed E T tok caller by user w)) =
      (\<lambda>k. if usable_token tok \<and> k = tok then None else token_held held w k)"
    using x t by (auto simp: token_held_def fun_eq_iff)
  show "usable_token tok \<and> confirmed (token_held held w tok) caller \<noteq> None \<or>
      fst (execute_confirmed E T tok caller by user w) = Inl ''ConfirmTokenError''"
    by (cases "confirmed (token_held held w tok) caller") (auto simp: d)
qed

subsection \<open>Tokens in use\<close>

inductive confirm_step ::
    "'s forget_env \<Rightarrow> 't token_server \<Rightarrow> ('t \<Rightarrow> string \<Rightarrow> string option) \<Rightarrow> string set \<Rightarrow> string set
     \<Rightarrow> ('t, 's) confirm_world \<Rightarrow> ('t, 's) confirm_world \<Rightarrow> bool"
  for E T held new gone where
  \<comment> \<open>what happens between two calls: tokens of the first set are issued, of the second used up or expired\<close>
  issues: "tok \<in> new \<Longrightarrow> confirm_step E T held new gone w (snd (issue_token T tok ss mode caller w))"
| executes: "tok \<in> gone \<Longrightarrow> confirm_step E T held new gone w (snd (execute_confirmed E T tok caller who user w))"
| expires: "tok \<in> gone \<Longrightarrow> held t = (held (cw_tokens w))(TOKEN_PREFIX @ tok := None) \<Longrightarrow> confirm_step E T held new gone w (w\<lparr>cw_tokens := t\<rparr>)"
| forgets: "confirm_step E T held new gone w (w\<lparr>cw_engine := engine_run E call (cw_engine w)\<rparr>)"

lemma rooted_execute:
  assumes "tokens_served held T" "rooted (cw_engine w)"
  shows "rooted (cw_engine (snd (execute_confirmed E T tok caller by user w)))"
proof -
  have "rooted (confirmed_run E by user ss mode (cw_engine w))" for ss mode
    using assms(2) by (simp add: confirmed_run_def keepsD [OF rooted_trash] keepsD [OF rooted_permanently])
  then show ?thesis using assms by (auto simp: execute_run(2) [OF assms] split: option.split)
qed

lemma issue_effect:
  assumes "tokens_served held T"
  shows "cw_engine (snd (issue_token T tok ss mode caller w)) = cw_engine w
    \<and> token_held held (snd (issue_token T tok ss mode caller w)) = (token_held held w)(tok \<mapsto> token_value ss mode caller)"
  by (rule issue_run [OF assms, of tok ss mode caller w]) (auto simp: token_held_def fun_eq_iff)

lemma confirm_step_keeps:
  assumes "confirm_step E T held new gone w w'" "tokens_served held T" "rooted (cw_engine w)"
  shows "rooted (cw_engine w') \<and> (tok \<notin> new \<longrightarrow> token_held held w' tok = token_held held w tok \<or> tok \<in> gone \<and> token_held held w' tok = None)"
  using assms(1)
proof cases
  case (issues t ss mode caller)
  then show ?thesis using issue_effect [OF assms(2), of t ss mode caller w] assms(3) by auto
next
  case (executes t caller who user)
  then show ?thesis
    using rooted_execute [OF assms(2,3)] execute_run(1) [OF assms(2,3), of E t caller who user] by auto
next
  case (expires t s)
  then show ?thesis using assms(3) by (auto simp: token_held_def)
next
  case (forgets call)
  then show ?thesis using assms(3) by (simp add: rooted_run token_held_def)
qed

lemma confirm_steps_keep:
  assumes "(confirm_step E T held new gone)\<^sup>*\<^sup>* w w'" "tokens_served held T" "rooted (cw_engine w)" "tok \<notin> new"
  shows "rooted (cw_engine w') \<and> (token_held held w' tok = token_held held w tok \<or> tok \<in> gone \<and> token_held held w' tok = None)"
  using assms(1)
proof induction
  case (step y z)
  then show ?case using confirm_step_keeps [OF step(2) assms(2), of tok] assms(4) by auto
qed (use assms(3) in simp)

lemma execute_unavailable:
  assumes "tokens_served held T" "\<not> rooted (cw_engine w)" "usable_token tok" "confirmed (token_held held w tok) caller = Some (ss, mode)"
  shows "fst (execute_confirmed E T tok caller by user w) = Inl ''ForgetUnavailable''
    \<and> cw_engine (snd (execute_confirmed E T tok caller by user w)) = cw_engine w
    \<and> token_held held (snd (execute_confirmed E T tok caller by user w)) = (token_held held w)(tok \<mapsto> token_value ss mode caller)"
proof -
  obtain t' where c: "consume_token T tok caller w = (Inr (ss, mode), w\<lparr>cw_tokens := t'\<rparr>)"
      "held t' = (held (cw_tokens w))(TOKEN_PREFIX @ tok := None)"
    by (rule consume_run [OF assms(1), of tok caller w]) (use assms(3,4) in simp)
  obtain t2 where t: "tk_set T (TOKEN_PREFIX @ tok) (token_value ss mode caller) TTL_SECONDS t' = (Inr (), t2)"
      "held t2 = (held t')(TOKEN_PREFIX @ tok \<mapsto> token_value ss mode caller)"
    using served_set [OF assms(1)] by blast
  show ?thesis
    using assms(2) c(2) t by (auto simp: execute_confirmed_def rooted_def eff_defs c(1) put_back_token_def on_tokens_def token_held_def fun_eq_iff)
qed

lemma execute_refused:
  assumes "tokens_served held T" "\<not> (usable_token tok \<and> confirmed (token_held held w tok) caller \<noteq> None)"
  shows "fst (execute_confirmed E T tok caller by user w) = Inl ''ConfirmTokenError''
    \<and> cw_engine (snd (execute_confirmed E T tok caller by user w)) = cw_engine w
    \<and> token_held held (snd (execute_confirmed E T tok caller by user w)) =
        (\<lambda>k. if usable_token tok \<and> k = tok then None else token_held held w k)"
proof -
  obtain t' where c: "consume_token T tok caller w = (Inl ''ConfirmTokenError'', w\<lparr>cw_tokens := t'\<rparr>)"
      "held t' = (if usable_token tok then (held (cw_tokens w))(TOKEN_PREFIX @ tok := None) else held (cw_tokens w))"
    by (rule consume_run [OF assms(1), of tok caller w])
      (use assms(2) in \<open>cases "confirmed (token_held held w tok) caller"; auto split: if_splits\<close>)
  then show ?thesis by (auto simp: execute_confirmed_def eff_defs token_held_def fun_eq_iff)
qed

lemma execute_tokens:
  assumes "tokens_served held T"
  shows "k \<noteq> tok \<Longrightarrow> token_held held (snd (execute_confirmed E T tok caller by user w)) k = token_held held w k"
    and "fst (execute_confirmed E T tok caller by user w) = Inl ''ForgetUnavailable''
      \<or> (usable_token tok \<longrightarrow> token_held held (snd (execute_confirmed E T tok caller by user w)) tok = None)"
proof -
  consider (no) "\<not> (usable_token tok \<and> confirmed (token_held held w tok) caller \<noteq> None)" | (yes) "rooted (cw_engine w)"
    | (off) ss mode where "\<not> rooted (cw_engine w)" "usable_token tok" "confirmed (token_held held w tok) caller = Some (ss, mode)"
    by fastforce
  note cs = this
  show "k \<noteq> tok \<Longrightarrow> token_held held (snd (execute_confirmed E T tok caller by user w)) k = token_held held w k"
    by (cases rule: cs) (simp_all add: execute_refused [OF assms] execute_run(1) [OF assms] execute_unavailable [OF assms])
  show "fst (execute_confirmed E T tok caller by user w) = Inl ''ForgetUnavailable''
      \<or> (usable_token tok \<longrightarrow> token_held held (snd (execute_confirmed E T tok caller by user w)) tok = None)"
    by (cases rule: cs) (simp_all add: execute_refused [OF assms] execute_run(1) [OF assms] execute_unavailable [OF assms])
qed

lemma confirm_step_spent:
  assumes "confirm_step E T held (- {tok}) gone w w'" "tokens_served held T" "token_held held w tok = None"
  shows "token_held held w' tok = None"
  using assms(1)
proof cases
  case (issues t ss mode caller)
  then show ?thesis using issue_effect [OF assms(2), of t ss mode caller w] assms(3) by auto
next
  case (executes t caller who user)
  then show ?thesis
    using execute_tokens(1) [OF assms(2), of tok t E caller who user w] execute_refused [OF assms(2), of t w caller E who user] assms(3)
    by (cases "t = tok") (simp_all add: confirmed_def)
next
  case (expires t s)
  then show ?thesis using assms(3) by (auto simp: token_held_def)
next
  case (forgets call)
  then show ?thesis using assms(3) by (simp add: token_held_def)
qed

lemma confirm_steps_spent:
  assumes "(confirm_step E T held (- {tok}) gone)\<^sup>*\<^sup>* w w'" "tokens_served held T" "token_held held w tok = None"
  shows "token_held held w' tok = None"
  using assms(1) by induction (use assms(2,3) confirm_step_spent in \<open>blast+\<close>)

text \<open>
  C8. A token works once: after any attempt to execute it, also one that was refused, it is refused to
  every caller and changes nothing, whatever else happened in between, as long as it is not issued again.
  The one attempt that does not use it up is the one that is answered with \<open>ForgetUnavailable\<close>, because
  no sync folder is configured: the token is put back.
\<close>
theorem token_works_once:
  assumes "tokens_served held T" "fst (execute_confirmed E T tok caller by user w) \<noteq> Inl ''ForgetUnavailable''"
    and "(confirm_step E T held (- {tok}) UNIV)\<^sup>*\<^sup>* (snd (execute_confirmed E T tok caller by user w)) w'"
  shows "fst (execute_confirmed E T tok caller' by' user' w') = Inl ''ConfirmTokenError''
    \<and> cw_engine (snd (execute_confirmed E T tok caller' by' user' w')) = cw_engine w'"
proof -
  have "usable_token tok \<Longrightarrow> token_held held (snd (execute_confirmed E T tok caller by user w)) tok = None"
    using execute_tokens(2) [OF assms(1), of E tok caller "by" user w] assms(2) by blast
  then have "usable_token tok \<Longrightarrow> token_held held w' tok = None"
    by (rule confirm_steps_spent [OF assms(3,1)])
  then have "\<not> (usable_token tok \<and> confirmed (token_held held w' tok) caller' \<noteq> None)" by (auto simp: confirmed_def)
  from execute_refused [OF assms(1) this, of E "by'" user'] show ?thesis by blast
qed

text \<open>
  C9. What runs is what was previewed, for the caller it was shown to: a token that was issued and neither
  used nor expired since runs exactly its subjects in its mode when its own caller executes it, and
  changes nothing when anybody else does.
\<close>
theorem token_runs_what_was_previewed:
  assumes "tokens_served held T" "rg_root (en_reg (cw_engine w))" "tok \<noteq> []" "length tok \<le> 128"
    and "(confirm_step E T held (- {tok}) (- {tok}))\<^sup>*\<^sup>* (snd (issue_token T tok ss mode caller w)) w'"
  shows "cw_engine (snd (execute_confirmed E T tok caller' by user w')) =
      (if caller' \<noteq> caller then cw_engine w'
       else if mode = ''permanent'' then snd (forget_permanently E ss by user (cw_engine w'))
       else snd (trash E ss by user (cw_engine w')))"
proof -
  note i = issue_effect [OF assms(1), of tok ss mode caller w]
  have "rooted (cw_engine (snd (issue_token T tok ss mode caller w)))" using i assms(2) by (simp add: rooted_def)
  from confirm_steps_keep [OF assms(5,1) this, of tok] have k: "rooted (cw_engine w')" "token_held held w' tok = Some (token_value ss mode caller)"
    using i by auto
  have "usable_token tok" using assms(3,4) by (simp add: usable_token_def TOKEN_MAX_LEN_def)
  then show ?thesis
    by (auto simp: execute_run(2) [OF assms(1) k(1)] k(2) confirmed_def read_back value_nonempty confirmed_run_def)
qed

text \<open>Where no registry is configured nothing runs and the token is put back for a retry.\<close>

lemma token_survives_unavailable:
  assumes "tokens_served held T" "\<not> rg_root (en_reg (cw_engine w))" "usable_token tok" "token_held held w tok = Some (token_value ss mode caller)"
  shows "fst (execute_confirmed E T tok caller by user w) = Inl ''ForgetUnavailable''
    \<and> token_held held (snd (execute_confirmed E T tok caller by user w)) = token_held held w"
  using execute_unavailable [OF assms(1), of w tok caller ss mode E "by" user] assms(2,3,4)
  by (auto simp: rooted_def confirmed_def read_back value_nonempty)

end
