(* ===== verification/ConfirmSamples.thy ===== *)
theory ConfirmSamples
  imports ConfirmRules ForgetSamples
begin

text \<open>
  An in-memory token server, a selection with one artifact and two chunkings of a document: the inputs at
  which the properties of chunk ids, subjects and confirm tokens apply.
\<close>

definition memory_tokens :: "(string \<Rightarrow> string option) token_server" where
  "memory_tokens = \<lparr>tk_set = (\<lambda>k v ttl t. (Inr (), t(k \<mapsto> v))), tk_getdel = (\<lambda>k t. (Inr (t k), t(k := None)))\<rparr>"

lemma memory_served: "tokens_served (\<lambda>t. t) memory_tokens"
  by (simp add: tokens_served_def memory_tokens_def)

definition confirm_sample :: "(string \<Rightarrow> string option, subject list) confirm_world" where
  "confirm_sample = \<lparr>cw_tokens = (\<lambda>_. None), cw_engine = forget_sample_world [trashed_c1] []\<rparr>"

lemma confirm_rooted: "rg_root (en_reg (cw_engine confirm_sample))"
  using world_sync [of "[trashed_c1]" "[]"] by (simp add: confirm_sample_def in_sync_def)

abbreviation sample_execute where
  "sample_execute caller \<equiv> execute_confirmed (forget_sample_env erasing_store) memory_tokens ''t0'' caller ''mcp'' []"

abbreviation issued_sample where
  "issued_sample \<equiv> snd (issue_token memory_tokens ''t0'' [Subject ''chunk'' ''c3''] ''permanent'' ''a'' confirm_sample)"

theorem token_works_once_witness:
  "fst (sample_execute ''a'' (snd (sample_execute ''b'' issued_sample))) = Inl ''ConfirmTokenError''
   \<and> cw_engine (snd (sample_execute ''a'' (snd (sample_execute ''b'' issued_sample)))) = cw_engine (snd (sample_execute ''b'' issued_sample))"
proof -
  have "confirmed (token_held (\<lambda>t. t) issued_sample ''t0'') ''b'' = None"
    using issue_effect [OF memory_served, of "''t0''" "[Subject ''chunk'' ''c3'']" "''permanent''" "''a''" confirm_sample]
    by (simp add: confirmed_def read_back)
  then have "fst (sample_execute ''b'' issued_sample) \<noteq> Inl ''ForgetUnavailable''"
    using execute_refused [OF memory_served, of "''t0''" issued_sample "''b''" "forget_sample_env erasing_store" "''mcp''" "[]"] by simp
  from token_works_once [OF memory_served this rtranclp.rtrancl_refl] show ?thesis .
qed

theorem token_runs_witness:
  "cw_engine (snd (sample_execute ''a'' (snd (issue_token memory_tokens ''t0'' [Subject ''chunk'' ''c3''] ''permanent'' ''a'' confirm_sample))))
   = snd (forget_permanently (forget_sample_env erasing_store) [Subject ''chunk'' ''c3''] ''mcp'' []
       (cw_engine (snd (issue_token memory_tokens ''t0'' [Subject ''chunk'' ''c3''] ''permanent'' ''a'' confirm_sample))))"
  by (subst token_runs_what_was_previewed [OF memory_served confirm_rooted, where ss = "[Subject ''chunk'' ''c3'']" and mode = "''permanent''" and caller = "''a''"])
    simp_all

theorem parsed_subjects_witness:
  "parse_subjects [''artifact''] [ItemDict [(''kind'', PStr ''artifact''), (''id'', PStr ''abcd-1234'')]] = Inr [Subject ''artifact'' ''abcd-1234'']
   \<and> valid_subjects [Subject ''artifact'' ''abcd-1234'']"
proof -
  have p: "parse_subjects [''artifact''] [ItemDict [(''kind'', PStr ''artifact''), (''id'', PStr ''abcd-1234'')]] = Inr [Subject ''artifact'' ''abcd-1234'']"
    by (simp add: parse_subjects_def dget_Cons str_in_def parse_subject_def SUBJECT_KINDS_def id_match_def is_id_char_def is_digit_def
      is_lower_letter_def lower_char_def)
  from p parsed_subjects_safe [OF p] show ?thesis by blast
qed

text \<open>The dollar of the pattern also matches before a final line feed, so such an id passes.\<close>

lemma line_feed_passes: "parse_subject ''conversation'' [CHR ''c'', CHR ''1'', CHR 0x0A] = Inr (Subject ''conversation'' [CHR ''c'', CHR ''1'', CHR 0x0A])"
  by (simp add: parse_subject_def validate_conversation_id_def id_match_def is_id_char_def is_digit_def is_lower_letter_def lower_char_def)

definition first_chunking :: "(string option \<times> string) list" where
  "first_chunking = [(None, ''a''), (None, ''a'')]"

definition second_chunking :: "(string option \<times> string) list" where
  "second_chunking = [(None, ''b''), (None, ''a'')]"

lemmas chunk_samples = first_chunking_def second_chunking_def chunk_text_def occurrence_def chunk_key_def chunk_body_def drop_header_def
  drop_context_line_def line_and_rest_def split_ws_def hash_level_def hashed_text_def show_nat.simps py_isspace_def

theorem chunk_ids_witness:
  "(assign_chunks rev ''d'' first_chunking [] ! 0 = assign_chunks rev ''d'' second_chunking [] ! 1) \<and> distinct (assign_chunks rev ''d'' first_chunking [])"
proof -
  have "inj_on (\<lambda>t. take 16 (rev t)) (set (map (chunk_text ''d'' first_chunking) [0..<length first_chunking] @ map (chunk_text ''d'' second_chunking) [0..<length second_chunking]))"
    by (simp add: chunk_samples inj_on_def upt_conv_Cons)
  from chunk_ids_name_their_text [OF this, of 0 1] show ?thesis by (simp add: chunk_samples)
qed

theorem chunk_artifact_witness:
  "chunk_artifact_id (content_chunk_id (\<lambda>_. replicate 16 (CHR ''a'')) ''doc-1'' None ''text'' 0) = Some ''doc-1''
   \<and> chunk_artifact_id (''doc-1'' @ ''_chunk_'' @ show_nat 7) = Some ''doc-1''"
  by (rule chunk_id_names_artifact) (simp_all add: is_lower_hex_def list_all_iff)

end
