(* ===== verification/Spec2Isabelle.thy ===== *)
theory Spec2Isabelle
  imports ReviewRules PlanRules TriagePass BreakerRules ProcessorSamples LineageSamples ConfirmSamples
begin

text \<open>
  Verification of three parts of Cerid-AI (\<^verbatim>\<open>src/mcp\<close>): the local inbox, that is how mail threads are read,
  filtered, classified, proposed, applied to the user's mailboxes, undone, and learned from; the background
  processor, that is its job queue on Redis, its worker, its cost accounting, and the circuit breaker
  that guards calls to other services; and forgetting, that is how content is trashed, restored and
  erased across machines, and what a reader is shown of it.

  The inbox. A triage pass (\<^verbatim>\<open>core/agents/inbox_triage.py\<close>) fetches mail, groups it
  into threads, asks the filter (\<^verbatim>\<open>core/agents/inbox_filter.py\<close>) and the router
  (\<^verbatim>\<open>core/agents/inbox_actions.py\<close>) whether a model is needed, climbs a ladder of models, and returns
  threads with a category, an action and perhaps a draft. The review queue (\<^verbatim>\<open>app/inbox/review.py\<close>) turns
  threads into proposals in the ledger (\<^verbatim>\<open>app/inbox/ledger.py\<close>), after learning (\<^verbatim>\<open>app/inbox/learn.py\<close>) what
  the user changed since. Applying a proposal plans provider calls (\<^verbatim>\<open>core/agents/inbox_apply.py\<close>), checks
  them with hooks (\<^verbatim>\<open>app/inbox/hooks.py\<close>) and performs them (\<^verbatim>\<open>app/inbox/executor.py\<close>), recording the outcome.

  The processor. Jobs are records (\<^verbatim>\<open>core/processor/job.py\<close>, \<^verbatim>\<open>priority.py\<close>) kept as Redis hashes, their ids
  on one list per priority (\<^verbatim>\<open>app/db/redis/processor_queue.py\<close>). A worker (\<^verbatim>\<open>app/processor/worker.py\<close>) takes
  one at each tick, marks it as running, chooses a model under the monthly cap (\<^verbatim>\<open>app/processor/model_policy.py\<close>,
  \<^verbatim>\<open>core/processor/mode.py\<close>, \<^verbatim>\<open>cost.py\<close>), runs it, settles it or enqueues a retry, and records its cost
  (\<^verbatim>\<open>app/processor/metrics.py\<close>), which the cap of later jobs is compared with.

  Forgetting. What a user asks to forget is an entry in a log (\<^verbatim>\<open>core/forget/registry.py\<close>), one file per
  machine in a shared folder; all files together are indexed, a local snapshot stands in while the folder
  is away, and content that comes back is recorded as re-added. The engine (\<^verbatim>\<open>app/services/forget/engine.py\<close>)
  trashes, restores and purges through the adapters of the stores, with a receipt for each purge, and
  retries what a store left pending. Clients name subjects by checked ids (\<^verbatim>\<open>app/services/forget/subjects.py\<close>),
  chunks by ids that are made of their text (\<^verbatim>\<open>core/retrieval/chunk_ids.py\<close>), and run a forget with the token of
  its preview (\<^verbatim>\<open>app/services/forget/confirm.py\<close>). Readers pass their results through a filter
  (\<^verbatim>\<open>core/forget/read_filter.py\<close>), which asks the registry and keeps of each document or memory the version
  in force (\<^verbatim>\<open>core/lineage/current.py\<close>).

  Theories and what they model.
    \<^item> \<^verbatim>\<open>Prelude\<close>, \<^verbatim>\<open>PyVal\<close>, \<^verbatim>\<open>Json\<close>, \<^verbatim>\<open>Effects\<close>: Python strings over ASCII, dynamic values and dictionaries in
      insertion order, \<^verbatim>\<open>json.dumps\<close> and \<^verbatim>\<open>json.loads\<close> with their round trip, and effects as state passing
      with exceptions, with the rules for what an effect logs, what it keeps (\<open>keeps\<close>) and what it returns (\<open>returns\<close>).
    \<^item> \<^verbatim>\<open>InboxActions\<close>, \<^verbatim>\<open>InboxFilter\<close>, \<^verbatim>\<open>InboxApply\<close>, \<^verbatim>\<open>InboxHooks\<close>, \<^verbatim>\<open>InboxMessages\<close>, \<^verbatim>\<open>InboxTriage\<close>: the pure
      core, one definition per function of the module of the same name.
    \<^item> \<^verbatim>\<open>InboxLedger\<close>, \<^verbatim>\<open>InboxLearn\<close>, \<^verbatim>\<open>InboxExecutor\<close>, \<^verbatim>\<open>InboxReview\<close>: the stateful parts. A table is a list of
      rows, an SQL statement a function on it; the world of an apply is the ledger, the log of calls that
      left the process, and a counter from which clock readings and fresh ids are drawn.
    \<^item> \<^verbatim>\<open>LedgerRuns\<close>: every ledger write as one operation, its runs, and the open proposals as an abstract map.
    \<^item> \<^verbatim>\<open>PlanRules\<close>, \<^verbatim>\<open>ExecutorSafety\<close>, \<^verbatim>\<open>ReviewSafety\<close>, \<^verbatim>\<open>ReviewRules\<close>, \<^verbatim>\<open>TriageLadder\<close>, \<^verbatim>\<open>TriagePass\<close>: the
      properties of one component or of two that meet; this theory holds those that span the queue.
    \<^item> \<^verbatim>\<open>CircuitBreaker\<close>, \<^verbatim>\<open>BreakerRules\<close>: the breaker of \<^verbatim>\<open>core/utils/circuit_breaker.py\<close> and its interleaved calls.
    \<^item> \<^verbatim>\<open>PyTime\<close>, \<^verbatim>\<open>PyDecimal\<close>: the parts of \<^verbatim>\<open>datetime\<close> and \<^verbatim>\<open>decimal\<close> in use, with the round trips of their text.
    \<^item> \<^verbatim>\<open>RedisClient\<close>: the commands in use, the client as a parameter, and what a server promises: \<open>serves view R\<close>
      says that every command answers from, and changes, an abstract view as the Redis manual says.
    \<^item> \<^verbatim>\<open>ProcessorJobs\<close>, \<^verbatim>\<open>ProcessorQueue\<close>, \<^verbatim>\<open>ProcessorMetrics\<close>, \<^verbatim>\<open>ProcessorWorker\<close>: one definition per function of
      the processor; \<^verbatim>\<open>JobRecords\<close>: records through their hash; \<^verbatim>\<open>QueueRules\<close>: each queue operation as a
      function on the view; \<^verbatim>\<open>QueueOrder\<close>, \<^verbatim>\<open>QueueSafety\<close>, \<^verbatim>\<open>QueueFaults\<close>, \<^verbatim>\<open>WorkerRules\<close>, \<^verbatim>\<open>WorkerRetries\<close>: the order of
      work, recovery, settlement, duplicates, lost work, retries, the cap and the spend.
    \<^item> \<^verbatim>\<open>ForgetRegistry\<close>: entries, their JSON lines, the index, refreshes, appends and queries of the registry.
      The disk is a value: the folder's files by name, absent where the folder is missing, and the snapshot.
      \<^verbatim>\<open>ForgetIndex\<close>: the index against its meaning, the last word on each forget; \<^verbatim>\<open>ForgetLog\<close>: lines read back;
      \<^verbatim>\<open>ForgetOutage\<close>: runs in which the folder comes and goes; \<^verbatim>\<open>ForgetWrites\<close>: what appends and re-adds change.
    \<^item> \<^verbatim>\<open>ForgetEngine\<close>: one definition per operation of the engine, over a state of registry, disk, receipts, the
      log of what was applied here, audit records and stores. \<^verbatim>\<open>ForgetPurge\<close>: trash, and purges that only move
      forward; \<^verbatim>\<open>ForgetErase\<close>: purges whose stores work or fail; \<^verbatim>\<open>ForgetRetry\<close>: the retry of started purges.
    \<^item> \<^verbatim>\<open>ChunkIds\<close>, \<^verbatim>\<open>ChunkIdRules\<close>: chunk ids, and that they name their text and their artifact; \<^verbatim>\<open>ForgetSubjects\<close>:
      subjects from outside; \<^verbatim>\<open>ForgetConfirm\<close>, \<^verbatim>\<open>ConfirmRules\<close>: tokens over a server with two commands, and the
      runs in which they are issued, used and expire.
    \<^item> \<^verbatim>\<open>Lineage\<close>, \<^verbatim>\<open>LineageRules\<close>: times and the version in force; \<^verbatim>\<open>ReadFilter\<close>: the filter over any source of
      forgotten ids, and over the registry.
    \<^item> \<^verbatim>\<open>Samples\<close>, \<^verbatim>\<open>ProcessorSamples\<close>, \<^verbatim>\<open>ForgetSamples\<close>, \<^verbatim>\<open>LineageSamples\<close>, \<^verbatim>\<open>ConfirmSamples\<close>: concrete
      environments on which witnesses are evaluated.

  Interfaces. The locale \<open>machine\<close> states runs of an operation-driven component and is interpreted on the
  ledger; \<open>gate\<close> states what passes through a checked call and is interpreted on the tool call;
  \<open>apply_invariant\<close> collects the ledger writes an apply makes and is interpreted for the ledger's
  invariant, the frame, the presence of a ledger or of a row, and a row that is closed; \<open>review_world\<close> collects
  what the queue calls and is interpreted for the ledger's invariant, for mail safety and for closed rows; \<open>forget_query\<close> states what the read filter
  relies on, that the ids it is given are those forgotten, and is interpreted on the registry.

  Parameters. The mail siblings (tool servers and Mail's helper), the language models, the sender memory
  seam, the scanner, the ingest endpoint and \<^verbatim>\<open>email.utils.parseaddr\<close> are functions in the environments;
  their replies may depend on every earlier call, and no property assumes anything of them. Redis is a
  parameter too; the properties of the processor assume \<open>serves\<close>, which the in-memory store of \<^verbatim>\<open>RedisClient\<close>
  meets, except where they are about a client that fails. Job classes are parameters of the worker; what a
  property needs of a run is a premise (\<open>tidy_job\<close>: its record stays readable; \<open>always_fails\<close>). The
  adapters of the stores are parameters of the engine and may raise; what a property needs of them is a
  premise (\<open>stores_work\<close>, \<open>store_fails\<close>); the token server is one, of which \<open>tokens_served\<close> states what \<^verbatim>\<open>SET\<close>
  and \<^verbatim>\<open>GETDEL\<close> do, and so is the hash of chunk ids, assumed free of collisions among the texts
  compared. Clock readings and fresh forget ids are drawn from sequences.

  Bounds. The JSON reader takes as fuel one more than the length of its input, which the round trip shows
  to be enough; the ladder terminates by the rank of its band. Decimals are exact: the 28 digits of the
  default context are not reached by the sums of costs. Floats are rationals, printed to 17 decimals.

  Not modelled. Text is read as bytes with ASCII case folding and spaces; SQLite connections, schema
  migration and logging are left out; the rspamd HTTP client and the model transport are parameters. The
  expiry of Redis keys is not timed: an expired record is one that is absent. The ticks of several worker
  tasks are sequences of whole ticks; asyncio scheduling, cancellation and the sleeps are left out. The
  shared folder can be made and written whenever it is configured, and a receipt is what its file parses
  to; a registry file whose status cannot be read is one the folder value leaves out. Confidences are
  finite: the texts of infinities and NaN, and integers too large for a float, are left out. The deletions
  of the adapters, the selection preview, the listing of receipts and the writer of versions are not
  modelled either. ISO dates are read in the extended calendar formats, offsets with or without a colon. The
  rest of the system (retrieval, graph, verification agents, ingestion, routers, scheduler, web) is listed
  as not modelled in the manifest.
\<close>

section \<open>The ledger over any history\<close>

abbreviation ledger_after :: "ledger_op list \<Rightarrow> ledger" where
  "ledger_after ops \<equiv> fold ledger_step ops empty_ledger"

lemma ledger_after_inv: "ledger_inv (ledger_after ops)"
  by (rule ledger_runs.run_inv) simp

text \<open>
  C22. After any history of ledger operations the keys of every table are unique, a thread has at
  most one open proposal, a decision at most one queued command, and every sender row is pinned
  exactly when its streak reached the threshold.
\<close>
theorem ledger_history_inv: "ledger_inv (fold ledger_step ops empty_ledger)"
  using ledger_after_inv .

text \<open>
  C21. Refinement: seen as a map from threads to their open proposal, after any history proposing is
  a map update at the thread, and recording a closing status removes exactly the entry of that
  decision.
\<close>
theorem open_proposals_refine:
  assumes "propose now i p (ledger_after ops) = Inr (d, l')" "st \<noteq> ''proposed''"
  shows "open_map l' = (open_map (ledger_after ops))((pr_source p, pr_thread_id p) \<mapsto> d)
    \<and> open_map (record_decision e st rc (ledger_after ops)) k =
        (if open_map (ledger_after ops) k = Some e then None else open_map (ledger_after ops) k)"
proof -
  have "d = i" using assms(1) by (auto simp: propose_def Let_def split: if_splits)
  then show ?thesis
    using open_map_propose [OF assms(1)] open_map_record [OF ledger_after_inv assms(2)] by simp
qed

theorem open_proposals_refine_witness:
  "open_map (snd (projr (propose ''0'' ''d1'' (thread_proposal sample_thread ''me@x.org'' [''m1'']) (ledger_after []))))
     = (open_map (ledger_after []))((''gmail'', ''t1'') \<mapsto> ''d1'')"
proof -
  let ?p = "thread_proposal sample_thread ''me@x.org'' [''m1'']"
  have p: "pr_source ?p = ''gmail''" "pr_thread_id ?p = ''t1''" by (simp_all add: thread_proposal_def sample_thread_def)
  obtain l' where l': "propose ''0'' ''d1'' ?p (ledger_after []) = Inr (''d1'', l')"
    by (simp add: propose_def empty_ledger_def)
  show ?thesis
    using open_proposals_refine [where ops = "[]" and st = "''applied''", OF l'] l' by (simp add: p)
qed

text \<open>
  One decision counts once: a correction repeated with the decision it came from changes
  nothing, whatever outcome the repetition claims.
\<close>
theorem correction_counts_once:
  assumes "note_correction now s t c a dm i l = Inr (r, l')" "i \<noteq> []"
  shows "note_correction now' s t c' a' dm' i l' = Inr (r, l')"
  using note_correction_once [OF assms] .

lemma sample_correction:
  "\<exists>r l'. note_correction now ''gmail'' ''a@b.co'' ''actionable'' ''keep'' [] i l = Inr (r, l')"
  by (simp add: note_correction_eq fold_sender_def Let_def strip_def lower_def py_isspace_def lower_char_def)

theorem correction_counts_once_witness:
  "\<exists>r l'. note_correction ''1'' ''gmail'' ''a@b.co'' ''actionable'' ''keep'' [] ''d1'' empty_ledger = Inr (r, l')
     \<and> note_correction ''2'' ''gmail'' ''a@b.co'' ''spam'' ''archive'' [] ''d1'' l' = Inr (r, l')"
proof -
  obtain r l' where r: "note_correction ''1'' ''gmail'' ''a@b.co'' ''actionable'' ''keep'' [] ''d1'' empty_ledger = Inr (r, l')"
    using sample_correction by blast
  moreover have "note_correction ''2'' ''gmail'' ''a@b.co'' ''spam'' ''archive'' [] ''d1'' l' = Inr (r, l')"
    by (rule correction_counts_once [OF r]) simp
  ultimately show ?thesis by blast
qed

text \<open>
  After any history, what a sender's memory is worth to the router reaches the skip band
  exactly when its streak reached the pin threshold: an unpinned streak never skips the model.
\<close>
theorem memory_skips_iff_streak:
  assumes "find_sender s t (ledger_after ops) = Some r"
  shows "memory_confidence r \<ge> PIN_CONFIDENCE \<longleftrightarrow> sm_hits r \<ge> PIN_HITS"
  by (rule memory_confidence_pin [OF find_sender_ok [OF ledger_after_inv assms]])

theorem memory_skips_iff_streak_witness:
  "\<exists>r. find_sender ''gmail'' ''a@b.co''
          (fold ledger_step [OpPinSender ''0'' ''gmail'' ''a@b.co'' ''promo'' ''archive'' []] empty_ledger) = Some r
     \<and> memory_confidence r \<ge> PIN_CONFIDENCE \<and> sm_hits r \<ge> PIN_HITS"
proof -
  let ?ops = "[OpPinSender ''0'' ''gmail'' ''a@b.co'' ''promo'' ''archive'' []]"
  have "(case find_sender ''gmail'' ''a@b.co'' (fold ledger_step ?ops empty_ledger) of
          Some r \<Rightarrow> sm_hits r \<ge> PIN_HITS | None \<Rightarrow> False)" by code_simp
  then obtain r where r: "find_sender ''gmail'' ''a@b.co'' (fold ledger_step ?ops empty_ledger) = Some r" "sm_hits r \<ge> PIN_HITS"
    by (cases "find_sender ''gmail'' ''a@b.co'' (fold ledger_step ?ops empty_ledger)") auto
  with memory_skips_iff_streak [OF r(1)] show ?thesis by blast
qed

theorem alternating_corrections_pin_witness:
  "\<exists>r1 l1 r2 l2 r3 l3. note_correction ''1'' ''gmail'' ''a@b.co'' ''promo'' ''archive'' [] ''d1'' empty_ledger = Inr (r1, l1)
     \<and> note_correction ''2'' ''gmail'' ''a@b.co'' ''promo'' ''archive'' [] ''d2'' l1 = Inr (r2, l2)
     \<and> note_correction ''3'' ''gmail'' ''a@b.co'' ''promo'' ''archive'' [] ''d1'' l2 = Inr (r3, l3)
     \<and> sm_pinned r3 = 1"
proof -
  have t: "fold_sender ''a@b.co'' \<noteq> []" by code_simp
  note ret = note_correction_returns [OF t]
  obtain r1 l1 where 1: "note_correction ''1'' ''gmail'' ''a@b.co'' ''promo'' ''archive'' [] ''d1'' empty_ledger = Inr (r1, l1)"
    using ret by blast
  obtain r2 l2 where 2: "note_correction ''2'' ''gmail'' ''a@b.co'' ''promo'' ''archive'' [] ''d2'' l1 = Inr (r2, l2)"
    using ret by blast
  obtain r3 l3 where 3: "note_correction ''3'' ''gmail'' ''a@b.co'' ''promo'' ''archive'' [] ''d1'' l2 = Inr (r3, l3)"
    using ret by blast
  have "find_sender (strip ''gmail'') (fold_sender ''a@b.co'') empty_ledger = None"
    by (simp add: find_sender_def empty_ledger_def)
  from alternating_corrections_pin [OF _ _ _ 1 this 2 3] 1 2 3 show ?thesis by auto
qed

section \<open>The whole queue\<close>

text \<open>
  C2. Mail safety of every operation: skipping, applying ids, undoing, and the full pass that
  learns, proposes and applies keep the property that everything that ever reached a mail sibling
  was on its allowlist, that no command moved mail to a junk or trash mailbox, and that everything
  still queued in the outbox is as safe.
\<close>
theorem queue_mail_safe:
  "keeps safe_world (skip_decision did) \<and> keeps safe_world (apply_ids env dry cap en raw)
   \<and> keeps safe_world (undo_decision env dry en did) \<and> keeps safe_world (record_and_apply env threads)"
  using review_safe.skip_W review_safe.apply_ids_W review_safe.undo_W review_safe.record_and_apply_W by blast

text \<open>
  C20. Every operation of the queue keeps the ledger's invariant, on every branch and whatever the
  mail siblings reply or raise.
\<close>
theorem queue_keeps_ledger_inv:
  "keeps (led ledger_inv) (skip_decision did) \<and> keeps (led ledger_inv) (apply_ids env dry cap en raw)
   \<and> keeps (led ledger_inv) (undo_decision env dry en did) \<and> keeps (led ledger_inv) (record_and_apply env threads)"
  using review_inv.skip_W review_inv.apply_ids_W review_inv.undo_W review_inv.record_and_apply_W by blast

text \<open>
  A dry run, and any run with the actions flag off, leaves the world as it was: no call, no
  row, no queued command.
\<close>
theorem dry_run_changes_nothing:
  "snd (apply_ids env True cap en raw w) = w
   \<and> snd (apply_decision env dry (Some False) d w) = w \<and> snd (apply_decision env True en d w) = w"
  using apply_ids_dry apply_dry_state [where dry = dry and en = "Some False"] apply_dry_state [where dry = True] by simp

text \<open>
  The automatic pass attempts at most its cap and reports no more applied than attempted.
\<close>
theorem auto_pass_capped:
  assumes "auto_apply_pass env cap en w = (Inr (applied, attempted, reason), w')"
  shows "applied \<le> attempted \<and> attempted \<le> cap"
  using auto_pass_counts [OF assms] .

theorem auto_pass_capped_witness:
  "\<exists>applied attempted reason w'. auto_apply_pass sample_env 5 (Some False) sample_world = (Inr (applied, attempted, reason), w')
     \<and> applied \<le> attempted \<and> attempted \<le> 5"
proof -
  have r: "auto_apply_pass sample_env 5 (Some False) sample_world = (Inr (0, 0, ''actions flag is off''), sample_world)"
    by (simp add: auto_apply_pass_def ret_def)
  from auto_pass_capped [OF r] r show ?thesis by blast
qed

text \<open>
  Round trip of a proposal through the store: the receipt and the message ids that a proposal
  writes as JSON text are read back as they were.
\<close>
theorem proposal_round_trip:
  "row_receipt (row_dict (proposed_row now i (thread_proposal t a ids))) = proposal_receipt (thread_proposal t a ids)
   \<and> json_list (dget (row_dict (proposed_row now i (thread_proposal t a ids))) ''message_ids'') = map PStr ids"
proof -
  have "json_ok (PList (map PStr ids))" by (simp add: list_all_iff)
  note j = json_roundtrip [OF this]
  have "\<exists>cs. json_dumps (PList (map PStr ids)) = CHR 0x5B # cs" by (simp add: json_dumps.simps)
  then obtain cs where cs: "json_dumps (PList (map PStr ids)) = CHR 0x5B # cs" by blast
  have "strip (json_dumps (PList (map PStr ids))) \<noteq> []" unfolding cs by (rule strip_ne) (simp add: py_isspace_def)
  then have "json_list (PStr (json_dumps (PList (map PStr ids)))) = map PStr ids" using j by (simp add: json_list_def)
  then show ?thesis
    by (simp add: proposal_row_receipt) (simp add: row_dict_def proposed_row_def thread_proposal_def dget_Cons)
qed

text \<open>
  The hook chain accepts a decision exactly when every hook of it passes, the audit hook
  included: the order of the chain decides only which failure is reported.
\<close>
theorem hooks_accept_iff_all_pass:
  "hr_ok (run_hooks d True) \<longleftrightarrow>
     passes (schema_hook d) \<and> passes (allowlist_hook d) \<and> passes (account_hook d)
     \<and> passes (folder_policy_hook d) \<and> passes (rag_route_hook d) \<and> passes (audit_hook d)"
  by (rule run_hooks_ok_iff)

end
